theory Spec2Isabelle
  imports Complex_Main
begin

section \<open>Numbers, arrays and the Legendre kernel\<close>

text \<open>
  The sources are \<^verbatim>\<open>atom_vec_spherharm.cpp\<close> and \<^verbatim>\<open>pair_sh.cpp\<close> of the
  USER-SPHERHARM package. A C++ \<^verbatim>\<open>double\<close> is modelled as a \<^typ>\<open>real\<close>, so \<open>+\<close>,
  \<open>*\<close>, \<open>sqrt\<close>, \<open>cos\<close> and \<open>sin\<close> are the exact operations; rounding is not modelled.
  Where the code divides by a value that can be zero the model says so explicitly (the
  IEEE quotient is then not a finite number, and no real stands for it). Loop counters and
  array indices are \<^typ>\<open>nat\<close>; an array is a list, read with \<open>!\<close> and written with
  \<open>xs[i := v]\<close>.

  The three Legendre routines \<^verbatim>\<open>plegendre\<close>, \<^verbatim>\<open>plegendre_nn\<close> and
  \<^verbatim>\<open>plegendre_recycle\<close> of namespace \<^verbatim>\<open>MathSpherharm\<close> live in
  \<^verbatim>\<open>math_spherharm.cpp\<close>; the functions below take them as a parameter.
\<close>

record legendre =
  plegendre :: "nat \<Rightarrow> nat \<Rightarrow> real \<Rightarrow> real"
  plegendre_nn :: "nat \<Rightarrow> real \<Rightarrow> real \<Rightarrow> real"
  plegendre_recycle :: "nat \<Rightarrow> nat \<Rightarrow> real \<Rightarrow> real \<Rightarrow> real \<Rightarrow> real"

text \<open>The members of class \<^verbatim>\<open>AtomVecSpherharm\<close> that the shape routines use.\<close>

record atom_vec =
  maxshexpan :: nat
  nshtypes :: nat
  num_quadrature :: nat
  shcoeffs_byshape :: "real list list"
  expfacts_byshape :: "real list list"
  maxrad_byshape :: "real list"
  angles :: "real list list"
  weights :: "real list"
  quad_rads_byshape :: "real list list"

text \<open>
  The local variables of the radius loops: the running radius, the two rolling rows
  \<^verbatim>\<open>Pnm_m2\<close>, \<^verbatim>\<open>Pnm_m1\<close> of Legendre values and the last diagonal value
  \<^verbatim>\<open>Pnm_nn\<close>.
\<close>

record sh_buf =
  rad_val :: real
  Pnm_m2 :: "real list"
  Pnm_m1 :: "real list"
  Pnm_nn :: real

section \<open>The contact test: \<^verbatim>\<open>AtomVecSpherharm::check_contact\<close>\<close>

text \<open>Branch \<^verbatim>\<open>n == 1\<close> of the loop body.\<close>

definition cc_n1 :: "legendre \<Rightarrow> real list \<Rightarrow> real \<Rightarrow> real \<Rightarrow> sh_buf \<Rightarrow> sh_buf" where
  "cc_n1 K cs x_val phi_proj b =
     (let P0 = plegendre K 1 0 x_val;
          m2a = (Pnm_m2 b)[0 := P0];
          r1 = rad_val b + cs ! 4 * P0;
          P1 = plegendre K 1 1 x_val;
          m2b = m2a[1 := P1];
          mphi = 1 * phi_proj;
          r2 = r1 + (cs ! 2 * cos mphi - cs ! 3 * sin mphi) * 2 * P1
      in b\<lparr>rad_val := r2, Pnm_m2 := m2b\<rparr>)"

text \<open>
  Branch \<^verbatim>\<open>n == 2\<close>: the \<open>m = 0\<close> term, then the loop
  \<^verbatim>\<open>for (int m = 2; m >= 1; m--)\<close> with \<^verbatim>\<open>nloc\<close> running up from \<open>n (n + 1) = 6\<close>.
\<close>

definition cc_n2_m :: "legendre \<Rightarrow> real list \<Rightarrow> real \<Rightarrow> real \<Rightarrow> nat \<Rightarrow> sh_buf \<times> nat \<Rightarrow> sh_buf \<times> nat" where
  "cc_n2_m K cs x_val phi_proj m = (\<lambda>(b, nloc).
     (let P = plegendre K 2 m x_val;
          m1 = (Pnm_m1 b)[m := P];
          mphi = real m * phi_proj;
          r = rad_val b + (cs ! nloc * cos mphi - cs ! (nloc + 1) * sin mphi) * 2 * P
      in (b\<lparr>rad_val := r, Pnm_m1 := m1\<rparr>, nloc + 2)))"

definition cc_n2 :: "legendre \<Rightarrow> real list \<Rightarrow> real \<Rightarrow> real \<Rightarrow> sh_buf \<Rightarrow> sh_buf" where
  "cc_n2 K cs x_val phi_proj b =
     (let P0 = plegendre K 2 0 x_val;
          b0 = b\<lparr>rad_val := rad_val b + cs ! 10 * P0, Pnm_m1 := (Pnm_m1 b)[0 := P0]\<rparr>;
          b1 = fst (fold (cc_n2_m K cs x_val phi_proj) [2, 1] (b0, 2 * (2 + 1)))
      in b1\<lparr>Pnm_nn := Pnm_m1 b1 ! 2\<rparr>)"

text \<open>
  Branch \<^verbatim>\<open>n >= 3\<close>, in three parts: the body of the loop
  \<^verbatim>\<open>for (int m = 1; m < n - 1; m++)\<close> (\<open>cc_ge3_m\<close>), the \<open>m = 0\<close> term by the
  recurrence that comes before it (\<open>cc_ge3_m0\<close>, which leaves \<^verbatim>\<open>loc\<close> at
  \<open>(n + 1) (n + 2) - 4\<close>), and the two tip terms \<open>m = n - 1\<close> and \<open>m = n\<close> that come
  after it (\<open>cc_ge3_tips\<close>).
\<close>

definition cc_ge3_m :: "legendre \<Rightarrow> real list \<Rightarrow> nat \<Rightarrow> real \<Rightarrow> real \<Rightarrow> nat \<Rightarrow> sh_buf \<times> nat \<Rightarrow> sh_buf \<times> nat" where
  "cc_ge3_m K cs n x_val phi_proj m = (\<lambda>(b, loc).
     (let P = plegendre_recycle K n m x_val (Pnm_m1 b ! m) (Pnm_m2 b ! m);
          m2 = (Pnm_m2 b)[m := Pnm_m1 b ! m];
          m1 = (Pnm_m1 b)[m := P];
          mphi = real m * phi_proj;
          r = rad_val b + (cs ! loc * cos mphi - cs ! (loc + 1) * sin mphi) * 2 * P
      in (b\<lparr>rad_val := r, Pnm_m2 := m2, Pnm_m1 := m1\<rparr>, loc - 2)))"

definition cc_ge3_m0 :: "legendre \<Rightarrow> real list \<Rightarrow> nat \<Rightarrow> real \<Rightarrow> real \<Rightarrow> sh_buf \<Rightarrow> sh_buf \<times> nat" where
  "cc_ge3_m0 K cs n x_val phi_proj b =
     (let P0 = plegendre_recycle K n 0 x_val (Pnm_m1 b ! 0) (Pnm_m2 b ! 0);
          loc0 = (n + 1) * (n + 2) - 2;
          b0 = b\<lparr>rad_val := rad_val b + cs ! loc0 * P0,
                 Pnm_m2 := (Pnm_m2 b)[0 := Pnm_m1 b ! 0],
                 Pnm_m1 := (Pnm_m1 b)[0 := P0]\<rparr>
      in (b0, loc0 - 2))"

definition cc_ge3_tips :: "legendre \<Rightarrow> real list \<Rightarrow> nat \<Rightarrow> real \<Rightarrow> real \<Rightarrow> sh_buf \<times> nat \<Rightarrow> sh_buf" where
  "cc_ge3_tips K cs n x_val phi_proj = (\<lambda>(b1, loc1).
     (let Pa = x_val * sqrt (2 * (real n - 1) + 3) * Pnm_nn b1;
          mphia = real (n - 1) * phi_proj;
          b2 = b1\<lparr>rad_val := rad_val b1
                       + (cs ! loc1 * cos mphia - cs ! (loc1 + 1) * sin mphia) * 2 * Pa,
                  Pnm_m2 := (Pnm_m2 b1)[n - 1 := Pnm_m1 b1 ! (n - 1)],
                  Pnm_m1 := (Pnm_m1 b1)[n - 1 := Pa]\<rparr>;
          loc2 = loc1 - 2;
          Pb = plegendre_nn K n x_val (Pnm_nn b2);
          mphib = real n * phi_proj
      in b2\<lparr>rad_val := rad_val b2
                  + (cs ! loc2 * cos mphib - cs ! (loc2 + 1) * sin mphib) * 2 * Pb,
             Pnm_m1 := (Pnm_m1 b2)[n := Pb],
             Pnm_nn := Pb\<rparr>))"

definition cc_ge3 :: "legendre \<Rightarrow> real list \<Rightarrow> nat \<Rightarrow> real \<Rightarrow> real \<Rightarrow> sh_buf \<Rightarrow> sh_buf" where
  "cc_ge3 K cs n x_val phi_proj b =
     cc_ge3_tips K cs n x_val phi_proj
       (fold (cc_ge3_m K cs n x_val phi_proj) [1 ..< n - 1] (cc_ge3_m0 K cs n x_val phi_proj b))"

text \<open>One pass of the body of \<^verbatim>\<open>while (n<=maxshexpan)\<close>, up to the distance test.\<close>

definition cc_degree :: "legendre \<Rightarrow> real list \<Rightarrow> nat \<Rightarrow> real \<Rightarrow> real \<Rightarrow> sh_buf \<Rightarrow> sh_buf" where
  "cc_degree K cs n x_val phi_proj b =
     (if n = 1 then cc_n1 K cs x_val phi_proj b
      else if n = 2 then cc_n2 K cs x_val phi_proj b
      else cc_ge3 K cs n x_val phi_proj b)"

text \<open>
  The state before the loop: \<^verbatim>\<open>rad_val\<close> holds the degree-0 radius, both rows are
  \<^verbatim>\<open>resize(maxshexpan+1, 0.0)\<close>. \<^verbatim>\<open>Pnm_nn\<close> is declared without a value and is
  written (in pass \<open>n = 2\<close>) before it is first read (in pass \<open>n = 3\<close>); the model starts
  it at \<open>0\<close>.
\<close>

definition sh_init :: "atom_vec \<Rightarrow> nat \<Rightarrow> sh_buf" where
  "sh_init av sht =
     \<lparr>rad_val = shcoeffs_byshape av ! sht ! 0 * sqrt (1 / (4 * pi)),
      Pnm_m2 = replicate (maxshexpan av + 1) 0,
      Pnm_m1 = replicate (maxshexpan av + 1) 0,
      Pnm_nn = 0\<rparr>"

text \<open>
  The loop \<^verbatim>\<open>while (n<=maxshexpan)\<close> with its three exits. The result is the returned
  \<^verbatim>\<open>int\<close> together with the value of the reference parameter \<^verbatim>\<open>finalrad\<close> on
  return.
\<close>

function cc_while :: "legendre \<Rightarrow> atom_vec \<Rightarrow> nat \<Rightarrow> real \<Rightarrow> real \<Rightarrow> real \<Rightarrow> real
    \<Rightarrow> nat \<Rightarrow> sh_buf \<Rightarrow> int \<times> real" where
  "cc_while K av sht phi_proj x_val outerdist finalrad n b =
     (if n \<le> maxshexpan av then
        (let b' = cc_degree K (shcoeffs_byshape av ! sht) n x_val phi_proj b;
             sh_dist = expfacts_byshape av ! sht ! n * rad_val b'
         in if outerdist > sh_dist then (0, finalrad)
            else if n + 1 > maxshexpan av then
              (if outerdist \<le> sh_dist then (1, rad_val b') else (0, finalrad))
            else cc_while K av sht phi_proj x_val outerdist finalrad (n + 1) b')
      else (0, finalrad))"
  by pat_completeness auto
termination
  by (relation "measure (\<lambda>(K, av, sht, phi_proj, x_val, outerdist, finalrad, n, b).
        maxshexpan av + 1 - n)") auto

definition check_contact :: "legendre \<Rightarrow> atom_vec \<Rightarrow> nat \<Rightarrow> real \<Rightarrow> real \<Rightarrow> real \<Rightarrow> real
    \<Rightarrow> int \<times> real" where
  "check_contact K av sht phi_proj theta_proj outerdist finalrad =
     (let b = sh_init av sht;
          sh_dist = expfacts_byshape av ! sht ! 0 * rad_val b
      in if outerdist > sh_dist then (0, finalrad)
         else cc_while K av sht phi_proj (cos theta_proj) outerdist finalrad 1 b)"

text \<open>
  The partial radius \<open>r\<^sub>n\<close>: the value of \<^verbatim>\<open>rad_val\<close> in \<^verbatim>\<open>check_contact\<close> once
  the passes for the degrees \<open>1, \<dots>, n\<close> have run, with no distance test in between.
\<close>

fun cc_buf :: "legendre \<Rightarrow> atom_vec \<Rightarrow> nat \<Rightarrow> real \<Rightarrow> real \<Rightarrow> nat \<Rightarrow> sh_buf" where
  "cc_buf K av sht phi_proj theta_proj 0 = sh_init av sht"
| "cc_buf K av sht phi_proj theta_proj (Suc n) =
     cc_degree K (shcoeffs_byshape av ! sht) (Suc n) (cos theta_proj) phi_proj
       (cc_buf K av sht phi_proj theta_proj n)"

definition partial_radius :: "legendre \<Rightarrow> atom_vec \<Rightarrow> nat \<Rightarrow> real \<Rightarrow> real \<Rightarrow> nat \<Rightarrow> real" where
  "partial_radius K av sht phi_proj theta_proj n = rad_val (cc_buf K av sht phi_proj theta_proj n)"

text \<open>The expanded radius \<^verbatim>\<open>sh_dist\<close> of degree \<open>n\<close>.\<close>

definition expanded_radius :: "legendre \<Rightarrow> atom_vec \<Rightarrow> nat \<Rightarrow> real \<Rightarrow> real \<Rightarrow> nat \<Rightarrow> real" where
  "expanded_radius K av sht phi_proj theta_proj n =
     expfacts_byshape av ! sht ! n * partial_radius K av sht phi_proj theta_proj n"

section \<open>The shape oracle: \<^verbatim>\<open>AtomVecSpherharm::get_shape_radius\<close>\<close>

definition gsr_n1 :: "legendre \<Rightarrow> real list \<Rightarrow> real \<Rightarrow> real \<Rightarrow> sh_buf \<Rightarrow> sh_buf" where
  "gsr_n1 K cs x_val phi b =
     (let P0 = plegendre K 1 0 x_val;
          m2a = (Pnm_m2 b)[0 := P0];
          r1 = rad_val b + cs ! 4 * P0;
          P1 = plegendre K 1 1 x_val;
          m2b = m2a[1 := P1];
          mphi = 1 * phi;
          r2 = r1 + (cs ! 2 * cos mphi - cs ! 3 * sin mphi) * 2 * P1
      in b\<lparr>rad_val := r2, Pnm_m2 := m2b\<rparr>)"

definition gsr_n2_m :: "legendre \<Rightarrow> real list \<Rightarrow> real \<Rightarrow> real \<Rightarrow> nat \<Rightarrow> sh_buf \<times> nat \<Rightarrow> sh_buf \<times> nat" where
  "gsr_n2_m K cs x_val phi m = (\<lambda>(b, nloc).
     (let P = plegendre K 2 m x_val;
          m1 = (Pnm_m1 b)[m := P];
          mphi = real m * phi;
          r = rad_val b + (cs ! nloc * cos mphi - cs ! (nloc + 1) * sin mphi) * 2 * P
      in (b\<lparr>rad_val := r, Pnm_m1 := m1\<rparr>, nloc + 2)))"

definition gsr_n2 :: "legendre \<Rightarrow> real list \<Rightarrow> real \<Rightarrow> real \<Rightarrow> sh_buf \<Rightarrow> sh_buf" where
  "gsr_n2 K cs x_val phi b =
     (let P0 = plegendre K 2 0 x_val;
          b0 = b\<lparr>rad_val := rad_val b + cs ! 10 * P0, Pnm_m1 := (Pnm_m1 b)[0 := P0]\<rparr>;
          b1 = fst (fold (gsr_n2_m K cs x_val phi) [2, 1] (b0, 2 * (2 + 1)))
      in b1\<lparr>Pnm_nn := Pnm_m1 b1 ! 2\<rparr>)"

definition gsr_ge3_m :: "legendre \<Rightarrow> real list \<Rightarrow> nat \<Rightarrow> real \<Rightarrow> real \<Rightarrow> nat \<Rightarrow> sh_buf \<times> nat \<Rightarrow> sh_buf \<times> nat" where
  "gsr_ge3_m K cs n x_val phi m = (\<lambda>(b, loc).
     (let P = plegendre_recycle K n m x_val (Pnm_m1 b ! m) (Pnm_m2 b ! m);
          m2 = (Pnm_m2 b)[m := Pnm_m1 b ! m];
          m1 = (Pnm_m1 b)[m := P];
          mphi = real m * phi;
          r = rad_val b + (cs ! loc * cos mphi - cs ! (loc + 1) * sin mphi) * 2 * P
      in (b\<lparr>rad_val := r, Pnm_m2 := m2, Pnm_m1 := m1\<rparr>, loc - 2)))"

definition gsr_ge3 :: "legendre \<Rightarrow> real list \<Rightarrow> nat \<Rightarrow> real \<Rightarrow> real \<Rightarrow> sh_buf \<Rightarrow> sh_buf" where
  "gsr_ge3 K cs n x_val phi b =
     (let P0 = plegendre_recycle K n 0 x_val (Pnm_m1 b ! 0) (Pnm_m2 b ! 0);
          loc0 = (n + 1) * (n + 2) - 2;
          b0 = b\<lparr>rad_val := rad_val b + cs ! loc0 * P0,
                 Pnm_m2 := (Pnm_m2 b)[0 := Pnm_m1 b ! 0],
                 Pnm_m1 := (Pnm_m1 b)[0 := P0]\<rparr>;
          (b1, loc1) = fold (gsr_ge3_m K cs n x_val phi) [1 ..< n - 1] (b0, loc0 - 2);
          Pa = x_val * sqrt (2 * (real n - 1) + 3) * Pnm_nn b1;
          mphia = real (n - 1) * phi;
          b2 = b1\<lparr>rad_val := rad_val b1
                       + (cs ! loc1 * cos mphia - cs ! (loc1 + 1) * sin mphia) * 2 * Pa,
                  Pnm_m2 := (Pnm_m2 b1)[n - 1 := Pnm_m1 b1 ! (n - 1)],
                  Pnm_m1 := (Pnm_m1 b1)[n - 1 := Pa]\<rparr>;
          loc2 = loc1 - 2;
          Pb = plegendre_nn K n x_val (Pnm_nn b2);
          mphib = real n * phi
      in b2\<lparr>rad_val := rad_val b2
                  + (cs ! loc2 * cos mphib - cs ! (loc2 + 1) * sin mphib) * 2 * Pb,
             Pnm_m1 := (Pnm_m1 b2)[n := Pb],
             Pnm_nn := Pb\<rparr>)"

text \<open>The body of \<^verbatim>\<open>for (n=1; n<=maxshexpan; n++)\<close>.\<close>

definition gsr_degree :: "legendre \<Rightarrow> real list \<Rightarrow> real \<Rightarrow> real \<Rightarrow> nat \<Rightarrow> sh_buf \<Rightarrow> sh_buf" where
  "gsr_degree K cs x_val phi n b =
     (if n = 1 then gsr_n1 K cs x_val phi b
      else if n = 2 then gsr_n2 K cs x_val phi b
      else gsr_ge3 K cs n x_val phi b)"

definition get_shape_radius :: "legendre \<Rightarrow> atom_vec \<Rightarrow> nat \<Rightarrow> real \<Rightarrow> real \<Rightarrow> real" where
  "get_shape_radius K av sht theta phi =
     rad_val (fold (gsr_degree K (shcoeffs_byshape av ! sht) (cos theta) phi)
                [1 ..< maxshexpan av + 1] (sh_init av sht))"

section \<open>Expansion factors: \<^verbatim>\<open>AtomVecSpherharm::calcexpansionfactors_gauss\<close>\<close>

text \<open>
  The local vectors of the routine, its counter \<^verbatim>\<open>k\<close>, and the two members it writes
  (\<^verbatim>\<open>expfacts_byshape\<close> and \<^verbatim>\<open>maxrad_byshape\<close>).
\<close>

record cef =
  r_n :: "real list"
  r_npo :: "real list"
  ratios :: "real list"
  expfactors :: "real list"
  cef_k :: nat
  cef_expfacts :: "real list list"
  cef_maxrad :: "real list"

text \<open>\<^verbatim>\<open>double safety_factor = 1.00;\<close>\<close>

definition safety_factor :: real where
  "safety_factor = 1"

text \<open>
  The terms of one degree \<open>n\<close> added to a radius: the \<open>m = 0\<close> term, then the loop
  \<^verbatim>\<open>for (int m = n; m > 0; m--)\<close> with \<^verbatim>\<open>loc\<close> running up from \<open>n (n + 1)\<close>. The
  source has this block twice in a row, for \<open>n\<close> on \<^verbatim>\<open>r_n[k]\<close> and (after
  \<^verbatim>\<open>n++\<close>) for \<open>n + 1\<close> on \<^verbatim>\<open>r_npo[k]\<close>.
\<close>

definition cef_m :: "legendre \<Rightarrow> real list \<Rightarrow> nat \<Rightarrow> real \<Rightarrow> real \<Rightarrow> nat \<Rightarrow> real \<times> nat \<Rightarrow> real \<times> nat" where
  "cef_m K cs n x_val phi m = (\<lambda>(r, loc).
     (let mphi = real m * phi;
          P = plegendre K n m x_val
      in (r + (cs ! loc * cos mphi - cs ! (loc + 1) * sin mphi) * 2 * P, loc + 2)))"

definition cef_degree :: "legendre \<Rightarrow> real list \<Rightarrow> nat \<Rightarrow> real \<Rightarrow> real \<Rightarrow> real \<Rightarrow> real" where
  "cef_degree K cs n x_val phi r =
     (let P0 = plegendre K n 0 x_val;
          r0 = r + cs ! ((n + 1) * (n + 2) - 2) * P0
      in fst (fold (cef_m K cs n x_val phi) (rev [1 ..< n + 1]) (r0, n * (n + 1))))"

text \<open>
  The body of the two grid loops for the point \<^verbatim>\<open>k\<close>. The test
  \<^verbatim>\<open>n <= maxshexpan - 1\<close> is on C++ \<^verbatim>\<open>int\<close>s and is written on \<^typ>\<open>int\<close> here
  (it is false for \<^verbatim>\<open>maxshexpan = 0\<close>). The quotient \<^verbatim>\<open>r_npo[k] / r_n[k]\<close> is
  the real quotient; for \<^verbatim>\<open>r_n[k] = 0\<close> the C++ value is infinite or NaN and HOL's
  is \<open>0\<close>.
\<close>

definition cef_point :: "legendre \<Rightarrow> atom_vec \<Rightarrow> nat \<Rightarrow> nat \<Rightarrow> cef \<Rightarrow> cef" where
  "cef_point K av sht n c =
     (let k = cef_k c;
          theta = angles av ! 0 ! k;
          phi = angles av ! 1 ! k;
          x_val = cos theta;
          cs = shcoeffs_byshape av ! sht;
          rn = cef_degree K cs n x_val phi (r_n c ! k);
          c1 = c\<lparr>r_n := (r_n c)[k := rn]\<rparr>;
          c2 = (if int n \<le> int (maxshexpan av) - 1 then
                  (let rnpo = cef_degree K cs (n + 1) x_val phi rn
                   in c1\<lparr>r_npo := (r_npo c1)[k := rnpo],
                         ratios := (ratios c1)[k := rnpo / rn]\<rparr>)
                else if rn > cef_maxrad c1 ! sht
                  then c1\<lparr>cef_maxrad := (cef_maxrad c1)[sht := rn]\<rparr>
                else c1)
      in c2\<lparr>cef_k := k + 1\<rparr>)"

text \<open>The loop \<^verbatim>\<open>for (int ii = 0; ii < k; ii++)\<close> that takes the largest ratio.\<close>

definition cef_max_ratio :: "real list \<Rightarrow> nat \<Rightarrow> real" where
  "cef_max_ratio rs k = fold (\<lambda>ii max_val. if rs ! ii > max_val then rs ! ii else max_val) [0 ..< k] 0"

text \<open>The body of \<^verbatim>\<open>for (int n = 0; n <= maxshexpan; n++)\<close>.\<close>

definition cef_n :: "legendre \<Rightarrow> atom_vec \<Rightarrow> nat \<Rightarrow> nat \<Rightarrow> cef \<Rightarrow> cef" where
  "cef_n K av sht n c =
     (let c1 = fold (\<lambda>i. fold (\<lambda>j. cef_point K av sht n) [0 ..< num_quadrature av])
                 [0 ..< num_quadrature av] (c\<lparr>cef_k := 0\<rparr>)
      in if int n \<le> int (maxshexpan av) - 1 then
           (let max_val = cef_max_ratio (ratios c1) (cef_k c1);
                ef = (expfactors c1)[n := max_val];
                ef' = (if ef ! n < 1 then ef[n := 1] else ef)
            in c1\<lparr>expfactors := ef'\<rparr>)
         else c1)"

text \<open>
  The body of \<^verbatim>\<open>for (int n = maxshexpan - 1; n >= 0; n--)\<close>, on the running
  \<^verbatim>\<open>factor\<close> and the vectors.
\<close>

definition cef_acc :: "nat \<Rightarrow> nat \<Rightarrow> real \<times> cef \<Rightarrow> real \<times> cef" where
  "cef_acc sht n = (\<lambda>(factor, c).
     (let factor' = factor * (expfactors c ! n * safety_factor)
      in (factor', c\<lparr>expfactors := (expfactors c)[n := factor'],
                     cef_expfacts := (cef_expfacts c)[sht := (cef_expfacts c ! sht)[n := factor']]\<rparr>)))"

text \<open>The body of \<^verbatim>\<open>for (int sht = 0; sht < nshtypes; sht++)\<close>.\<close>

definition cef_shape :: "legendre \<Rightarrow> atom_vec \<Rightarrow> nat \<Rightarrow> cef \<Rightarrow> cef" where
  "cef_shape K av sht c =
     (let c0 = c\<lparr>r_n := replicate (length (r_n c)) 0\<rparr>;
          c1 = fold (cef_n K av sht) [0 ..< maxshexpan av + 1] c0;
          (factor, c2) = fold (cef_acc sht) (rev [0 ..< maxshexpan av])
                           (expfactors c1 ! maxshexpan av, c1);
          c3 = c2\<lparr>cef_expfacts :=
                    (cef_expfacts c2)[sht := (cef_expfacts c2 ! sht)[maxshexpan av := 1]]\<rparr>
      in c3\<lparr>cef_maxrad := (cef_maxrad c3)[sht := cef_maxrad c3 ! sht * safety_factor]\<rparr>)"

definition cef_locals :: "atom_vec \<Rightarrow> cef" where
  "cef_locals av =
     (let num_quad2 = num_quadrature av * num_quadrature av
      in \<lparr>r_n = replicate num_quad2 0, r_npo = replicate num_quad2 0,
          ratios = replicate num_quad2 0,
          expfactors = (replicate (maxshexpan av + 1) 0)[maxshexpan av := 1],
          cef_k = 0,
          cef_expfacts = expfacts_byshape av, cef_maxrad = maxrad_byshape av\<rparr>)"

definition calcexpansionfactors_gauss :: "legendre \<Rightarrow> atom_vec \<Rightarrow> atom_vec" where
  "calcexpansionfactors_gauss K av =
     (let c = fold (cef_shape K av) [0 ..< nshtypes av] (cef_locals av)
      in av\<lparr>expfacts_byshape := cef_expfacts c, maxrad_byshape := cef_maxrad c\<rparr>)"

text \<open>
  The arrays as \<^verbatim>\<open>process_args\<close> allocates them before the routine runs:
  \<^verbatim>\<open>expfacts_byshape\<close> has \<^verbatim>\<open>nshtypes\<close> rows of \<^verbatim>\<open>maxshexpan + 1\<close> entries.
\<close>

definition expfacts_allocated :: "atom_vec \<Rightarrow> bool" where
  "expfacts_allocated av \<longleftrightarrow>
     length (expfacts_byshape av) = nshtypes av
     \<and> list_all (\<lambda>row. length row = maxshexpan av + 1) (expfacts_byshape av)"

text \<open>
  The early exit of \<^verbatim>\<open>check_contact\<close>, as a predicate: from degree \<open>n0\<close> on, some
  degree up to \<^verbatim>\<open>maxshexpan\<close> has an expanded radius smaller than the distance.
\<close>

definition early_exit :: "legendre \<Rightarrow> atom_vec \<Rightarrow> nat \<Rightarrow> real \<Rightarrow> real \<Rightarrow> real \<Rightarrow> nat \<Rightarrow> bool" where
  "early_exit K av sht phi_proj theta_proj d n0 \<longleftrightarrow>
     (\<exists>k. n0 \<le> k \<and> k \<le> maxshexpan av \<and> d > expanded_radius K av sht phi_proj theta_proj k)"

text \<open>
  Invariants of the loops of \<^verbatim>\<open>calcexpansionfactors_gauss\<close>. \<open>ef_ok N j ef\<close>: the
  vector \<^verbatim>\<open>expfactors\<close> has \<open>N + 1\<close> entries, the last one is \<open>1\<close>, and the entries
  below \<open>j\<close> (and below \<open>N\<close>) are clamped to at least \<open>1\<close>. \<open>row_ok N row\<close>: the row is
  non-increasing up to index \<open>N\<close> and ends in \<open>1\<close>. \<open>acc_post\<close>: what the accumulation
  loop from index \<open>j - 1\<close> down to \<open>0\<close> has done to row \<open>sht\<close>. \<open>cef_inv\<close>: the state
  between two shapes.
\<close>

definition ef_ok :: "nat \<Rightarrow> nat \<Rightarrow> real list \<Rightarrow> bool" where
  "ef_ok N j ef \<longleftrightarrow> length ef = N + 1 \<and> ef ! N = 1 \<and> (\<forall>n<j. n < N \<longrightarrow> 1 \<le> ef ! n)"

definition row_ok :: "nat \<Rightarrow> real list \<Rightarrow> bool" where
  "row_ok N row \<longleftrightarrow> (\<forall>n<N. row ! (n + 1) \<le> row ! n) \<and> row ! N = 1"

definition acc_post :: "nat \<Rightarrow> nat \<Rightarrow> real \<Rightarrow> cef \<Rightarrow> cef \<Rightarrow> bool" where
  "acc_post sht j f0 c c' \<longleftrightarrow>
     (\<forall>n. Suc n < j \<longrightarrow> cef_expfacts c' ! sht ! Suc n \<le> cef_expfacts c' ! sht ! n)
   \<and> (0 < j \<longrightarrow> f0 \<le> cef_expfacts c' ! sht ! (j - 1))
   \<and> (\<forall>m\<ge>j. cef_expfacts c' ! sht ! m = cef_expfacts c ! sht ! m)
   \<and> length (cef_expfacts c' ! sht) = length (cef_expfacts c ! sht)
   \<and> length (cef_expfacts c') = length (cef_expfacts c)
   \<and> (\<forall>s. s \<noteq> sht \<longrightarrow> cef_expfacts c' ! s = cef_expfacts c ! s)
   \<and> length (expfactors c') = length (expfactors c)
   \<and> (\<forall>m\<ge>j. expfactors c' ! m = expfactors c ! m)"

definition cef_inv :: "atom_vec \<Rightarrow> nat \<Rightarrow> cef \<Rightarrow> bool" where
  "cef_inv av j c \<longleftrightarrow>
     ef_ok (maxshexpan av) 0 (expfactors c)
   \<and> length (cef_expfacts c) = nshtypes av
   \<and> (\<forall>s<nshtypes av. length (cef_expfacts c ! s) = maxshexpan av + 1)
   \<and> (\<forall>s<j. s < nshtypes av \<longrightarrow> row_ok (maxshexpan av) (cef_expfacts c ! s))"

section \<open>The quadrature grid: \<^verbatim>\<open>AtomVecSpherharm::get_quadrature_values\<close>\<close>

text \<open>
  \<^verbatim>\<open>MathSpherharm::GLPair(n, k)\<close> and its result type \<^verbatim>\<open>QuadPair\<close> are declared in
  \<^verbatim>\<open>math_spherharm.h\<close>; \<^verbatim>\<open>GLPair\<close> is a parameter of the model.
\<close>

record QuadPair =
  qp_theta :: real
  qp_weight :: real

text \<open>
  Modelled from the spec: \<^verbatim>\<open>QuadPair::x()\<close> is not in the sources at hand. By section
  4.2 of the spec a node is returned as (arccos abscissa, weight), so the abscissa is the
  cosine of the stored angle.
\<close>

definition qp_x :: "QuadPair \<Rightarrow> real" where
  "qp_x p = cos (qp_theta p)"

text \<open>
  The first loop: \<^verbatim>\<open>weights[i] = p.weight; abscissa[i] = p.x();\<close> with
  \<^verbatim>\<open>p = GLPair(num_quadrature, i + 1)\<close>. \<^verbatim>\<open>abscissa\<close> is a local array of
  \<^verbatim>\<open>num_quadrature\<close> entries without initial values; the model starts it at \<open>0\<close>.
\<close>

definition gqv_node :: "(nat \<Rightarrow> nat \<Rightarrow> QuadPair) \<Rightarrow> nat \<Rightarrow> nat \<Rightarrow> real list \<times> real list
    \<Rightarrow> real list \<times> real list" where
  "gqv_node GLPair Q i = (\<lambda>(ws, abscissa).
     (let p = GLPair Q (i + 1) in (ws[i := qp_weight p], abscissa[i := qp_x p])))"

definition gqv_nodes :: "(nat \<Rightarrow> nat \<Rightarrow> QuadPair) \<Rightarrow> nat \<Rightarrow> real list \<Rightarrow> real list \<times> real list" where
  "gqv_nodes GLPair Q ws = fold (gqv_node GLPair Q) [0 ..< Q] (ws, replicate Q 0)"

text \<open>The body of the two grid loops, on \<^verbatim>\<open>angles\<close> and \<^verbatim>\<open>count\<close>.\<close>

definition gqv_point :: "real list \<Rightarrow> nat \<Rightarrow> nat \<Rightarrow> real list list \<times> nat \<Rightarrow> real list list \<times> nat" where
  "gqv_point abscissa i j = (\<lambda>(ang, count).
     (let ang0 = ang[0 := (ang ! 0)[count := 0.5 * pi * (abscissa ! i + 1.0)]];
          ang1 = ang0[1 := (ang0 ! 1)[count := pi * (abscissa ! j + 1.0)]]
      in (ang1, count + 1)))"

definition gqv_angles :: "real list \<Rightarrow> nat \<Rightarrow> real list list \<Rightarrow> real list list \<times> nat" where
  "gqv_angles abscissa Q ang =
     fold (\<lambda>i. fold (\<lambda>j. gqv_point abscissa i j) [0 ..< Q]) [0 ..< Q] (ang, 0)"

text \<open>The last loops: the radius of every shape at every grid point.\<close>

definition gqv_rad :: "legendre \<Rightarrow> atom_vec \<Rightarrow> nat \<Rightarrow> nat \<Rightarrow> real list list \<Rightarrow> real list list" where
  "gqv_rad K av sht k qr =
     (let theta = angles av ! 0 ! k;
          phi = angles av ! 1 ! k
      in qr[sht := (qr ! sht)[k := get_shape_radius K av sht theta phi]])"

definition get_quadrature_values :: "legendre \<Rightarrow> (nat \<Rightarrow> nat \<Rightarrow> QuadPair) \<Rightarrow> atom_vec \<Rightarrow> atom_vec" where
  "get_quadrature_values K GLPair av =
     (let (ws, abscissa) = gqv_nodes GLPair (num_quadrature av) (weights av);
          av1 = av\<lparr>weights := ws,
                   angles := fst (gqv_angles abscissa (num_quadrature av) (angles av))\<rparr>;
          num_quad2 = num_quadrature av * num_quadrature av
      in av1\<lparr>quad_rads_byshape :=
           fold (\<lambda>sht. fold (gqv_rad K av1 sht) [0 ..< num_quad2]) [0 ..< nshtypes av]
             (quad_rads_byshape av1)\<rparr>)"

text \<open>
  \<^verbatim>\<open>memory->create(angles, 2, num_quad2, \<dots>)\<close> in \<^verbatim>\<open>process_args\<close>: two rows of
  \<^verbatim>\<open>num_quadrature * num_quadrature\<close> entries.
\<close>

definition angles_allocated :: "atom_vec \<Rightarrow> bool" where
  "angles_allocated av \<longleftrightarrow>
     length (angles av) = 2
     \<and> length (angles av ! 0) = num_quadrature av * num_quadrature av
     \<and> length (angles av ! 1) = num_quadrature av * num_quadrature av"

text \<open>
  Invariant of the grid loops: the first \<open>n\<close> entries of both rows hold the angles of the
  grid points \<open>(c div Q, c mod Q)\<close>.
\<close>

definition ang_ok :: "real list \<Rightarrow> nat \<Rightarrow> nat \<Rightarrow> real list list \<Rightarrow> bool" where
  "ang_ok abscissa Q n ang \<longleftrightarrow>
     length ang = 2 \<and> length (ang ! 0) = Q * Q \<and> length (ang ! 1) = Q * Q
     \<and> (\<forall>c<n. ang ! 0 ! c = pi / 2 * (abscissa ! (c div Q) + 1)
              \<and> ang ! 1 ! c = pi * (abscissa ! (c mod Q) + 1))"

section \<open>Vectors, matrices and quaternions\<close>

text \<open>
  Modelled from the spec: \<^verbatim>\<open>math_extra.h\<close> and \<^verbatim>\<open>math_const.h\<close> are not among
  the sources. The vector helpers of \<^verbatim>\<open>MathExtra\<close> are the operations the spec writes
  as \<open>+\<close>, \<open>-\<close>, \<open>\<times>\<close> and \<open>|\<cdot>|\<close> (section 4.6), with the argument order of their
  call sites (\<^verbatim>\<open>sub3(a, b, ans)\<close> is \<open>ans = a - b\<close>, \<^verbatim>\<open>cross3(a, b, ans)\<close> is
  \<open>ans = a \<times> b\<close>, \<^verbatim>\<open>scale3(s, v)\<close> multiplies \<open>v\<close> by \<open>s\<close>); \<^verbatim>\<open>MY_PI\<close> and
  \<^verbatim>\<open>MY_2PI\<close> are \<open>\<pi>\<close> and \<open>2\<pi>\<close>. A \<^verbatim>\<open>double[3]\<close> is a triple, a
  \<^verbatim>\<open>double[3][3]\<close> a triple of rows, a quaternion a quadruple.
\<close>

type_synonym vec3 = "real \<times> real \<times> real"
type_synonym mat3 = "vec3 \<times> vec3 \<times> vec3"
type_synonym quat = "real \<times> real \<times> real \<times> real"

fun v_0 :: "vec3 \<Rightarrow> real" where "v_0 (a, b, c) = a"
fun v_1 :: "vec3 \<Rightarrow> real" where "v_1 (a, b, c) = b"
fun v_2 :: "vec3 \<Rightarrow> real" where "v_2 (a, b, c) = c"

definition zero3 :: vec3 where
  "zero3 = (0, 0, 0)"

fun add3 :: "vec3 \<Rightarrow> vec3 \<Rightarrow> vec3" where
  "add3 (a0, a1, a2) (b0, b1, b2) = (a0 + b0, a1 + b1, a2 + b2)"

fun sub3 :: "vec3 \<Rightarrow> vec3 \<Rightarrow> vec3" where
  "sub3 (a0, a1, a2) (b0, b1, b2) = (a0 - b0, a1 - b1, a2 - b2)"

fun negate3 :: "vec3 \<Rightarrow> vec3" where
  "negate3 (a0, a1, a2) = (- a0, - a1, - a2)"

fun scale3 :: "real \<Rightarrow> vec3 \<Rightarrow> vec3" where
  "scale3 s (a0, a1, a2) = (s * a0, s * a1, s * a2)"

fun dot3 :: "vec3 \<Rightarrow> vec3 \<Rightarrow> real" where
  "dot3 (a0, a1, a2) (b0, b1, b2) = a0 * b0 + a1 * b1 + a2 * b2"

fun cross3 :: "vec3 \<Rightarrow> vec3 \<Rightarrow> vec3" where
  "cross3 (a0, a1, a2) (b0, b1, b2) = (a1 * b2 - a2 * b1, a2 * b0 - a0 * b2, a0 * b1 - a1 * b0)"

fun lensq3 :: "vec3 \<Rightarrow> real" where
  "lensq3 (a0, a1, a2) = a0 * a0 + a1 * a1 + a2 * a2"

definition len3 :: "vec3 \<Rightarrow> real" where
  "len3 v = sqrt (lensq3 v)"

fun matvec :: "mat3 \<Rightarrow> vec3 \<Rightarrow> vec3" where
  "matvec (r0, r1, r2) v = (dot3 r0 v, dot3 r1 v, dot3 r2 v)"

fun transpose_matvec :: "mat3 \<Rightarrow> vec3 \<Rightarrow> vec3" where
  "transpose_matvec ((m00, m01, m02), (m10, m11, m12), (m20, m21, m22)) (b0, b1, b2) =
     (m00 * b0 + m10 * b1 + m20 * b2, m01 * b0 + m11 * b1 + m21 * b2,
      m02 * b0 + m12 * b1 + m22 * b2)"

text \<open>
  The quaternion helpers of \<^verbatim>\<open>MathExtra\<close> (\<^verbatim>\<open>quat_to_mat\<close>, \<^verbatim>\<open>quatquat\<close>,
  \<^verbatim>\<open>qnormalize\<close>, \<^verbatim>\<open>qconjugate\<close>) are parameters of the model.
\<close>

record math_extra =
  quat_to_mat :: "quat \<Rightarrow> mat3"
  quatquat :: "quat \<Rightarrow> quat \<Rightarrow> quat"
  qnormalize :: "quat \<Rightarrow> quat"
  qconjugate :: "quat \<Rightarrow> quat"

text \<open>\<^verbatim>\<open>std::atan2(y, x)\<close>, and the shift \<^verbatim>\<open>phi > 0.0 ? phi : MY_2PI + phi\<close> that follows it.\<close>

definition atan2 :: "real \<Rightarrow> real \<Rightarrow> real" where
  "atan2 y x =
     (if 0 < x then arctan (y / x)
      else if x < 0 then (if 0 \<le> y then arctan (y / x) + pi else arctan (y / x) - pi)
      else if 0 < y then pi / 2
      else if y < 0 then - (pi / 2)
      else 0)"

definition azimuth :: "real \<Rightarrow> real \<Rightarrow> real" where
  "azimuth y x = (let phi = atan2 y x in if phi > 0 then phi else 2 * pi + phi)"

section \<open>The pair style: \<^verbatim>\<open>PairSH\<close>\<close>

text \<open>
  The members of \<^verbatim>\<open>PairSH\<close> that the force computation reads, with
  \<^verbatim>\<open>force->newton_pair\<close>; \<^verbatim>\<open>normal_coeffs i j\<close> stands for
  \<^verbatim>\<open>normal_coeffs[i][j][0]\<close>. The constructor sets \<^verbatim>\<open>num_pole_quad = 30\<close> and
  \<^verbatim>\<open>radius_tol = 1e-3\<close>.
\<close>

record pair_sh =
  num_pole_quad :: nat
  radius_tol :: real
  abscissa :: "real list"
  pair_weights :: "real list"
  exponent :: real
  normal_coeffs :: "nat \<Rightarrow> nat \<Rightarrow> real"
  newton_pair :: bool

text \<open>
  A torque can stop being a finite number (see \<open>n3l_block\<close> below); \<open>NotFinite\<close> stands
  for a vector whose components are NaN.
\<close>

datatype fp3 = Finite vec3 | NotFinite

fun fp_add3 :: "fp3 \<Rightarrow> vec3 \<Rightarrow> fp3" where
  "fp_add3 (Finite a) b = Finite (add3 a b)"
| "fp_add3 NotFinite b = NotFinite"

text \<open>The per-atom arrays of \<^verbatim>\<open>atom\<close> that \<^verbatim>\<open>compute\<close> reads and writes.\<close>

record atoms =
  atom_x :: "vec3 list"
  atom_f :: "vec3 list"
  atom_torque :: "fp3 list"
  atom_type :: "nat list"
  atom_shtype :: "nat list"
  atom_quat :: "quat list"
  nlocal :: nat

text \<open>
  The ways a pair evaluation ends without returning normally: \<^verbatim>\<open>error->all\<close> with
  "Error, centre within radius!" stops the run; a read of \<^verbatim>\<open>abscissa[k]\<close> with \<open>k\<close>
  outside \<open>0, \<dots>, num_pole_quad - 1\<close> is outside the array that
  \<^verbatim>\<open>PairSH::get_quadrature_values\<close> allocates.
\<close>

datatype fault = CenterInsideOther | AbscissaOverrun int

text \<open>\<^verbatim>\<open>PairSH::get_contact_quat\<close>.\<close>

definition get_contact_quat :: "math_extra \<Rightarrow> vec3 \<Rightarrow> quat" where
  "get_contact_quat MX xvecdist =
     (let vert_unit_vec = (0, 0, 1.0);
          c = dot3 vert_unit_vec xvecdist;
          cross_vec = cross3 vert_unit_vec xvecdist
      in qnormalize MX
           (sqrt (lensq3 vert_unit_vec * lensq3 xvecdist) + c,
            v_0 cross_vec, v_1 cross_vec, v_2 cross_vec))"

text \<open>
  \<^verbatim>\<open>PairSH::get_quadrature_values\<close>: both arrays get \<^verbatim>\<open>num_quadrature\<close> entries.
\<close>

definition pair_get_quadrature_values :: "(nat \<Rightarrow> nat \<Rightarrow> QuadPair) \<Rightarrow> pair_sh \<Rightarrow> pair_sh" where
  "pair_get_quadrature_values GLPair ps =
     (let Q = num_pole_quad ps;
          (ws, xs) = fold (gqv_node GLPair Q) [0 ..< Q] (replicate Q 0, replicate Q 0)
      in ps\<lparr>pair_weights := ws, abscissa := xs\<rparr>)"

subsection \<open>\<^verbatim>\<open>PairSH::refine_cap_angle\<close>\<close>

text \<open>
  The body of the loop over \<^verbatim>\<open>ll\<close> for one ring: \<open>True\<close> when the body reaches
  \<^verbatim>\<open>check_contact\<close> and that returns non-zero, \<open>False\<close> when it takes the
  \<^verbatim>\<open>continue\<close> or the test fails. \<open>n\<close> is \<^verbatim>\<open>2*(num_pole_quad-1)\<close>.
\<close>

definition rca_point :: "legendre \<Rightarrow> atom_vec \<Rightarrow> nat \<Rightarrow> nat \<Rightarrow> nat \<Rightarrow> real \<Rightarrow> mat3 \<Rightarrow> mat3
    \<Rightarrow> vec3 \<Rightarrow> vec3 \<Rightarrow> mat3 \<Rightarrow> real \<Rightarrow> nat \<Rightarrow> bool" where
  "rca_point K av n ishtype jshtype radj rot_np_bf rot_np_sf xi xj jrot theta_pole ll =
     (let phi_pole = 2 * pi * (real ll - 1) / real (n + 1);
          gp = (sin theta_pole * cos phi_pole, sin theta_pole * sin phi_pole, cos theta_pole);
          gp_bf = matvec rot_np_bf gp;
          phi_b = azimuth (v_1 gp_bf) (v_0 gp_bf);
          theta_b = arccos (v_2 gp_bf);
          rad_body = get_shape_radius K av ishtype theta_b phi_b;
          gp_sf = matvec rot_np_sf gp;
          phi = azimuth (v_1 gp_sf) (v_0 gp_sf);
          theta = arccos (v_2 gp_sf);
          ix_sf = (rad_body * sin theta * cos phi + v_0 xi,
                   rad_body * sin theta * sin phi + v_1 xi,
                   rad_body * cos theta + v_2 xi);
          x_testpoint = sub3 ix_sf xj;
          dtemp = len3 x_testpoint
      in if dtemp > radj then False
         else
           (let x_projtestpoint = transpose_matvec jrot x_testpoint;
                phi_proj = azimuth (v_1 x_projtestpoint) (v_0 x_projtestpoint);
                theta_proj = arccos (v_2 x_projtestpoint / dtemp)
            in fst (check_contact K av jshtype phi_proj theta_proj dtemp 0) \<noteq> 0))"

text \<open>The angle of ring \<open>kk\<close> inside a cap of half-angle \<open>arccos cosang\<close>.\<close>

definition ring_angle :: "pair_sh \<Rightarrow> real \<Rightarrow> nat \<Rightarrow> real" where
  "ring_angle ps cosang kk =
     arccos (abscissa ps ! kk * ((1.0 - cosang) / 2.0) + ((1.0 + cosang) / 2.0))"

text \<open>
  The two loops: rings from \<^verbatim>\<open>num_pole_quad-1\<close> down to \<open>0\<close>, azimuth index from \<open>1\<close>
  to \<^verbatim>\<open>n+1\<close>, leaving at the first contact with \<^verbatim>\<open>kk_count = kk+1\<close> and result
  \<open>1\<close>; without contact \<^verbatim>\<open>kk_count\<close> keeps its value and the result is \<open>0\<close>.
\<close>

definition refine_cap_angle :: "math_extra \<Rightarrow> legendre \<Rightarrow> atom_vec \<Rightarrow> pair_sh \<Rightarrow> int \<Rightarrow> nat \<Rightarrow> nat
    \<Rightarrow> real \<Rightarrow> real \<Rightarrow> quat \<Rightarrow> quat \<Rightarrow> vec3 \<Rightarrow> vec3 \<Rightarrow> mat3 \<Rightarrow> int \<times> int" where
  "refine_cap_angle MX K av ps kk_count ishtype jshtype iang radj iquat_cont iquat_sf_bf xi xj jrot =
     (let rot_np_sf = quat_to_mat MX iquat_cont;
          quat = qnormalize MX (quatquat MX iquat_sf_bf iquat_cont);
          rot_np_bf = quat_to_mat MX quat;
          n = 2 * (num_pole_quad ps - 1);
          cosang = cos iang
      in case find (\<lambda>kk. list_ex
                      (rca_point K av n ishtype jshtype radj rot_np_bf rot_np_sf xi xj jrot
                         (ring_angle ps cosang kk))
                      [1 ..< n + 2])
                (rev [0 ..< num_pole_quad ps]) of
           Some kk \<Rightarrow> (int kk + 1, 1)
         | None \<Rightarrow> (kk_count, 0))"

subsection \<open>\<^verbatim>\<open>PairSH::calc_force_torque\<close>\<close>

text \<open>
  The test inside the bisection loop for a sampled radius along the ray
  \<open>(theta_sf, phi_sf)\<close> from \<open>xi\<close>: \<open>True\<close> on the branch that lowers the upper bound
  (the point is within \<^verbatim>\<open>radj\<close> of \<open>xj\<close> and \<^verbatim>\<open>check_contact\<close> is non-zero),
  \<open>False\<close> on the two branches that raise the lower bound.
\<close>

definition bisect_inside :: "legendre \<Rightarrow> atom_vec \<Rightarrow> nat \<Rightarrow> real \<Rightarrow> real \<Rightarrow> real \<Rightarrow> vec3 \<Rightarrow> vec3
    \<Rightarrow> mat3 \<Rightarrow> real \<Rightarrow> bool" where
  "bisect_inside K av jshtype radj theta_sf phi_sf xi xj jrot rad_sample =
     (let jx_sf = (rad_sample * sin theta_sf * cos phi_sf + v_0 xi,
                   rad_sample * sin theta_sf * sin phi_sf + v_1 xi,
                   rad_sample * cos theta_sf + v_2 xi);
          x_testpoint = sub3 jx_sf xj;
          dtemp = len3 x_testpoint
      in if dtemp > radj then False
         else
           (let x_projtestpoint = transpose_matvec jrot x_testpoint;
                phi_proj = azimuth (v_1 x_projtestpoint) (v_0 x_projtestpoint);
                theta_proj = arccos (v_2 x_projtestpoint / dtemp)
            in fst (check_contact K av jshtype phi_proj theta_proj dtemp 0) \<noteq> 0))"

text \<open>
  The loop \<^verbatim>\<open>while (upper_bound - lower_bound > radtol)\<close>. It need not end (with
  \<^verbatim>\<open>radtol\<close> not positive the gap of two reals never gets there), so the result is
  optional: \<open>None\<close> is a loop that runs forever. The last argument counts the passes; the
  source has no such counter. The result is the final \<^verbatim>\<open>rad_sample\<close>, the final gap
  \<^verbatim>\<open>upper_bound - lower_bound\<close> and the number of passes. The bounds are reals, so
  \<open>(upper_bound + lower_bound) / 2\<close> is the exact midpoint; the doubles of the source round
  it, and neither the gap nor the number of passes of the source is what this function
  returns when a rounding falls next to \<^verbatim>\<open>radtol\<close>.
\<close>

partial_function (option) bisect :: "legendre \<Rightarrow> atom_vec \<Rightarrow> nat \<Rightarrow> real \<Rightarrow> real \<Rightarrow> real \<Rightarrow> vec3
    \<Rightarrow> vec3 \<Rightarrow> mat3 \<Rightarrow> real \<Rightarrow> real \<Rightarrow> real \<Rightarrow> real \<Rightarrow> nat \<Rightarrow> (real \<times> real \<times> nat) option" where
  "bisect K av jshtype radj theta_sf phi_sf xi xj jrot radtol upper_bound lower_bound rad_sample
      passes =
     (if upper_bound - lower_bound > radtol then
        (if bisect_inside K av jshtype radj theta_sf phi_sf xi xj jrot rad_sample
         then bisect K av jshtype radj theta_sf phi_sf xi xj jrot radtol
                rad_sample lower_bound ((rad_sample + lower_bound) / 2.0) (passes + 1)
         else bisect K av jshtype radj theta_sf phi_sf xi xj jrot radtol
                upper_bound rad_sample ((upper_bound + rad_sample) / 2.0) (passes + 1))
      else Some (rad_sample, upper_bound - lower_bound, passes))"

text \<open>
  The sums that \<^verbatim>\<open>calc_force_torque\<close> accumulates in its reference parameters
  \<^verbatim>\<open>vol_overlap\<close>, \<^verbatim>\<open>iforce\<close> and \<^verbatim>\<open>torsum\<close>.
\<close>

record cft_acc =
  acc_vol :: real
  acc_iforce :: vec3
  acc_torsum :: vec3

text \<open>
  The body of the loop over \<^verbatim>\<open>ll\<close> of \<^verbatim>\<open>calc_force_torque\<close>; \<open>None\<close> when the
  bisection does not end. \<^verbatim>\<open>get_shape_radius_and_normal\<close> is the parameter
  \<open>radius_and_normal\<close>, which returns the radius and the normal \<^verbatim>\<open>rnorm\<close>.
\<close>

definition cft_point :: "legendre \<Rightarrow> atom_vec \<Rightarrow> pair_sh \<Rightarrow> (nat \<Rightarrow> real \<Rightarrow> real \<Rightarrow> real \<times> vec3)
    \<Rightarrow> nat \<Rightarrow> nat \<Rightarrow> nat \<Rightarrow> real \<Rightarrow> real \<Rightarrow> mat3 \<Rightarrow> mat3 \<Rightarrow> vec3 \<Rightarrow> vec3 \<Rightarrow> mat3 \<Rightarrow> mat3
    \<Rightarrow> real \<Rightarrow> nat \<Rightarrow> nat \<Rightarrow> cft_acc \<Rightarrow> cft_acc option" where
  "cft_point K av ps radius_and_normal n ishtype jshtype radj radtol rot_np_bf rot_np_sf xi xj
      irot jrot theta_pole kk ll acc =
     (let phi_pole = 2 * pi * (real ll - 1) / real (n + 1);
          gp = (sin theta_pole * cos phi_pole, sin theta_pole * sin phi_pole, cos theta_pole);
          gp_sf = matvec rot_np_sf gp;
          phi_sf = azimuth (v_1 gp_sf) (v_0 gp_sf);
          theta_sf = arccos (v_2 gp_sf);
          gp_bf = matvec rot_np_bf gp;
          phi_bf = azimuth (v_1 gp_bf) (v_0 gp_bf);
          theta_bf = arccos (v_2 gp_bf);
          (rad_body, inorm_bf) = radius_and_normal ishtype theta_bf phi_bf;
          ix_sf = (rad_body * sin theta_sf * cos phi_sf + v_0 xi,
                   rad_body * sin theta_sf * sin phi_sf + v_1 xi,
                   rad_body * cos theta_sf + v_2 xi);
          x_testpoint = sub3 ix_sf xj;
          dtemp = len3 x_testpoint
      in if dtemp > radj then Some acc
         else
           (let x_projtestpoint = transpose_matvec jrot x_testpoint;
                phi_proj = azimuth (v_1 x_projtestpoint) (v_0 x_projtestpoint);
                theta_proj = arccos (v_2 x_projtestpoint / dtemp)
            in if fst (check_contact K av jshtype phi_proj theta_proj dtemp 0) \<noteq> 0 then
                 (case bisect K av jshtype radj theta_sf phi_sf xi xj jrot radtol
                         rad_body 0.0 ((rad_body + 0.0) / 2.0) 0 of
                    None \<Rightarrow> None
                  | Some (rad_sample, gap, passes) \<Rightarrow>
                      (let dv = pair_weights ps ! kk * (rad_body ^ 3 - rad_sample ^ 3);
                           inorm_w = scale3 (pair_weights ps ! kk / sin theta_bf) inorm_bf;
                           inorm_sf = matvec irot inorm_w;
                           dtor = cross3 (sub3 ix_sf xi) inorm_sf
                       in Some \<lparr>acc_vol = acc_vol acc + dv,
                                acc_iforce = add3 (acc_iforce acc) inorm_sf,
                                acc_torsum = add3 (acc_torsum acc) dtor\<rparr>))
               else Some acc))"

text \<open>A loop whose body may fail to return.\<close>

fun loop_opt :: "('a \<Rightarrow> 's \<Rightarrow> 's option) \<Rightarrow> 'a list \<Rightarrow> 's \<Rightarrow> 's option" where
  "loop_opt body [] s = Some s"
| "loop_opt body (a # as) s = (case body a s of None \<Rightarrow> None | Some s' \<Rightarrow> loop_opt body as s')"

text \<open>
  \<^verbatim>\<open>calc_force_torque\<close>. The first statement that uses \<^verbatim>\<open>kk_count\<close> reads
  \<^verbatim>\<open>abscissa[kk_count]\<close>; the array has \<^verbatim>\<open>num_pole_quad\<close> entries, and a read
  outside it is the fault \<open>AbscissaOverrun\<close>. The outer \<open>option\<close> is \<open>None\<close> when a
  bisection does not end.
\<close>

definition calc_force_torque :: "math_extra \<Rightarrow> legendre \<Rightarrow> atom_vec \<Rightarrow> pair_sh
    \<Rightarrow> (nat \<Rightarrow> real \<Rightarrow> real \<Rightarrow> real \<times> vec3) \<Rightarrow> int \<Rightarrow> nat \<Rightarrow> nat \<Rightarrow> real \<Rightarrow> real \<Rightarrow> real
    \<Rightarrow> quat \<Rightarrow> quat \<Rightarrow> vec3 \<Rightarrow> vec3 \<Rightarrow> mat3 \<Rightarrow> mat3 \<Rightarrow> cft_acc \<Rightarrow> (fault + cft_acc) option" where
  "calc_force_torque MX K av ps radius_and_normal kk_count ishtype jshtype iang radi radj
      iquat_cont iquat_sf_bf xi xj irot jrot acc =
     (let rot_np_sf = quat_to_mat MX iquat_cont;
          quat = qnormalize MX (quatquat MX iquat_sf_bf iquat_cont);
          rot_np_bf = quat_to_mat MX quat;
          radtol = radius_tol ps * radi;
          n = 2 * (num_pole_quad ps - 1);
          cosang = cos iang
      in if kk_count < 0 \<or> int (num_pole_quad ps) \<le> kk_count
         then Some (Inl (AbscissaOverrun kk_count))
         else
           (let iang' = ring_angle ps cosang (nat kk_count);
                cosang' = cos iang';
                fac = ((1.0 - cosang') / 2.0) * (2 * pi / real (n + 1))
            in case loop_opt
                      (\<lambda>kk. loop_opt
                         (cft_point K av ps radius_and_normal n ishtype jshtype radj radtol
                            rot_np_bf rot_np_sf xi xj irot jrot (ring_angle ps cosang' kk) kk)
                         [1 ..< n + 2])
                      (rev [0 ..< num_pole_quad ps]) acc of
                 None \<Rightarrow> None
               | Some a \<Rightarrow>
                   Some (Inr \<lparr>acc_vol = acc_vol a * (fac / 3.0),
                              acc_iforce = scale3 fac (acc_iforce a),
                              acc_torsum = scale3 fac (acc_torsum a)\<rparr>)))"

subsection \<open>\<^verbatim>\<open>PairSH::compute\<close>\<close>

text \<open>
  The block under \<^verbatim>\<open>if (force->newton_pair || j < nlocal)\<close>: from the force
  \<^verbatim>\<open>iforce\<close> and torque \<^verbatim>\<open>torsum\<close> on atom \<open>i\<close> to the new \<^verbatim>\<open>f[j]\<close> and
  \<^verbatim>\<open>torque[j]\<close>. The quotient \<^verbatim>\<open>-1.0 / (fn * fn)\<close> has no test in front of it. For
  \<open>fn * fn = 0\<close> it is infinite, \<^verbatim>\<open>xcont\<close> (the cross product with a zero force) is
  zero, their product is NaN in every component, and so is the torque that is added to
  \<^verbatim>\<open>torque[j]\<close>: that outcome is \<open>NotFinite\<close>.
\<close>

definition n3l_block :: "vec3 \<Rightarrow> vec3 \<Rightarrow> vec3 \<Rightarrow> vec3 \<Rightarrow> vec3 \<Rightarrow> fp3 \<Rightarrow> vec3 \<times> fp3" where
  "n3l_block iforce torsum xi xj fj torque_j =
     (let fj' = sub3 fj iforce;
          fn = len3 iforce;
          xcont = cross3 torsum iforce
      in if fn * fn = 0 then (fj', NotFinite)
         else
           (let xcont1 = scale3 (- 1.0 / (fn * fn)) xcont;
                xcont2 = add3 xcont1 xi;
                x_testpoint = sub3 xcont2 xj;
                torsum' = cross3 iforce x_testpoint
            in (fj', fp_add3 torque_j torsum')))"

text \<open>
  The values that the loop over \<^verbatim>\<open>ii\<close> fixes for atom \<open>i\<close> before its neighbours are
  visited.
\<close>

record atom_i =
  ai_index :: nat
  ai_type :: nat
  ai_shtype :: nat
  ai_radi :: real
  ai_irot :: mat3
  ai_iquat_sf_bf :: quat

text \<open>
  The body of the loop over \<^verbatim>\<open>jj\<close> for the neighbour \<open>j\<close> (already masked with
  \<^verbatim>\<open>NEIGHMASK\<close>). \<^verbatim>\<open>delvec\<close> is carried from one neighbour to the next: it is set
  to \<^verbatim>\<open>x[i]\<close> before the loop, and each pass overwrites it with
  \<^verbatim>\<open>delvec - x[j]\<close> (and negates it when the bounding spheres overlap). Under
  \<^verbatim>\<open>std::pow\<close> the overlap volume is taken to the power \<^verbatim>\<open>exponent - 1.0\<close>
  (\<open>powr\<close>). The calls of \<^verbatim>\<open>dump_ply\<close> write files and are left out.
\<close>

definition compute_pair :: "math_extra \<Rightarrow> legendre \<Rightarrow> atom_vec \<Rightarrow> pair_sh
    \<Rightarrow> (nat \<Rightarrow> real \<Rightarrow> real \<Rightarrow> real \<times> vec3) \<Rightarrow> atom_i \<Rightarrow> nat \<Rightarrow> vec3 \<times> atoms
    \<Rightarrow> (fault + vec3 \<times> atoms) option" where
  "compute_pair MX K av ps radius_and_normal ai j = (\<lambda>(delvec0, atm).
     (let i = ai_index ai;
          delvec = sub3 delvec0 (atom_x atm ! j);
          jshtype = atom_shtype atm ! j;
          radj = maxrad_byshape av ! jshtype;
          rsq = lensq3 delvec;
          r = sqrt rsq;
          jtype = atom_type atm ! j;
          kk_count0 = - 1;
          acc0 = \<lparr>acc_vol = 0.0, acc_iforce = zero3, acc_torsum = zero3\<rparr>
      in if r < ai_radi ai + radj then
           (if r > radj then
              (let iang = arcsin (radj / r);
                   delvec' = negate3 delvec;
                   iquat_cont = get_contact_quat MX delvec';
                   irot_cont = quat_to_mat MX iquat_cont;
                   jrot = quat_to_mat MX (atom_quat atm ! j);
                   (kk_count1, candidates_found) =
                      refine_cap_angle MX K av ps kk_count0 (ai_shtype ai) jshtype iang radj
                        iquat_cont (ai_iquat_sf_bf ai) (atom_x atm ! i) (atom_x atm ! j) jrot;
                   kk_count = (if kk_count1 > int (num_pole_quad ps)
                               then int (num_pole_quad ps) else kk_count1)
               in if candidates_found \<noteq> 0 then
                    (case calc_force_torque MX K av ps radius_and_normal kk_count (ai_shtype ai)
                            jshtype iang (ai_radi ai) radj iquat_cont (ai_iquat_sf_bf ai)
                            (atom_x atm ! i) (atom_x atm ! j) (ai_irot ai) jrot acc0 of
                       None \<Rightarrow> None
                     | Some (Inl e) \<Rightarrow> Some (Inl e)
                     | Some (Inr acc) \<Rightarrow>
                         (let fpair = normal_coeffs ps (ai_type ai) jtype;
                              pn = exponent ps * fpair * (acc_vol acc powr (exponent ps - 1.0));
                              iforce' = scale3 (- pn) (acc_iforce acc);
                              torsum' = scale3 (- pn) (acc_torsum acc);
                              atm1 = atm\<lparr>atom_f := (atom_f atm)[i := add3 (atom_f atm ! i) iforce'],
                                       atom_torque := (atom_torque atm)
                                          [i := fp_add3 (atom_torque atm ! i) torsum']\<rparr>;
                              atm2 = (if newton_pair ps \<or> j < nlocal atm1 then
                                       (let (fj, tj) = n3l_block iforce' torsum' (atom_x atm1 ! i)
                                                         (atom_x atm1 ! j) (atom_f atm1 ! j)
                                                         (atom_torque atm1 ! j)
                                        in atm1\<lparr>atom_f := (atom_f atm1)[j := fj],
                                               atom_torque := (atom_torque atm1)[j := tj]\<rparr>)
                                     else atm1)
                          in Some (Inr (delvec', atm2))))
                  else Some (Inr (delvec', atm)))
            else Some (Inl CenterInsideOther))
         else Some (Inr (delvec, atm))))"

text \<open>The loop over the neighbours \<^verbatim>\<open>jlist\<close> of one atom, left at the first fault.\<close>

fun compute_neighbours :: "math_extra \<Rightarrow> legendre \<Rightarrow> atom_vec \<Rightarrow> pair_sh
    \<Rightarrow> (nat \<Rightarrow> real \<Rightarrow> real \<Rightarrow> real \<times> vec3) \<Rightarrow> atom_i \<Rightarrow> nat list \<Rightarrow> vec3 \<times> atoms
    \<Rightarrow> (fault + vec3 \<times> atoms) option" where
  "compute_neighbours MX K av ps radius_and_normal ai [] s = Some (Inr s)"
| "compute_neighbours MX K av ps radius_and_normal ai (j # js) s =
     (case compute_pair MX K av ps radius_and_normal ai j s of
        None \<Rightarrow> None
      | Some (Inl e) \<Rightarrow> Some (Inl e)
      | Some (Inr s') \<Rightarrow> compute_neighbours MX K av ps radius_and_normal ai js s')"

text \<open>
  The body of the loop over \<^verbatim>\<open>ii\<close>: atom \<open>i\<close> with its neighbour list, starting
  \<^verbatim>\<open>delvec\<close> at \<^verbatim>\<open>x[i]\<close>.
\<close>

definition compute_atom :: "math_extra \<Rightarrow> legendre \<Rightarrow> atom_vec \<Rightarrow> pair_sh
    \<Rightarrow> (nat \<Rightarrow> real \<Rightarrow> real \<Rightarrow> real \<times> vec3) \<Rightarrow> nat \<Rightarrow> nat list \<Rightarrow> atoms \<Rightarrow> (fault + atoms) option" where
  "compute_atom MX K av ps radius_and_normal i jlist atm =
     (let ishtype = atom_shtype atm ! i;
          iq = qnormalize MX (qconjugate MX (atom_quat atm ! i));
          ai = \<lparr>ai_index = i, ai_type = atom_type atm ! i, ai_shtype = ishtype,
                ai_radi = maxrad_byshape av ! ishtype,
                ai_irot = quat_to_mat MX (atom_quat atm ! i), ai_iquat_sf_bf = iq\<rparr>
      in case compute_neighbours MX K av ps radius_and_normal ai jlist (atom_x atm ! i, atm) of
           None \<Rightarrow> None
         | Some (Inl e) \<Rightarrow> Some (Inl e)
         | Some (Inr (delvec, atm')) \<Rightarrow> Some (Inr atm'))"

fun compute :: "math_extra \<Rightarrow> legendre \<Rightarrow> atom_vec \<Rightarrow> pair_sh
    \<Rightarrow> (nat \<Rightarrow> real \<Rightarrow> real \<Rightarrow> real \<times> vec3) \<Rightarrow> (nat \<times> nat list) list \<Rightarrow> atoms
    \<Rightarrow> (fault + atoms) option" where
  "compute MX K av ps radius_and_normal [] atm = Some (Inr atm)"
| "compute MX K av ps radius_and_normal ((i, jlist) # rest) atm =
     (case compute_atom MX K av ps radius_and_normal i jlist atm of
        None \<Rightarrow> None
      | Some (Inl e) \<Rightarrow> Some (Inl e)
      | Some (Inr atm') \<Rightarrow> compute MX K av ps radius_and_normal rest atm')"

section \<open>Rotation of coefficients: \<^verbatim>\<open>AtomVecSpherharm::doRotate\<close>\<close>

text \<open>
  \<^verbatim>\<open>factorial\<close> (of \<^verbatim>\<open>MathSpherharm\<close>) and \<^verbatim>\<open>getIndex\<close> (of the class header)
  are not among the sources and are parameters. The routine has a \<^verbatim>\<open>void\<close> result
  and writes \<^verbatim>\<open>coeffout\<close>; the model returns the written array on the right of a sum
  whose left side is the error of the spec, so that what the routine does for an angle can
  be compared with what the spec says it does.
\<close>

datatype rot_fault = RotationDegenerate

definition upd3 :: "'a list list list \<Rightarrow> nat \<Rightarrow> nat \<Rightarrow> nat \<Rightarrow> 'a \<Rightarrow> 'a list list list" where
  "upd3 t a b c v = t[a := (t ! a)[b := (t ! a ! b)[c := v]]]"

text \<open>
  The half-angle cosine and sine with the two nudges
  \<^verbatim>\<open>if (cosbeta == 0.0) { beta += 1.0e-10; cosbeta = cos(beta/2.0); }\<close> and the same for
  the sine. No other statement of the routine looks at the range of \<^verbatim>\<open>beta\<close>.
\<close>

definition dr_half_angles :: "real \<Rightarrow> real \<times> real" where
  "dr_half_angles beta =
     (let cosbeta = cos (beta / 2.0);
          sinbeta = sin (beta / 2.0);
          (beta1, cosbeta1) = (if cosbeta = 0.0
                               then (beta + 1 / 10 ^ 10, cos ((beta + 1 / 10 ^ 10) / 2.0))
                               else (beta, cosbeta));
          sinbeta1 = (if sinbeta = 0.0 then sin ((beta1 + 1 / 10 ^ 10) / 2.0) else sinbeta)
      in (cosbeta1, sinbeta1))"

text \<open>The seed of the recursion: the closed form for the degrees \<open>0\<close> and \<open>1\<close>.\<close>

definition dr_seed_entry :: "(int \<Rightarrow> real) \<Rightarrow> real \<Rightarrow> real \<Rightarrow> int \<Rightarrow> int \<Rightarrow> int \<Rightarrow> real" where
  "dr_seed_entry factorial cosbeta sinbeta n m mp =
     (let realnum = sqrt (factorial (n + mp) * factorial (n - mp) / factorial (n + m)
                            / factorial (n - m));
          klow = max 0 (m - mp);
          khigh = min (n - mp) (n + m);
          total = fold (\<lambda>k total.
                    (let abc0 = (- 1.0) ^ nat (k + mp - m);
                         abc1 = abc0 * (factorial (n + m) / factorial k / factorial (n + m - k));
                         abc2 = abc1 * (factorial (n - m) / factorial (n - mp - k)
                                          / factorial (mp + k - m))
                     in total + abc2 * cosbeta ^ nat (2 * n + m - mp - 2 * k)
                                     * sinbeta ^ nat (2 * k + mp - m)))
                    [klow .. khigh] 0.0
      in total * realnum)"

definition dr_seed :: "(int \<Rightarrow> real) \<Rightarrow> (int \<Rightarrow> int \<Rightarrow> nat) \<Rightarrow> real \<Rightarrow> real
    \<Rightarrow> real list list list \<Rightarrow> real list list list" where
  "dr_seed factorial getIndex cosbeta sinbeta dterm =
     fold (\<lambda>n. fold (\<lambda>m. fold (\<lambda>mp d.
             upd3 d (nat n) (getIndex n mp) (getIndex n m)
               (dr_seed_entry factorial cosbeta sinbeta n m mp))
           [- n .. n]) [- n .. n]) [0 .. 1] dterm"

text \<open>The recursion for \<open>n \<ge> 2\<close> with its three branches on \<^verbatim>\<open>mp\<close>.\<close>

definition dr_step_entry :: "(int \<Rightarrow> int \<Rightarrow> nat) \<Rightarrow> real \<Rightarrow> real \<Rightarrow> real \<Rightarrow> real
    \<Rightarrow> real list list list \<Rightarrow> int \<Rightarrow> int \<Rightarrow> int \<Rightarrow> real" where
  "dr_step_entry getIndex ss cc sc cms dterm n m mp =
     (let rn = real_of_int n;
          rm = real_of_int m;
          rmp = real_of_int mp;
          D = (\<lambda>a b. dterm ! nat (n - 1) ! getIndex (n - 1) a ! getIndex (n - 1) b)
      in if mp > - n \<and> mp < n then
           (let a = cms * sqrt ((rn + rm) * (rn - rm) / (rn + rmp) / (rn - rmp));
                b = sc * sqrt ((rn + rm) * (rn + rm - 1.0) / (rn + rmp) / (rn - rmp));
                nb = - (sc * sqrt ((rn - rm) * (rn - rm - 1.0) / (rn + rmp) / (rn - rmp)))
            in 0.0 + a * D mp m + b * D mp (m - 1) + nb * D mp (m + 1))
         else if mp = - n then
           (let c = 2.0 * sc * sqrt ((rn + rm) * (rn - rm) / (rn - rmp) / (rn - rmp - 1.0));
                d = ss * sqrt ((rn + rm) * (rn + rm - 1.0) / (rn - rmp) / (rn - rmp - 1.0));
                nd = cc * sqrt ((rn - rm) * (rn - rm - 1.0) / (rn - rmp) / (rn - rmp - 1.0))
            in 0.0 + c * D (mp + 1) m + d * D (mp + 1) (m - 1) + nd * D (mp + 1) (m + 1))
         else
           (let c = - (2.0 * sc * sqrt ((rn + rm) * (rn - rm) / (rn + rmp) / (rn + rmp - 1.0)));
                d = cc * sqrt ((rn + rm) * (rn + rm - 1.0) / (rn + rmp) / (rn + rmp - 1.0));
                nd = ss * sqrt ((rn - rm) * (rn - rm - 1.0) / (rn + rmp) / (rn + rmp - 1.0))
            in 0.0 + c * D (mp - 1) m + d * D (mp - 1) (m - 1) + nd * D (mp - 1) (m + 1)))"

definition dr_steps :: "(int \<Rightarrow> int \<Rightarrow> nat) \<Rightarrow> nat \<Rightarrow> real \<Rightarrow> real
    \<Rightarrow> real list list list \<Rightarrow> real list list list" where
  "dr_steps getIndex N cosbeta sinbeta dterm =
     (let ss = sinbeta * sinbeta;
          cc = cosbeta * cosbeta;
          sc = sinbeta * cosbeta;
          cms = cosbeta * cosbeta - sinbeta * sinbeta
      in fold (\<lambda>n. fold (\<lambda>m. fold (\<lambda>mp d.
                upd3 d (nat n) (getIndex n mp) (getIndex n m)
                  (dr_step_entry getIndex ss cc sc cms d n m mp))
              [- n .. n]) [- n .. n]) [2 .. int N] dterm)"

text \<open>The sums \<^verbatim>\<open>aa[n][m+n][0 or 1]\<close> of the rotated coefficients.\<close>

definition dr_sum_entry :: "(int \<Rightarrow> int \<Rightarrow> nat) \<Rightarrow> real list list list \<Rightarrow> real list \<Rightarrow> real \<Rightarrow> real
    \<Rightarrow> int \<Rightarrow> int \<Rightarrow> int \<Rightarrow> complex" where
  "dr_sum_entry getIndex dterm coeffin alpha gamma n m mp =
     (let loc = (n + 1) * (n + 2) - 2;
          total = dterm ! nat n ! getIndex n mp ! getIndex n m;
          ddd = Complex total 0.0;
          aarg = Complex 0.0 (real_of_int mp * alpha);
          garg = Complex 0.0 (real_of_int mp * gamma);
          mloc = nat (loc - 2 * \<bar>mp\<bar>);
          anm0 = Complex (coeffin ! mloc) (coeffin ! (mloc + 1));
          anm = (if mp < 0 then of_real ((- 1.0) ^ nat \<bar>mp\<bar>) * cnj anm0 else anm0)
      in exp garg * (ddd * (exp aarg * anm)))"

definition dr_sums :: "(int \<Rightarrow> int \<Rightarrow> nat) \<Rightarrow> nat \<Rightarrow> real list list list \<Rightarrow> real list \<Rightarrow> real
    \<Rightarrow> real \<Rightarrow> real list list list \<Rightarrow> real list list list" where
  "dr_sums getIndex N dterm coeffin alpha gamma aa =
     fold (\<lambda>n. fold (\<lambda>m. fold (\<lambda>mp a.
             (let icmplx = dr_sum_entry getIndex dterm coeffin alpha gamma n m mp;
                  a1 = upd3 a (nat n) (nat (m + n)) 0 (a ! nat n ! nat (m + n) ! 0 + Re icmplx)
              in upd3 a1 (nat n) (nat (m + n)) 1 (a1 ! nat n ! nat (m + n) ! 1 + Im icmplx)))
           [- n .. n]) [- n .. n]) [0 .. int N] aa"

text \<open>
  The last loops: \<^verbatim>\<open>coeffout[loc] = aa[n][m+n][0]; coeffout[loc+1] = aa[n][m+n][1];\<close>
  for \<open>m\<close> from \<open>n\<close> down to \<open>0\<close>, with \<^verbatim>\<open>loc\<close> running up from \<open>n (n + 1)\<close>.
\<close>

definition dr_store_m :: "real list list list \<Rightarrow> nat \<Rightarrow> nat \<Rightarrow> real list \<times> nat \<Rightarrow> real list \<times> nat" where
  "dr_store_m aa n m = (\<lambda>(out, loc).
     (out[loc := aa ! n ! (m + n) ! 0, loc + 1 := aa ! n ! (m + n) ! 1], loc + 2))"

definition dr_store_n :: "real list list list \<Rightarrow> nat \<Rightarrow> real list \<Rightarrow> real list" where
  "dr_store_n aa n out = fst (fold (dr_store_m aa n) (rev [0 ..< n + 1]) (out, n * (n + 1)))"

definition dr_store :: "nat \<Rightarrow> real list list list \<Rightarrow> real list \<Rightarrow> real list" where
  "dr_store N aa coeffout = fold (dr_store_n aa) [0 ..< N + 1] coeffout"

definition doRotate :: "(int \<Rightarrow> real) \<Rightarrow> (int \<Rightarrow> int \<Rightarrow> nat) \<Rightarrow> atom_vec \<Rightarrow> nat \<Rightarrow> real list
    \<Rightarrow> real list \<Rightarrow> real \<Rightarrow> real \<Rightarrow> real \<Rightarrow> rot_fault + real list" where
  "doRotate factorial getIndex av sht coeffin coeffout alpha beta gamma =
     (let N = maxshexpan av;
          aa0 = replicate (N + 1) (replicate (2 * N + 1) (replicate 2 0.0));
          (cosbeta, sinbeta) = dr_half_angles beta;
          dterm0 = replicate (N + 1) (replicate (2 * (N + 1)) (replicate (2 * (N + 1)) 0.0));
          dterm1 = dr_seed factorial getIndex cosbeta sinbeta dterm0;
          dterm2 = dr_steps getIndex N cosbeta sinbeta dterm1;
          aa = dr_sums getIndex N dterm2 coeffin alpha gamma aa0
      in Inr (dr_store N aa coeffout))"

text \<open>
  The first ring that \<^verbatim>\<open>refine_cap_angle\<close> scans, \<^verbatim>\<open>kk = num_pole_quad-1\<close>, has a
  node with contact.
\<close>

definition outer_ring_contact :: "math_extra \<Rightarrow> legendre \<Rightarrow> atom_vec \<Rightarrow> pair_sh \<Rightarrow> nat \<Rightarrow> nat
    \<Rightarrow> real \<Rightarrow> real \<Rightarrow> quat \<Rightarrow> quat \<Rightarrow> vec3 \<Rightarrow> vec3 \<Rightarrow> mat3 \<Rightarrow> bool" where
  "outer_ring_contact MX K av ps ishtype jshtype iang radj iquat_cont iquat_sf_bf xi xj jrot =
     (let rot_np_sf = quat_to_mat MX iquat_cont;
          quat = qnormalize MX (quatquat MX iquat_sf_bf iquat_cont);
          rot_np_bf = quat_to_mat MX quat;
          n = 2 * (num_pole_quad ps - 1);
          cosang = cos iang
      in list_ex
           (rca_point K av n ishtype jshtype radj rot_np_bf rot_np_sf xi xj jrot
              (ring_angle ps cosang (num_pole_quad ps - 1)))
           [1 ..< n + 2])"

text \<open>
  What the body of the loop over \<^verbatim>\<open>jj\<close> computes first for the neighbour \<open>j\<close>: the
  new \<^verbatim>\<open>delvec\<close>, the distance \<^verbatim>\<open>r\<close> and \<^verbatim>\<open>radj\<close>.
\<close>

definition pair_delvec :: "vec3 \<Rightarrow> atoms \<Rightarrow> nat \<Rightarrow> vec3" where
  "pair_delvec delvec0 atm j = sub3 delvec0 (atom_x atm ! j)"

definition pair_r :: "vec3 \<Rightarrow> atoms \<Rightarrow> nat \<Rightarrow> real" where
  "pair_r delvec0 atm j = sqrt (lensq3 (pair_delvec delvec0 atm j))"

definition pair_radj :: "atom_vec \<Rightarrow> atoms \<Rightarrow> nat \<Rightarrow> real" where
  "pair_radj av atm j = maxrad_byshape av ! (atom_shtype atm ! j)"

text \<open>
  A coefficient row of a sphere for the degree \<open>N\<close>: \<open>(N + 1) (N + 2)\<close> entries, all zero but
  the first.
\<close>

definition sphere_row :: "nat \<Rightarrow> real list \<Rightarrow> bool" where
  "sphere_row N cs \<longleftrightarrow> length cs = (N + 1) * (N + 2) \<and> (\<forall>i<length cs. 1 \<le> i \<longrightarrow> cs ! i = 0)"

section \<open>The radius of the specification\<close>

text \<open>
  The specification stores the coefficient \<open>a\<^sub>n\<^sub>m\<close> (\<open>0 \<le> m \<le> n\<close>) as the pair
  \<^verbatim>\<open>coeffs[loc]\<close>, \<^verbatim>\<open>coeffs[loc+1]\<close> (real and imaginary part) at
  \<open>loc(n, m) = n (n + 1) + 2 (n - m)\<close>.
\<close>

definition sh_loc :: "nat \<Rightarrow> nat \<Rightarrow> nat" where
  "sh_loc n m = n * (n + 1) + 2 * (n - m)"

text \<open>
  The radius in the words of the specification, for a family \<open>P n m\<close> of Legendre
  functions: the term of \<open>(n, m)\<close> is \<open>a\<^sub>n\<^sub>0 P\<^sub>n\<^sup>0(cos \<theta>)\<close> for \<open>m = 0\<close> and
  \<open>2 [Re a\<^sub>n\<^sub>m cos (m \<phi>) - Im a\<^sub>n\<^sub>m sin (m \<phi>)] P\<^sub>n\<^sup>m(cos \<theta>)\<close> for \<open>m > 0\<close>; the partial radius
  \<open>r\<^sub>N\<close> is the sum of the terms of all degrees \<open>n \<le> N\<close> and orders \<open>m \<le> n\<close>. These
  definitions do not look at the code; the loops of \<^verbatim>\<open>check_contact\<close> are compared with
  them below.
\<close>

definition spec_term :: "(nat \<Rightarrow> nat \<Rightarrow> real \<Rightarrow> real) \<Rightarrow> real list \<Rightarrow> real \<Rightarrow> real \<Rightarrow> nat \<Rightarrow> nat \<Rightarrow> real" where
  "spec_term P cs theta phi n m =
     (if m = 0 then cs ! sh_loc n 0 * P n 0 (cos theta)
      else 2 * (cs ! sh_loc n m * cos (real m * phi) - cs ! (sh_loc n m + 1) * sin (real m * phi))
             * P n m (cos theta))"

definition spec_degree :: "(nat \<Rightarrow> nat \<Rightarrow> real \<Rightarrow> real) \<Rightarrow> real list \<Rightarrow> real \<Rightarrow> real \<Rightarrow> nat \<Rightarrow> real" where
  "spec_degree P cs theta phi n = (\<Sum>m\<leftarrow>[0 ..< n + 1]. spec_term P cs theta phi n m)"

definition spec_partial_radius :: "(nat \<Rightarrow> nat \<Rightarrow> real \<Rightarrow> real) \<Rightarrow> real list \<Rightarrow> real \<Rightarrow> real \<Rightarrow> nat \<Rightarrow> real" where
  "spec_partial_radius P cs theta phi N = (\<Sum>n\<leftarrow>[0 ..< N + 1]. spec_degree P cs theta phi n)"

text \<open>
  What the radius loops rely on, at the argument \<open>x\<close> and up to the degree \<open>N\<close>: the code
  writes the degree-0 function as the constant \<^verbatim>\<open>std::sqrt(1.0 / (4.0 * MY_PI))\<close> and the
  function of order \<open>n - 1\<close> as \<^verbatim>\<open>x_val * std::sqrt((2.0 * ((double) n - 1.0)) + 3.0) * Pnm_nn\<close>;
  it calls \<^verbatim>\<open>plegendre\<close> for the degrees \<open>1\<close> and \<open>2\<close>, \<^verbatim>\<open>plegendre_nn\<close> with the
  previous diagonal value and \<^verbatim>\<open>plegendre_recycle\<close> with the values of the two previous
  degrees.
\<close>

definition legendre_contract :: "legendre \<Rightarrow> (nat \<Rightarrow> nat \<Rightarrow> real \<Rightarrow> real) \<Rightarrow> nat \<Rightarrow> real \<Rightarrow> bool" where
  "legendre_contract K P N x \<longleftrightarrow>
     P 0 0 x = sqrt (1 / (4 * pi))
   \<and> (\<forall>n\<in>{1 .. min 2 N}. \<forall>m\<in>{0 .. n}. plegendre K n m x = P n m x)
   \<and> (\<forall>n\<in>{3 .. N}.
         x * sqrt (2 * (real n - 1) + 3) * P (n - 1) (n - 1) x = P n (n - 1) x
       \<and> plegendre_nn K n x (P (n - 1) (n - 1) x) = P n n x
       \<and> (\<forall>m\<in>{0 .. n - 2}.
            plegendre_recycle K n m x (P (n - 1) m x) (P (n - 2) m x) = P n m x))"

text \<open>
  The rolling rows after the pass of degree \<open>n\<close>: pass \<open>1\<close> fills \<^verbatim>\<open>Pnm_m2\<close> with the
  degree-1 values; from pass \<open>2\<close> on \<^verbatim>\<open>Pnm_m1\<close> holds degree \<open>n\<close>, \<^verbatim>\<open>Pnm_m2\<close> degree
  \<open>n - 1\<close> and \<^verbatim>\<open>Pnm_nn\<close> the diagonal value.
\<close>

definition rows_hold :: "(nat \<Rightarrow> nat \<Rightarrow> real \<Rightarrow> real) \<Rightarrow> real \<Rightarrow> nat \<Rightarrow> nat \<Rightarrow> sh_buf \<Rightarrow> bool" where
  "rows_hold P x N n b \<longleftrightarrow>
     length (Pnm_m1 b) = N + 1 \<and> length (Pnm_m2 b) = N + 1
   \<and> (if n = 1 then Pnm_m2 b ! 0 = P 1 0 x \<and> Pnm_m2 b ! 1 = P 1 1 x
      else (\<forall>m\<le>n. Pnm_m1 b ! m = P n m x) \<and> (\<forall>m<n. Pnm_m2 b ! m = P (n - 1) m x)
           \<and> Pnm_nn b = P n n x)"

text \<open>
  Modelled from the spec: the Legendre kernel of \<^verbatim>\<open>math_spherharm.cpp\<close>, which is not among
  the sources. Section 4.1 of the specification gives the normalised associated Legendre
  functions by the seed \<open>P\<^sub>0\<^sup>0 = \<surd>(1 / 4\<pi>)\<close>, the diagonal rule
  \<open>P\<^sub>n\<^sup>n = - \<surd>((2n + 1) / 2n) \<surd>(1 - x\<^sup>2) P\<^sub>n\<^sub>-\<^sub>1\<^sup>n\<^sup>-\<^sup>1\<close> (\<^verbatim>\<open>plegendre_nn\<close>) and the two-term
  recurrence in \<open>n\<close> at fixed \<open>m\<close> (\<^verbatim>\<open>plegendre_recycle\<close>), which starts with
  \<open>P\<^sub>m\<^sub>+\<^sub>1\<^sup>m = x \<surd>(2m + 3) P\<^sub>m\<^sup>m\<close>. \<open>leg_col m k\<close> is \<open>P\<^sub>m\<^sub>+\<^sub>k\<^sup>m\<close>.
\<close>

fun leg_diag :: "nat \<Rightarrow> real \<Rightarrow> real" where
  "leg_diag 0 x = sqrt (1 / (4 * pi))"
| "leg_diag (Suc n) x
     = - sqrt ((2 * real (Suc n) + 1) / (2 * real (Suc n))) * sqrt (1 - x * x) * leg_diag n x"

definition leg_recycle :: "nat \<Rightarrow> nat \<Rightarrow> real \<Rightarrow> real \<Rightarrow> real \<Rightarrow> real" where
  "leg_recycle n m x p1 p2
     = sqrt ((4 * real n * real n - 1) / (real n * real n - real m * real m))
       * (x * p1
          - sqrt (((real n - 1) * (real n - 1) - real m * real m)
                  / (4 * (real n - 1) * (real n - 1) - 1)) * p2)"

fun leg_col :: "nat \<Rightarrow> nat \<Rightarrow> real \<Rightarrow> real" where
  "leg_col m 0 x = leg_diag m x"
| "leg_col m (Suc 0) x = x * sqrt (2 * real m + 3) * leg_diag m x"
| "leg_col m (Suc (Suc k)) x
     = leg_recycle (m + k + 2) m x (leg_col m (Suc k) x) (leg_col m k x)"

definition P_leg :: "nat \<Rightarrow> nat \<Rightarrow> real \<Rightarrow> real" where
  "P_leg n m x = (if m \<le> n then leg_col m (n - m) x else 0)"

definition K_leg :: legendre where
  "K_leg = \<lparr>plegendre = P_leg,
     plegendre_nn = (\<lambda>n x p. - sqrt ((2 * real n + 1) / (2 * real n)) * sqrt (1 - x * x) * p),
     plegendre_recycle = leg_recycle\<rparr>"

section \<open>Concrete inputs\<close>

text \<open>
  A kernel whose three routines are constant \<open>1\<close>, and a catalog of one shape of degree
  \<open>3\<close> with \<open>a\<^sub>0\<^sub>0 = 2 \<surd>\<pi>\<close> and \<open>a\<^sub>1\<^sub>1 = a\<^sub>1\<^sub>0 = a\<^sub>2\<^sub>0 = a\<^sub>3\<^sub>0 = 1\<close>: its partial radii
  in the direction \<open>\<theta> = \<phi> = 0\<close> are \<open>1, 4, 5, 6\<close>.
\<close>

definition K_one :: legendre where
  "K_one = \<lparr>plegendre = (\<lambda>n m x. 1), plegendre_nn = (\<lambda>n x p. 1),
            plegendre_recycle = (\<lambda>n m x a b. 1)\<rparr>"

definition av_three :: atom_vec where
  "av_three = \<lparr>maxshexpan = 3, nshtypes = 1, num_quadrature = 1,
     shcoeffs_byshape = [[2 * sqrt pi, 0, 1, 0, 1, 0, 0, 0, 0, 0, 1, 0, 0, 0, 0, 0, 0, 0, 1, 0]],
     expfacts_byshape = [[8, 2, 2, 1]], maxrad_byshape = [6],
     angles = [[0], [0]], weights = [2],
     quad_rads_byshape = [[0]]\<rparr>"

text \<open>
  The same shape with \<open>a\<^sub>0\<^sub>0 = 1\<close> on a grid of the single point \<open>\<theta> = \<phi> = 0\<close>, with
  \<^verbatim>\<open>expfacts_byshape\<close> allocated and not yet filled: under the constant kernel its
  partial sums are \<open>1, 4, 5, 6\<close>.
\<close>

definition av_unit :: atom_vec where
  "av_unit = \<lparr>maxshexpan = 3, nshtypes = 1, num_quadrature = 1,
     shcoeffs_byshape = [[1, 0, 1, 0, 1, 0, 0, 0, 0, 0, 1, 0, 0, 0, 0, 0, 0, 0, 1, 0]],
     expfacts_byshape = [[0, 0, 0, 0]], maxrad_byshape = [0],
     angles = [[0], [0]], weights = [2],
     quad_rads_byshape = [[0]]\<rparr>"

text \<open>The one-point Gauss-Legendre rule: the node \<open>x = 0\<close>, stored as \<open>\<theta> = \<pi>/2\<close>, with weight \<open>2\<close>.\<close>

definition GL_one :: "nat \<Rightarrow> nat \<Rightarrow> QuadPair" where
  "GL_one n k = \<lparr>qp_theta = pi / 2, qp_weight = 2\<rparr>"

text \<open>
  A catalog whose one shape has maximum radius \<open>1\<close>, and three atoms of that shape on a
  line: atom \<open>0\<close> at the origin with the neighbours \<open>1\<close> and \<open>2\<close> at distance \<open>4\<close> on
  either side.
\<close>

definition av_balls :: atom_vec where
  "av_balls = av_three\<lparr>maxrad_byshape := [1]\<rparr>"

definition atoms_line :: atoms where
  "atoms_line = \<lparr>atom_x = [(0, 0, 0), (4, 0, 0), (- 4, 0, 0)],
     atom_f = [(0, 0, 0), (0, 0, 0), (0, 0, 0)],
     atom_torque = [Finite (0, 0, 0), Finite (0, 0, 0), Finite (0, 0, 0)],
     atom_type = [1, 1, 1], atom_shtype = [0, 0, 0],
     atom_quat = [(1, 0, 0, 0), (1, 0, 0, 0), (1, 0, 0, 0)], nlocal = 3\<rparr>"

text \<open>
  A choice for the two parameters of \<^verbatim>\<open>doRotate\<close>: the factorial of the naturals, and
  the index \<open>m + n\<close> for the order \<open>m\<close> at degree \<open>n\<close>.
\<close>

definition fact_real :: "int \<Rightarrow> real" where
  "fact_real k = real (fact (nat k))"

definition index_shift :: "int \<Rightarrow> int \<Rightarrow> nat" where
  "index_shift n m = nat (m + n)"

text \<open>
  The helpers of \<^verbatim>\<open>MathExtra\<close> in the usual form: the rotation matrix of a unit
  quaternion, the quaternion product, normalisation and conjugation.
\<close>

definition MX_std :: math_extra where
  "MX_std = \<lparr>
     quat_to_mat = (\<lambda>(w, i, j, k).
        ((w * w + i * i - j * j - k * k, 2 * i * j - 2 * k * w, 2 * j * w + 2 * i * k),
         (2 * i * j + 2 * k * w, w * w - i * i + j * j - k * k, 2 * j * k - 2 * i * w),
         (2 * i * k - 2 * j * w, 2 * j * k + 2 * i * w, w * w - i * i - j * j + k * k))),
     quatquat = (\<lambda>(a0, a1, a2, a3) (b0, b1, b2, b3).
        (a0 * b0 - a1 * b1 - a2 * b2 - a3 * b3, a0 * b1 + b0 * a1 + a2 * b3 - a3 * b2,
         a0 * b2 + b0 * a2 + a3 * b1 - a1 * b3, a0 * b3 + b0 * a3 + a1 * b2 - a2 * b1)),
     qnormalize = (\<lambda>(q0, q1, q2, q3).
        (let norm = 1 / sqrt (q0 * q0 + q1 * q1 + q2 * q2 + q3 * q3)
         in (q0 * norm, q1 * norm, q2 * norm, q3 * norm))),
     qconjugate = (\<lambda>(q0, q1, q2, q3). (q0, - q1, - q2, - q3))\<rparr>"

text \<open>
  A catalog of degree \<open>20\<close> with two spheres, of radius \<open>4\<close> (\<open>a\<^sub>0\<^sub>0 = 8 \<surd>\<pi>\<close>) and of radius
  \<open>3\<close> (\<open>a\<^sub>0\<^sub>0 = 6 \<surd>\<pi>\<close>), all expansion factors \<open>1\<close>; an atom of the first shape at the
  origin with, as its one neighbour, an atom of the second shape at \<open>(0, 0, 5)\<close>; and the
  pair style with its \<open>30\<close> Gauss-Legendre nodes and weights (to \<open>16\<close> places).
\<close>

definition av_spheres :: atom_vec where
  "av_spheres = \<lparr>maxshexpan = 20, nshtypes = 2, num_quadrature = 1,
     shcoeffs_byshape = [8 * sqrt pi # replicate 461 0, 6 * sqrt pi # replicate 461 0],
     expfacts_byshape = [replicate 21 1, replicate 21 1], maxrad_byshape = [4, 3],
     angles = [[0], [0]], weights = [2], quad_rads_byshape = [[4], [3]]\<rparr>"

definition atoms_two :: atoms where
  "atoms_two = \<lparr>atom_x = [(0, 0, 0), (0, 0, 5)],
     atom_f = [(0, 0, 0), (0, 0, 0)],
     atom_torque = [Finite (0, 0, 0), Finite (0, 0, 0)],
     atom_type = [1, 1], atom_shtype = [0, 1],
     atom_quat = [(1, 0, 0, 0), (1, 0, 0, 0)], nlocal = 2\<rparr>"

definition ps_thirty :: pair_sh where
  "ps_thirty = \<lparr>num_pole_quad = 30, radius_tol = 0.001,
     abscissa =
     [0.9968934840746495, 0.9836681232797472, 0.9600218649683075, 0.9262000474292743,
      0.8825605357920527, 0.8295657623827684, 0.7677774321048262, 0.6978504947933158,
      0.6205261829892429, 0.5366241481420199, 0.4470337695380892, 0.3527047255308781,
      0.2546369261678898, 0.1538699136085835, 0.0514718425553177, - 0.0514718425553177,
      - 0.1538699136085835, - 0.2546369261678898, - 0.3527047255308781,
      - 0.4470337695380892, - 0.5366241481420199, - 0.6205261829892429,
      - 0.6978504947933158, - 0.7677774321048262, - 0.8295657623827684,
      - 0.8825605357920527, - 0.9262000474292743, - 0.9600218649683075,
      - 0.9836681232797472, - 0.9968934840746495],
     pair_weights =
     [0.0079681924961666, 0.0184664683110910, 0.0287847078833234, 0.0387991925696270,
      0.0484026728305941, 0.0574931562176191, 0.0659742298821805, 0.0737559747377052,
      0.0807558952294202, 0.0868997872010830, 0.0921225222377861, 0.0963687371746443,
      0.0995934205867953, 0.1017623897484055, 0.1028526528935588, 0.1028526528935588,
      0.1017623897484055, 0.0995934205867953, 0.0963687371746443, 0.0921225222377861,
      0.0868997872010830, 0.0807558952294202, 0.0737559747377052, 0.0659742298821805,
      0.0574931562176191, 0.0484026728305941, 0.0387991925696270, 0.0287847078833234,
      0.0184664683110910, 0.0079681924961666],
     exponent = 1.5, normal_coeffs = (\<lambda>i j. 1), newton_pair = True\<rparr>"

text \<open>
  A stand-in for \<^verbatim>\<open>get_shape_radius_and_normal\<close>, which the runs below never reach.
\<close>

definition no_normal :: "nat \<Rightarrow> real \<Rightarrow> real \<Rightarrow> real \<times> vec3" where
  "no_normal sht theta phi = (0, (0, 0, 0))"

text \<open>
  A shape of degree \<open>3\<close> for the kernel \<open>K_leg\<close>, looked at in the direction
  \<open>\<theta> = \<phi> = \<pi> / 2\<close>, where \<open>P\<^sub>1\<^sup>0\<close>, \<open>P\<^sub>2\<^sup>1\<close>, \<open>P\<^sub>3\<^sup>0\<close> and \<open>P\<^sub>3\<^sup>2\<close> vanish. The
  coefficients are scaled by the values of the other six functions so that the degrees
  \<open>0, 1, 2, 3\<close> add \<open>2, 1, 2, 2\<close> to the radius: the partial radii are \<open>2, 3, 5, 7\<close> and,
  with the expansion factors \<open>4, 3, 2, 1\<close>, the expanded radii are \<open>8, 9, 10, 7\<close>.
\<close>

definition cs_equator :: "real list" where
  "cs_equator =
     [2 / P_leg 0 0 0, 0,
      5, - 1 / (2 * P_leg 1 1 0),
      1, 0,
      - 1 / (2 * P_leg 2 2 0), 3,
      1, 1,
      1 / P_leg 2 0 0, 0,
      2, 1 / (2 * P_leg 3 3 0),
      1, 1,
      4, - 1 / (2 * P_leg 3 1 0),
      1, 0]"

definition av_equator :: atom_vec where
  "av_equator = \<lparr>maxshexpan = 3, nshtypes = 1, num_quadrature = 1,
     shcoeffs_byshape = [cs_equator], expfacts_byshape = [[4, 3, 2, 1]], maxrad_byshape = [7],
     angles = [[pi / 2], [pi / 2]], weights = [2], quad_rads_byshape = [[7]]\<rparr>"

section \<open>Properties of the contact test\<close>

lemma cc_while_step:
  assumes "Suc (Suc m) \<le> maxshexpan av"
  shows "cc_while K av sht phi_proj (cos theta_proj) d fr (Suc m) (cc_buf K av sht phi_proj theta_proj m)
     = (if d > expanded_radius K av sht phi_proj theta_proj (Suc m) then (0, fr)
        else cc_while K av sht phi_proj (cos theta_proj) d fr (Suc (Suc m))
               (cc_buf K av sht phi_proj theta_proj (Suc m)))"
  using assms
  by (subst cc_while.simps) (simp add: Let_def expanded_radius_def partial_radius_def)

lemma cc_while_last:
  assumes "maxshexpan av = Suc m"
  shows "cc_while K av sht phi_proj (cos theta_proj) d fr (Suc m) (cc_buf K av sht phi_proj theta_proj m)
     = (if d > expanded_radius K av sht phi_proj theta_proj (Suc m) then (0, fr)
        else (1, partial_radius K av sht phi_proj theta_proj (Suc m)))"
  using assms
  by (subst cc_while.simps) (simp add: Let_def expanded_radius_def partial_radius_def)

lemma early_exit_Suc:
  assumes "n0 \<le> maxshexpan av"
  shows "early_exit K av sht phi_proj theta_proj d n0 \<longleftrightarrow>
     d > expanded_radius K av sht phi_proj theta_proj n0
     \<or> early_exit K av sht phi_proj theta_proj d (Suc n0)"
    (is "?L \<longleftrightarrow> ?A \<or> ?R")
proof
  assume ?L
  then obtain k where k: "n0 \<le> k" "k \<le> maxshexpan av"
      "d > expanded_radius K av sht phi_proj theta_proj k"
    unfolding early_exit_def by blast
  show "?A \<or> ?R"
  proof (cases "k = n0")
    case True with k show ?thesis by simp
  next
    case False
    with k have "Suc n0 \<le> k" by simp
    with k show ?thesis unfolding early_exit_def by blast
  qed
next
  assume "?A \<or> ?R"
  then show ?L
  proof
    assume ?A with assms show ?L unfolding early_exit_def by (intro exI[of _ n0]) simp
  next
    assume ?R then show ?L unfolding early_exit_def using Suc_leD by blast
  qed
qed

lemma early_exit_beyond:
  "maxshexpan av < n0 \<Longrightarrow> \<not> early_exit K av sht phi_proj theta_proj d n0"
  unfolding early_exit_def by auto

text \<open>
  Entered at degree \<open>m + 1\<close> with the buffers of degree \<open>m\<close>, the loop answers \<open>0\<close> exactly
  when one of the remaining degrees fails the distance test.
\<close>

lemma cc_while_from:
  assumes "Suc m \<le> maxshexpan av"
  shows "cc_while K av sht phi_proj (cos theta_proj) d fr (Suc m) (cc_buf K av sht phi_proj theta_proj m)
     = (if early_exit K av sht phi_proj theta_proj d (Suc m)
        then (0, fr) else (1, partial_radius K av sht phi_proj theta_proj (maxshexpan av)))"
  using assms
proof (induction "maxshexpan av - Suc m" arbitrary: m)
  case 0
  then have eq: "maxshexpan av = Suc m" by simp
  have "early_exit K av sht phi_proj theta_proj d (Suc m)
      \<longleftrightarrow> d > expanded_radius K av sht phi_proj theta_proj (Suc m)"
    using early_exit_Suc[of "Suc m" av K sht phi_proj theta_proj d]
          early_exit_beyond[of av "Suc (Suc m)" K sht phi_proj theta_proj d] eq by simp
  then show ?case
    using cc_while_last[OF eq, of K sht phi_proj theta_proj d fr] eq by simp
next
  case (Suc j)
  then have lt: "Suc (Suc m) \<le> maxshexpan av" and j: "j = maxshexpan av - Suc (Suc m)" by simp_all
  have "early_exit K av sht phi_proj theta_proj d (Suc m)
      \<longleftrightarrow> d > expanded_radius K av sht phi_proj theta_proj (Suc m)
        \<or> early_exit K av sht phi_proj theta_proj d (Suc (Suc m))"
    using early_exit_Suc[of "Suc m" av K sht phi_proj theta_proj d] lt by simp
  then show ?case
    using cc_while_step[OF lt, of K sht phi_proj theta_proj d fr] Suc.hyps(1)[OF j lt] by simp
qed

lemma check_contact_eq:
  assumes "1 \<le> maxshexpan av"
  shows "check_contact K av sht phi_proj theta_proj d fr
     = (if early_exit K av sht phi_proj theta_proj d 0
        then (0, fr) else (1, partial_radius K av sht phi_proj theta_proj (maxshexpan av)))"
proof -
  have s: "Suc 0 \<le> maxshexpan av" using assms by simp
  have e: "early_exit K av sht phi_proj theta_proj d 0
      \<longleftrightarrow> d > expanded_radius K av sht phi_proj theta_proj 0
        \<or> early_exit K av sht phi_proj theta_proj d (Suc 0)"
    using early_exit_Suc[of 0 av K sht phi_proj theta_proj d] by simp
  have z: "expfacts_byshape av ! sht ! 0 * rad_val (sh_init av sht)
     = expanded_radius K av sht phi_proj theta_proj 0"
    by (simp add: expanded_radius_def partial_radius_def)
  show ?thesis
    unfolding check_contact_def Let_def z
    using cc_while_from[OF s, of K sht phi_proj theta_proj d fr] e by simp
qed

lemma early_exit_0:
  "early_exit K av sht phi theta d 0
     \<longleftrightarrow> (\<exists>n\<le>maxshexpan av. d > expanded_radius K av sht phi theta n)"
  by (auto simp: early_exit_def)

text \<open>With \<^verbatim>\<open>maxshexpan = 0\<close> the loop is never entered and the answer is \<open>0\<close>.\<close>

lemma check_contact_degree0:
  assumes "maxshexpan av = 0"
  shows "check_contact K av sht phi theta d fr = (0, fr)"
  unfolding check_contact_def Let_def
  by (subst cc_while.simps) (simp add: assms)

text \<open>The radii of the concrete shape, evaluated.\<close>

lemma av_three_buf:
  "cc_buf K_one av_three 0 0 0 0 = \<lparr>rad_val = 1, Pnm_m2 = [0, 0, 0, 0], Pnm_m1 = [0, 0, 0, 0], Pnm_nn = 0\<rparr>"
  "cc_buf K_one av_three 0 0 0 (Suc 0) = \<lparr>rad_val = 4, Pnm_m2 = [1, 1, 0, 0], Pnm_m1 = [0, 0, 0, 0], Pnm_nn = 0\<rparr>"
  "cc_buf K_one av_three 0 0 0 (Suc (Suc 0)) = \<lparr>rad_val = 5, Pnm_m2 = [1, 1, 0, 0], Pnm_m1 = [1, 1, 1, 0], Pnm_nn = 1\<rparr>"
  "cc_buf K_one av_three 0 0 0 (Suc (Suc (Suc 0))) = \<lparr>rad_val = 6, Pnm_m2 = [1, 1, 1, 0], Pnm_m1 = [1, 1, sqrt 7, 1], Pnm_nn = 1\<rparr>"
  by (simp_all add: cc_degree_def cc_n1_def cc_n2_def cc_ge3_def cc_ge3_m0_def cc_ge3_tips_def
        cc_n2_m_def cc_ge3_m_def K_one_def av_three_def sh_init_def Let_def upt_rec
        numeral_eq_Suc real_sqrt_divide real_sqrt_mult)

lemma av_three_expanded:
  "expanded_radius K_one av_three 0 0 0 0 = 8"
  "expanded_radius K_one av_three 0 0 0 (Suc 0) = 8"
  "expanded_radius K_one av_three 0 0 0 (Suc (Suc 0)) = 10"
  "expanded_radius K_one av_three 0 0 0 (Suc (Suc (Suc 0))) = 6"
  by (simp_all add: expanded_radius_def partial_radius_def av_three_buf del: cc_buf.simps)
     (simp_all add: av_three_def)

lemma le_three_cases: "n \<le> Suc (Suc (Suc 0)) \<Longrightarrow> n = 0 \<or> n = Suc 0 \<or> n = Suc (Suc 0) \<or> n = Suc (Suc (Suc 0))"
  by arith

subsection \<open>The loops of \<^verbatim>\<open>check_contact\<close> compute the radius of the specification\<close>

lemma sh_loc_low:
  "sh_loc 1 0 = 4" "sh_loc 1 1 = 2" "sh_loc 2 0 = 10" "sh_loc 2 1 = 8" "sh_loc 2 2 = 6"
  by (simp_all add: sh_loc_def)

lemma spec_degree_1:
  "spec_degree P cs theta phi 1
     = cs ! 4 * P 1 0 (cos theta) + (cs ! 2 * cos phi - cs ! 3 * sin phi) * 2 * P 1 1 (cos theta)"
proof -
  have u: "[0 ..< 1 + 1] = [0, 1 :: nat]" by code_simp
  have "spec_degree P cs theta phi 1
      = spec_term P cs theta phi 1 0 + spec_term P cs theta phi 1 1"
    unfolding spec_degree_def u by simp
  also have "spec_term P cs theta phi 1 0 = cs ! 4 * P 1 0 (cos theta)"
    unfolding spec_term_def sh_loc_low by simp
  also have "spec_term P cs theta phi 1 1
      = (cs ! 2 * cos phi - cs ! 3 * sin phi) * 2 * P 1 1 (cos theta)"
    unfolding spec_term_def sh_loc_low by simp
  finally show ?thesis .
qed

lemma spec_degree_2:
  "spec_degree P cs theta phi 2
     = cs ! 10 * P 2 0 (cos theta)
       + (cs ! 6 * cos (2 * phi) - cs ! 7 * sin (2 * phi)) * 2 * P 2 2 (cos theta)
       + (cs ! 8 * cos phi - cs ! 9 * sin phi) * 2 * P 2 1 (cos theta)"
proof -
  have u: "[0 ..< 2 + 1] = [0, 1, 2 :: nat]" by code_simp
  have "spec_degree P cs theta phi 2
      = spec_term P cs theta phi 2 0 + spec_term P cs theta phi 2 1 + spec_term P cs theta phi 2 2"
    unfolding spec_degree_def u by simp
  also have "spec_term P cs theta phi 2 0 = cs ! 10 * P 2 0 (cos theta)"
    unfolding spec_term_def sh_loc_low by simp
  also have "spec_term P cs theta phi 2 1
      = (cs ! 8 * cos phi - cs ! 9 * sin phi) * 2 * P 2 1 (cos theta)"
    unfolding spec_term_def sh_loc_low by simp
  also have "spec_term P cs theta phi 2 2
      = (cs ! 6 * cos (2 * phi) - cs ! 7 * sin (2 * phi)) * 2 * P 2 2 (cos theta)"
    unfolding spec_term_def sh_loc_low by simp
  finally show ?thesis by simp
qed

lemma contract_low:
  assumes "legendre_contract K P N x" and "1 \<le> n" and "n \<le> 2" and "n \<le> N" and "m \<le> n"
  shows "plegendre K n m x = P n m x"
  using assms by (simp add: legendre_contract_def)

lemma cc_n1_spec:
  assumes c: "legendre_contract K P N (cos theta)" and N: "1 \<le> N"
    and len: "length (Pnm_m1 b) = N + 1" "length (Pnm_m2 b) = N + 1"
  shows "rad_val (cc_n1 K cs (cos theta) phi b) = rad_val b + spec_degree P cs theta phi 1"
    and "rows_hold P (cos theta) N 1 (cc_n1 K cs (cos theta) phi b)"
proof -
  have p: "plegendre K 1 0 (cos theta) = P 1 0 (cos theta)"
    "plegendre K 1 1 (cos theta) = P 1 1 (cos theta)"
    by (rule contract_low[OF c]; use N in simp)+
  show "rad_val (cc_n1 K cs (cos theta) phi b) = rad_val b + spec_degree P cs theta phi 1"
    unfolding spec_degree_1 cc_n1_def Let_def p by simp
  show "rows_hold P (cos theta) N 1 (cc_n1 K cs (cos theta) phi b)"
    unfolding cc_n1_def Let_def p rows_hold_def using N len by (simp add: nth_list_update)
qed

lemma cc_n2_spec:
  assumes c: "legendre_contract K P N (cos theta)" and N: "2 \<le> N"
    and r: "rows_hold P (cos theta) N 1 b"
  shows "rad_val (cc_n2 K cs (cos theta) phi b) = rad_val b + spec_degree P cs theta phi 2"
    and "rows_hold P (cos theta) N 2 (cc_n2 K cs (cos theta) phi b)"
proof -
  have p: "plegendre K 2 0 (cos theta) = P 2 0 (cos theta)"
    "plegendre K 2 1 (cos theta) = P 2 1 (cos theta)"
    "plegendre K 2 2 (cos theta) = P 2 2 (cos theta)"
    by (rule contract_low[OF c]; use N in simp)+
  have f: "fold (cc_n2_m K cs (cos theta) phi) [2, 1] s
         = cc_n2_m K cs (cos theta) phi 1 (cc_n2_m K cs (cos theta) phi 2 s)" for s
    by simp
  show "rad_val (cc_n2 K cs (cos theta) phi b) = rad_val b + spec_degree P cs theta phi 2"
    unfolding spec_degree_2 cc_n2_def f cc_n2_m_def Let_def p by simp
  have r': "length (Pnm_m1 b) = N + 1" "length (Pnm_m2 b) = N + 1"
    "Pnm_m2 b ! 0 = P 1 0 (cos theta)" "Pnm_m2 b ! 1 = P 1 1 (cos theta)"
    using r by (simp_all add: rows_hold_def)
  have m2: "Pnm_m2 (cc_n2 K cs (cos theta) phi b) = Pnm_m2 b"
    unfolding cc_n2_def f cc_n2_m_def Let_def by simp
  have m1: "Pnm_m1 (cc_n2 K cs (cos theta) phi b)
          = (Pnm_m1 b)[0 := P 2 0 (cos theta), 2 := P 2 2 (cos theta), 1 := P 2 1 (cos theta)]"
    unfolding cc_n2_def f cc_n2_m_def Let_def p by simp
  have nn: "Pnm_nn (cc_n2 K cs (cos theta) phi b) = P 2 2 (cos theta)"
    unfolding cc_n2_def f cc_n2_m_def Let_def p using N r'(1) by simp
  have c2: "m = 0 \<or> m = 1 \<or> m = 2" if "m \<le> 2" for m :: nat using that by auto
  have c1: "m = 0 \<or> m = 1" if "m < 2" for m :: nat using that by auto
  have a: "Pnm_m1 (cc_n2 K cs (cos theta) phi b) ! m = P 2 m (cos theta)" if "m \<le> 2" for m
    using c2[OF that] N r'(1) unfolding m1 by auto
  have b: "Pnm_m2 (cc_n2 K cs (cos theta) phi b) ! m = P (2 - 1) m (cos theta)" if "m < 2" for m
    using c1[OF that] r'(3,4) unfolding m2 by auto
  show "rows_hold P (cos theta) N 2 (cc_n2 K cs (cos theta) phi b)"
    unfolding rows_hold_def using a b nn by (simp add: m1 m2 r')
qed


lemma cc_ge3_m_step:
  "cc_ge3_m K cs n x phi m (b, loc)
     = (b\<lparr>rad_val := rad_val b + (cs ! loc * cos (real m * phi) - cs ! (loc + 1) * sin (real m * phi))
                                     * 2 * plegendre_recycle K n m x (Pnm_m1 b ! m) (Pnm_m2 b ! m),
          Pnm_m2 := (Pnm_m2 b)[m := Pnm_m1 b ! m],
          Pnm_m1 := (Pnm_m1 b)[m := plegendre_recycle K n m x (Pnm_m1 b ! m) (Pnm_m2 b ! m)]\<rparr>,
        loc - 2)"
  by (simp add: cc_ge3_m_def Let_def)

lemma sh_loc_step: "m < n \<Longrightarrow> sh_loc n m - 2 = sh_loc n (Suc m)"
  by (simp add: sh_loc_def algebra_simps)

lemma spec_term_pos:
  "0 < m \<Longrightarrow> spec_term P cs theta phi n m
     = (cs ! sh_loc n m * cos (real m * phi) - cs ! (sh_loc n m + 1) * sin (real m * phi))
         * 2 * P n m (cos theta)"
  by (simp add: spec_term_def)

lemma cc_ge3_m_fold:
  assumes rec: "\<And>m. m \<le> n - 2 \<Longrightarrow>
        plegendre_recycle K n m (cos theta) (P (n - 1) m (cos theta)) (P (n - 2) m (cos theta))
          = P n m (cos theta)"
    and n: "3 \<le> n"
    and m1: "\<And>m. 1 \<le> m \<Longrightarrow> m \<le> n - 2 \<Longrightarrow> Pnm_m1 b0 ! m = P (n - 1) m (cos theta)"
    and m2: "\<And>m. 1 \<le> m \<Longrightarrow> m \<le> n - 2 \<Longrightarrow> Pnm_m2 b0 ! m = P (n - 2) m (cos theta)"
    and len: "n < length (Pnm_m1 b0)" "n < length (Pnm_m2 b0)"
    and k: "k \<le> n - 2"
  shows "\<exists>b. fold (cc_ge3_m K cs n (cos theta) phi) [1 ..< Suc k] (b0, sh_loc n 1)
              = (b, sh_loc n (Suc k))
           \<and> rad_val b = rad_val b0 + (\<Sum>m\<leftarrow>[1 ..< Suc k]. spec_term P cs theta phi n m)
           \<and> length (Pnm_m1 b) = length (Pnm_m1 b0)
           \<and> length (Pnm_m2 b) = length (Pnm_m2 b0)
           \<and> Pnm_nn b = Pnm_nn b0
           \<and> (\<forall>m. Pnm_m1 b ! m
                  = (if 1 \<le> m \<and> m \<le> k then P n m (cos theta) else Pnm_m1 b0 ! m))
           \<and> (\<forall>m. Pnm_m2 b ! m
                  = (if 1 \<le> m \<and> m \<le> k then P (n - 1) m (cos theta) else Pnm_m2 b0 ! m))"
  using k
proof (induction k)
  case 0
  then show ?case by simp
next
  case (Suc k)
  then have k: "k \<le> n - 2" and k1: "Suc k \<le> n - 2" by simp_all
  from Suc.IH[OF k] obtain b where
    F: "fold (cc_ge3_m K cs n (cos theta) phi) [1 ..< Suc k] (b0, sh_loc n 1)
          = (b, sh_loc n (Suc k))"
    and R: "rad_val b = rad_val b0 + (\<Sum>m\<leftarrow>[1 ..< Suc k]. spec_term P cs theta phi n m)"
    and L: "length (Pnm_m1 b) = length (Pnm_m1 b0)" "length (Pnm_m2 b) = length (Pnm_m2 b0)"
    and NN: "Pnm_nn b = Pnm_nn b0"
    and M1: "\<And>m. Pnm_m1 b ! m
                  = (if 1 \<le> m \<and> m \<le> k then P n m (cos theta) else Pnm_m1 b0 ! m)"
    and M2: "\<And>m. Pnm_m2 b ! m
                  = (if 1 \<le> m \<and> m \<le> k then P (n - 1) m (cos theta) else Pnm_m2 b0 ! m)"
    by blast
  have a1: "Pnm_m1 b ! Suc k = P (n - 1) (Suc k) (cos theta)"
    using M1[of "Suc k"] m1[of "Suc k"] k1 by simp
  have a2: "Pnm_m2 b ! Suc k = P (n - 2) (Suc k) (cos theta)"
    using M2[of "Suc k"] m2[of "Suc k"] k1 by simp
  note p = rec[OF k1]
  define b' where "b' = b\<lparr>rad_val := rad_val b + spec_term P cs theta phi n (Suc k),
      Pnm_m2 := (Pnm_m2 b)[Suc k := P (n - 1) (Suc k) (cos theta)],
      Pnm_m1 := (Pnm_m1 b)[Suc k := P n (Suc k) (cos theta)]\<rparr>"
  have lt: "Suc k < n" using k1 n by simp
  have S: "cc_ge3_m K cs n (cos theta) phi (Suc k) (b, sh_loc n (Suc k))
         = (b', sh_loc n (Suc (Suc k)))"
    unfolding cc_ge3_m_step a1 a2 p b'_def sh_loc_step[OF lt]
    by (simp add: spec_term_pos)
  have u: "[1 ..< Suc (Suc k)] = [1 ..< Suc k] @ [Suc k]" by simp
  have F': "fold (cc_ge3_m K cs n (cos theta) phi) [1 ..< Suc (Suc k)] (b0, sh_loc n 1)
          = (b', sh_loc n (Suc (Suc k)))"
    unfolding u fold_append comp_def F by (simp add: S)
  have R': "rad_val b' = rad_val b0 + (\<Sum>m\<leftarrow>[1 ..< Suc (Suc k)]. spec_term P cs theta phi n m)"
    unfolding u by (simp add: b'_def R)
  have i1: "Suc k < length (Pnm_m1 b)" "Suc k < length (Pnm_m2 b)"
    using lt len L by simp_all
  have M1': "Pnm_m1 b' ! m
       = (if 1 \<le> m \<and> m \<le> Suc k then P n m (cos theta) else Pnm_m1 b0 ! m)" for m
    using i1 by (simp add: b'_def nth_list_update M1)
  have M2': "Pnm_m2 b' ! m
       = (if 1 \<le> m \<and> m \<le> Suc k then P (n - 1) m (cos theta) else Pnm_m2 b0 ! m)" for m
    using i1 by (simp add: b'_def nth_list_update M2)
  show ?case
    using F' R' M1' M2' by (simp add: b'_def L NN)
qed


lemma cc_ge3_tips_step:
  "cc_ge3_tips K cs n x phi (b1, loc1)
     = b1\<lparr>rad_val := rad_val b1
             + (cs ! loc1 * cos (real (n - 1) * phi) - cs ! (loc1 + 1) * sin (real (n - 1) * phi))
                 * 2 * (x * sqrt (2 * (real n - 1) + 3) * Pnm_nn b1)
             + (cs ! (loc1 - 2) * cos (real n * phi) - cs ! (loc1 - 2 + 1) * sin (real n * phi))
                 * 2 * plegendre_nn K n x (Pnm_nn b1),
           Pnm_m2 := (Pnm_m2 b1)[n - 1 := Pnm_m1 b1 ! (n - 1)],
           Pnm_m1 := (Pnm_m1 b1)[n - 1 := x * sqrt (2 * (real n - 1) + 3) * Pnm_nn b1,
                                  n := plegendre_nn K n x (Pnm_nn b1)],
           Pnm_nn := plegendre_nn K n x (Pnm_nn b1)\<rparr>"
  by (simp add: cc_ge3_tips_def Let_def)

lemma upt_degree:
  assumes "3 \<le> n"
  shows "[0 ..< n + 1] = 0 # [1 ..< Suc (n - 2)] @ [n - 1, n]"
proof -
  define j where "j = n - 2"
  have n: "n = Suc (Suc j)" and j: "1 \<le> j" using assms by (simp_all add: j_def)
  have "[0 ..< Suc (Suc (Suc j))] = 0 # [1 ..< Suc (Suc (Suc j))]"
    by (subst upt_rec) simp
  also have "[1 ..< Suc (Suc (Suc j))] = [1 ..< Suc j] @ [Suc j, Suc (Suc j)]"
    using j by simp
  finally show ?thesis by (simp add: n)
qed

lemma cc_ge3_spec:
  assumes c: "legendre_contract K P N (cos theta)" and n: "3 \<le> n" "n \<le> N"
    and r: "rows_hold P (cos theta) N (n - 1) b"
  shows "rad_val (cc_ge3 K cs n (cos theta) phi b) = rad_val b + spec_degree P cs theta phi n"
    and "rows_hold P (cos theta) N n (cc_ge3 K cs n (cos theta) phi b)"
proof -
  define x where "x = cos theta"
  have in3: "n \<in> {3 .. N}" using n by simp
  have tip: "x * sqrt (2 * (real n - 1) + 3) * P (n - 1) (n - 1) x = P n (n - 1) x"
    and nn: "plegendre_nn K n x (P (n - 1) (n - 1) x) = P n n x"
    and rec: "\<And>m. m \<le> n - 2 \<Longrightarrow>
        plegendre_recycle K n m x (P (n - 1) m x) (P (n - 2) m x) = P n m x"
    using c in3 unfolding legendre_contract_def x_def by auto
  have n1: "n - 1 \<noteq> 1" using n by simp
  have len: "length (Pnm_m1 b) = N + 1" "length (Pnm_m2 b) = N + 1"
    and M1: "\<And>m. m \<le> n - 1 \<Longrightarrow> Pnm_m1 b ! m = P (n - 1) m x"
    and M2: "\<And>m. m < n - 1 \<Longrightarrow> Pnm_m2 b ! m = P (n - 2) m x"
    and NN: "Pnm_nn b = P (n - 1) (n - 1) x"
    using r n1 unfolding rows_hold_def x_def by (simp_all add: numeral_2_eq_2)
  define b0 where "b0 = b\<lparr>rad_val := rad_val b + cs ! sh_loc n 0 * P n 0 x,
      Pnm_m2 := (Pnm_m2 b)[0 := P (n - 1) 0 x], Pnm_m1 := (Pnm_m1 b)[0 := P n 0 x]\<rparr>"
  have l0: "(n + 1) * (n + 2) - 2 = sh_loc n 0" by (simp add: sh_loc_def algebra_simps)
  have l1: "sh_loc n 0 - 2 = sh_loc n 1" using n by (simp add: sh_loc_def algebra_simps)
  have m0: "cc_ge3_m0 K cs n x phi b = (b0, sh_loc n 1)"
    unfolding cc_ge3_m0_def Let_def l0 l1 M1[of 0, simplified] M2[of 0, simplified, OF _]
    using n rec[of 0] M1[of 0] M2[of 0] by (simp add: b0_def)
  have f: "\<exists>b1. fold (cc_ge3_m K cs n (cos theta) phi) [1 ..< Suc (n - 2)] (b0, sh_loc n 1)
              = (b1, sh_loc n (Suc (n - 2)))
           \<and> rad_val b1 = rad_val b0 + (\<Sum>m\<leftarrow>[1 ..< Suc (n - 2)]. spec_term P cs theta phi n m)
           \<and> length (Pnm_m1 b1) = length (Pnm_m1 b0)
           \<and> length (Pnm_m2 b1) = length (Pnm_m2 b0)
           \<and> Pnm_nn b1 = Pnm_nn b0
           \<and> (\<forall>m. Pnm_m1 b1 ! m
                  = (if 1 \<le> m \<and> m \<le> n - 2 then P n m (cos theta) else Pnm_m1 b0 ! m))
           \<and> (\<forall>m. Pnm_m2 b1 ! m
                  = (if 1 \<le> m \<and> m \<le> n - 2 then P (n - 1) m (cos theta) else Pnm_m2 b0 ! m))"
  proof (rule cc_ge3_m_fold[OF _ n(1)])
    show "plegendre_recycle K n m (cos theta) (P (n - 1) m (cos theta)) (P (n - 2) m (cos theta))
          = P n m (cos theta)" if "m \<le> n - 2" for m
      using rec[OF that] by (simp add: x_def)
    show "Pnm_m1 b0 ! m = P (n - 1) m (cos theta)" if "1 \<le> m" "m \<le> n - 2" for m
      using that M1[of m] by (simp add: b0_def x_def)
    show "Pnm_m2 b0 ! m = P (n - 2) m (cos theta)" if "1 \<le> m" "m \<le> n - 2" for m
      using that M2[of m] n by (simp add: b0_def x_def)
    show "n < length (Pnm_m1 b0)" "n < length (Pnm_m2 b0)"
      using n len by (simp_all add: b0_def)
    show "n - 2 \<le> n - 2" by simp
  qed
  have sn: "Suc (n - 2) = n - 1" using n by simp
  from f obtain b1 where
    F: "fold (cc_ge3_m K cs n x phi) [1 ..< n - 1] (b0, sh_loc n 1) = (b1, sh_loc n (n - 1))"
    and R1: "rad_val b1 = rad_val b0 + (\<Sum>m\<leftarrow>[1 ..< Suc (n - 2)]. spec_term P cs theta phi n m)"
    and L1: "length (Pnm_m1 b1) = N + 1" "length (Pnm_m2 b1) = N + 1"
    and NN1: "Pnm_nn b1 = P (n - 1) (n - 1) x"
    and A1: "\<And>m. Pnm_m1 b1 ! m = (if 1 \<le> m \<and> m \<le> n - 2 then P n m x else Pnm_m1 b0 ! m)"
    and A2: "\<And>m. Pnm_m2 b1 ! m
                 = (if 1 \<le> m \<and> m \<le> n - 2 then P (n - 1) m x else Pnm_m2 b0 ! m)"
    unfolding sn x_def[symmetric] by (auto simp add: b0_def len NN)
  define b2 where "b2 = cc_ge3_tips K cs n x phi (b1, sh_loc n (n - 1))"
  have E: "cc_ge3 K cs n x phi b = b2"
    unfolding cc_ge3_def m0 F b2_def ..
  have ln: "sh_loc n (n - 1) - 2 = sh_loc n n" using n by (simp add: sh_loc_def)
  have gt: "\<not> n - Suc 0 \<le> n - 2" "n - Suc 0 \<noteq> 0" "0 \<noteq> n - Suc 0"
    using n by simp_all
  have top: "Pnm_m1 b1 ! (n - 1) = P (n - 1) (n - 1) x"
    using M1[of "n - 1"] unfolding A1 by (simp add: gt b0_def)
  have T: "b2 = b1\<lparr>rad_val := rad_val b1 + spec_term P cs theta phi n (n - 1)
                                + spec_term P cs theta phi n n,
           Pnm_m2 := (Pnm_m2 b1)[n - 1 := P (n - 1) (n - 1) x],
           Pnm_m1 := (Pnm_m1 b1)[n - 1 := P n (n - 1) x, n := P n n x],
           Pnm_nn := P n n x\<rparr>"
    unfolding b2_def cc_ge3_tips_step NN1 tip nn ln top
    using n by (simp add: spec_term_pos x_def)
  have z: "spec_term P cs theta phi n 0 = cs ! sh_loc n 0 * P n 0 x"
    by (simp add: spec_term_def x_def)
  show "rad_val (cc_ge3 K cs n (cos theta) phi b) = rad_val b + spec_degree P cs theta phi n"
    unfolding x_def[symmetric] E T spec_degree_def upt_degree[OF n(1)]
    by (simp add: R1 b0_def z)
  have i: "n - 1 < length (Pnm_m1 b1)" "n < length (Pnm_m1 b1)" "n - 1 < length (Pnm_m2 b1)"
    using n L1 by simp_all
  have B1: "Pnm_m1 b2 ! m = P n m x" if mn: "m \<le> n" for m
  proof -
    consider "m = 0" | "1 \<le> m \<and> m \<le> n - 2" | "m = n - 1" | "m = n" using mn n by linarith
    then show ?thesis
    proof cases
      case 1
      then show ?thesis using n len i by (simp add: T nth_list_update A1 b0_def)
    next
      case 2
      then show ?thesis using n i by (simp add: T nth_list_update A1)
    next
      case 3
      then show ?thesis using n i by (simp add: T nth_list_update)
    next
      case 4
      then show ?thesis using n i by (simp add: T nth_list_update)
    qed
  qed
  have B2: "Pnm_m2 b2 ! m = P (n - 1) m x" if mn: "m < n" for m
  proof -
    consider "m = 0" | "1 \<le> m \<and> m \<le> n - 2" | "m = n - 1" using mn n by linarith
    then show ?thesis
    proof cases
      case 1
      then show ?thesis using n len i by (simp add: T nth_list_update A2 b0_def)
    next
      case 2
      then show ?thesis using n i by (simp add: T nth_list_update A2)
    next
      case 3
      then show ?thesis using n i by (simp add: T nth_list_update)
    qed
  qed
  have "rows_hold P x N n b2"
    unfolding rows_hold_def using n B1 B2 by (simp add: T L1)
  then show "rows_hold P (cos theta) N n (cc_ge3 K cs n (cos theta) phi b)"
    unfolding x_def[symmetric] E .
qed


lemma spec_partial_radius_0:
  "spec_partial_radius P cs theta phi 0 = cs ! 0 * P 0 0 (cos theta)"
  by (simp add: spec_partial_radius_def spec_degree_def spec_term_def sh_loc_def)

lemma spec_partial_radius_Suc:
  "spec_partial_radius P cs theta phi (Suc n)
     = spec_partial_radius P cs theta phi n + spec_degree P cs theta phi (Suc n)"
  by (simp add: spec_partial_radius_def)

lemma cc_buf_spec:
  assumes c: "legendre_contract K P (maxshexpan av) (cos theta)" and n: "n \<le> maxshexpan av"
  shows "rad_val (cc_buf K av sht phi theta n)
           = spec_partial_radius P (shcoeffs_byshape av ! sht) theta phi n
       \<and> length (Pnm_m1 (cc_buf K av sht phi theta n)) = maxshexpan av + 1
       \<and> length (Pnm_m2 (cc_buf K av sht phi theta n)) = maxshexpan av + 1
       \<and> (1 \<le> n \<longrightarrow> rows_hold P (cos theta) (maxshexpan av) n (cc_buf K av sht phi theta n))"
  using n
proof (induction n)
  case 0
  have "P 0 0 (cos theta) = sqrt (1 / (4 * pi))"
    using c by (simp add: legendre_contract_def)
  then show ?case
    by (simp add: spec_partial_radius_0 sh_init_def)
next
  case (Suc n)
  define b where "b = cc_buf K av sht phi theta n"
  define cs where "cs = shcoeffs_byshape av ! sht"
  have le: "n \<le> maxshexpan av" and le1: "Suc n \<le> maxshexpan av" using Suc.prems by simp_all
  note IH = Suc.IH[OF le, folded b_def cs_def]
  have R: "rad_val b = spec_partial_radius P cs theta phi n"
    and L: "length (Pnm_m1 b) = maxshexpan av + 1" "length (Pnm_m2 b) = maxshexpan av + 1"
    and H: "1 \<le> n \<Longrightarrow> rows_hold P (cos theta) (maxshexpan av) n b"
    using IH by simp_all
  have S: "cc_buf K av sht phi theta (Suc n) = cc_degree K cs (Suc n) (cos theta) phi b"
    by (simp add: b_def cs_def)
  consider "Suc n = 1" | "Suc n = 2" | "3 \<le> Suc n" by linarith
  then have "rad_val (cc_degree K cs (Suc n) (cos theta) phi b)
               = rad_val b + spec_degree P cs theta phi (Suc n)
           \<and> rows_hold P (cos theta) (maxshexpan av) (Suc n)
                (cc_degree K cs (Suc n) (cos theta) phi b)"
  proof cases
    case 1
    have N: "1 \<le> maxshexpan av" using le1 by simp
    show ?thesis
      unfolding 1 cc_degree_def using cc_n1_spec[OF c N L, of cs phi] by simp
  next
    case 2
    have N: "2 \<le> maxshexpan av" using le1 2 by simp
    have "n = 1" using 2 by simp
    with H have r: "rows_hold P (cos theta) (maxshexpan av) 1 b" by simp
    show ?thesis
      unfolding 2 cc_degree_def using cc_n2_spec[OF c N r, of cs phi] by simp
  next
    case 3
    have r: "rows_hold P (cos theta) (maxshexpan av) (Suc n - 1) b" using H 3 by simp
    have d: "cc_degree K cs (Suc n) (cos theta) phi b = cc_ge3 K cs (Suc n) (cos theta) phi b"
      using 3 by (simp add: cc_degree_def)
    show ?thesis
      unfolding d using cc_ge3_spec[OF c 3 le1 r, of cs phi] by simp
  qed
  moreover from this have "length (Pnm_m1 (cc_degree K cs (Suc n) (cos theta) phi b))
        = maxshexpan av + 1"
      "length (Pnm_m2 (cc_degree K cs (Suc n) (cos theta) phi b)) = maxshexpan av + 1"
    by (simp_all add: rows_hold_def)
  ultimately show ?case
    unfolding S cs_def[symmetric] by (simp add: R spec_partial_radius_Suc)
qed

lemma partial_radius_spec:
  assumes "legendre_contract K P (maxshexpan av) (cos theta)" and "n \<le> maxshexpan av"
  shows "partial_radius K av sht phi theta n
           = spec_partial_radius P (shcoeffs_byshape av ! sht) theta phi n"
  using cc_buf_spec[OF assms] by (simp add: partial_radius_def)

text \<open>
  Claim C1. Let the Legendre routines return the functions \<open>P\<close> (\<open>legendre_contract\<close>) and
  let \<open>r\<^sub>n\<close> be the partial radius of the specification, the sum of the spherical-harmonic
  terms of the degrees up to \<open>n\<close>. For a catalog with \<^verbatim>\<open>maxshexpan\<close> at least \<open>1\<close> (the
  constructor sets \<open>20\<close>), every shape index, direction and distance: the value of
  \<^verbatim>\<open>rad_val\<close> after the pass of degree \<open>n\<close> is \<open>r\<^sub>n\<close>; \<^verbatim>\<open>check_contact\<close> returns \<open>0\<close>
  and leaves \<^verbatim>\<open>finalrad\<close> alone when the distance exceeds \<open>expfacts[n] \<sqdot> r\<^sub>n\<close> at some
  degree \<open>n\<close> from \<open>0\<close> to \<^verbatim>\<open>maxshexpan\<close>; otherwise it returns \<open>1\<close> and sets
  \<^verbatim>\<open>finalrad\<close> to \<open>r\<close> of degree \<^verbatim>\<open>maxshexpan\<close>. When \<open>expfacts[maxshexpan] = 1\<close> and no
  lower degree exits, it returns \<open>1\<close> exactly when the distance is at most that radius.
\<close>

theorem check_contact_progressive:
  assumes "1 \<le> maxshexpan av" and "legendre_contract K P (maxshexpan av) (cos theta)"
  shows "(\<forall>n\<le>maxshexpan av. partial_radius K av sht phi theta n
            = spec_partial_radius P (shcoeffs_byshape av ! sht) theta phi n)
       \<and> ((\<exists>n\<le>maxshexpan av. d > expfacts_byshape av ! sht ! n
                * spec_partial_radius P (shcoeffs_byshape av ! sht) theta phi n)
            \<longrightarrow> check_contact K av sht phi theta d fr = (0, fr))
       \<and> (\<not> (\<exists>n\<le>maxshexpan av. d > expfacts_byshape av ! sht ! n
                * spec_partial_radius P (shcoeffs_byshape av ! sht) theta phi n)
            \<longrightarrow> check_contact K av sht phi theta d fr
                  = (1, spec_partial_radius P (shcoeffs_byshape av ! sht) theta phi (maxshexpan av)))
       \<and> (expfacts_byshape av ! sht ! maxshexpan av = 1
            \<longrightarrow> (\<forall>n<maxshexpan av. \<not> d > expfacts_byshape av ! sht ! n
                * spec_partial_radius P (shcoeffs_byshape av ! sht) theta phi n)
            \<longrightarrow> (fst (check_contact K av sht phi theta d fr) = 1
                    \<longleftrightarrow> d \<le> spec_partial_radius P (shcoeffs_byshape av ! sht) theta phi
                               (maxshexpan av)))"
proof -
  define r where "r = spec_partial_radius P (shcoeffs_byshape av ! sht) theta phi"
  define e where "e n = expfacts_byshape av ! sht ! n * r n" for n
  have pr: "partial_radius K av sht phi theta n = r n" if "n \<le> maxshexpan av" for n
    unfolding r_def by (rule partial_radius_spec[OF assms(2) that])
  have er: "expanded_radius K av sht phi theta n = e n" if "n \<le> maxshexpan av" for n
    by (simp add: expanded_radius_def e_def pr[OF that])
  have ex: "(\<exists>n\<le>maxshexpan av. d > expanded_radius K av sht phi theta n)
        \<longleftrightarrow> (\<exists>n\<le>maxshexpan av. d > e n)"
    using er by auto
  have cc: "check_contact K av sht phi theta d fr
      = (if \<exists>n\<le>maxshexpan av. d > e n then (0, fr) else (1, r (maxshexpan av)))"
    using check_contact_eq[OF assms(1), of K sht phi theta d fr]
    unfolding early_exit_0 ex by (simp add: pr)
  have last: "fst (check_contact K av sht phi theta d fr) = 1 \<longleftrightarrow> d \<le> r (maxshexpan av)"
    if one: "expfacts_byshape av ! sht ! maxshexpan av = 1"
      and no: "\<forall>n<maxshexpan av. \<not> d > e n"
  proof -
    have "(\<exists>n\<le>maxshexpan av. d > e n) \<longleftrightarrow> d > e (maxshexpan av)"
      using no by (metis le_neq_implies_less order_refl)
    moreover have "e (maxshexpan av) = r (maxshexpan av)"
      using one by (simp add: e_def)
    ultimately show ?thesis using cc by auto
  qed
  show ?thesis
    using pr cc last unfolding e_def r_def by simp
qed

subsection \<open>A shape of degree three seen from the equator\<close>

text \<open>The kernel of the specification meets the contract, for every degree and argument.\<close>

lemma K_leg_contract: "legendre_contract K_leg P_leg N x"
proof -
  have tip: "x * sqrt (2 * (real n - 1) + 3) * P_leg (n - 1) (n - 1) x = P_leg n (n - 1) x"
    if "3 \<le> n" for n
  proof -
    from that obtain j where n: "n = Suc j" by (cases n) simp_all
    show ?thesis by (simp add: n P_leg_def)
  qed
  have nn: "plegendre_nn K_leg n x (P_leg (n - 1) (n - 1) x) = P_leg n n x" if "3 \<le> n" for n
  proof -
    from that obtain j where n: "n = Suc j" by (cases n) simp_all
    show ?thesis by (simp add: n P_leg_def K_leg_def)
  qed
  have rec: "plegendre_recycle K_leg n m x (P_leg (n - 1) m x) (P_leg (n - 2) m x) = P_leg n m x"
    if "3 \<le> n" "m \<le> n - 2" for n m
  proof -
    define k where "k = n - 2 - m"
    have n: "n = m + k + 2" using that by (simp add: k_def)
    have "n - m = Suc (Suc k)" "n - 1 - m = Suc k" "n - 2 - m = k" by (simp_all add: n)
    then show ?thesis
      using that by (simp add: P_leg_def K_leg_def n)
  qed
  show ?thesis
    unfolding legendre_contract_def using tip nn rec by (simp add: K_leg_def P_leg_def)
qed


lemma spec_degree_3:
  "spec_degree P cs theta phi 3
     = cs ! 18 * P 3 0 (cos theta)
       + (cs ! 16 * cos phi - cs ! 17 * sin phi) * 2 * P 3 1 (cos theta)
       + (cs ! 14 * cos (2 * phi) - cs ! 15 * sin (2 * phi)) * 2 * P 3 2 (cos theta)
       + (cs ! 12 * cos (3 * phi) - cs ! 13 * sin (3 * phi)) * 2 * P 3 3 (cos theta)"
proof -
  have u: "[0 ..< 3 + 1] = [0, 1, 2, 3 :: nat]" by code_simp
  have l: "sh_loc 3 0 = 18" "sh_loc 3 1 = 16" "sh_loc 3 2 = 14" "sh_loc 3 3 = 12"
    by (simp_all add: sh_loc_def)
  have "spec_degree P cs theta phi 3
      = spec_term P cs theta phi 3 0 + spec_term P cs theta phi 3 1
        + spec_term P cs theta phi 3 2 + spec_term P cs theta phi 3 3"
    unfolding spec_degree_def u by simp
  also have "spec_term P cs theta phi 3 0 = cs ! 18 * P 3 0 (cos theta)"
    unfolding spec_term_def l by simp
  also have "spec_term P cs theta phi 3 1
      = (cs ! 16 * cos phi - cs ! 17 * sin phi) * 2 * P 3 1 (cos theta)"
    unfolding spec_term_def l by simp
  also have "spec_term P cs theta phi 3 2
      = (cs ! 14 * cos (2 * phi) - cs ! 15 * sin (2 * phi)) * 2 * P 3 2 (cos theta)"
    unfolding spec_term_def l by simp
  also have "spec_term P cs theta phi 3 3
      = (cs ! 12 * cos (3 * phi) - cs ! 13 * sin (3 * phi)) * 2 * P 3 3 (cos theta)"
    unfolding spec_term_def l by simp
  finally show ?thesis .
qed

lemma leg_diag_nonzero: "leg_diag n 0 \<noteq> 0"
  by (induction n) simp_all

lemma P_leg_equator_zero:
  "P_leg 1 0 0 = 0" "P_leg 2 1 0 = 0" "P_leg 3 0 0 = 0" "P_leg 3 2 0 = 0"
proof -
  have c: "leg_col m (Suc 0) 0 = 0" for m by simp
  have d: "(1::nat) - 0 = Suc 0" "(2::nat) - 1 = Suc 0" "(3::nat) - 2 = Suc 0"
    "(3::nat) - 0 = Suc (Suc (Suc 0))" by simp_all
  show "P_leg 1 0 0 = 0" "P_leg 2 1 0 = 0" "P_leg 3 2 0 = 0"
    unfolding P_leg_def d c by simp_all
  have "leg_col 0 (Suc (Suc (Suc 0))) 0 = leg_recycle 3 0 0 (leg_col 0 (Suc (Suc 0)) 0) (leg_col 0 (Suc 0) 0)"
    by (simp add: numeral_3_eq_3)
  then show "P_leg 3 0 0 = 0"
    unfolding P_leg_def d c by (simp add: leg_recycle_def)
qed

lemma P_leg_equator_nonzero:
  "P_leg 0 0 0 \<noteq> 0" "P_leg 1 1 0 \<noteq> 0" "P_leg 2 2 0 \<noteq> 0" "P_leg 3 3 0 \<noteq> 0"
  "P_leg 2 0 0 \<noteq> 0" "P_leg 3 1 0 \<noteq> 0"
proof -
  show "P_leg 0 0 0 \<noteq> 0" "P_leg 1 1 0 \<noteq> 0" "P_leg 2 2 0 \<noteq> 0" "P_leg 3 3 0 \<noteq> 0"
    unfolding P_leg_def using leg_diag_nonzero by simp_all
  have "P_leg 2 0 0 = leg_recycle 2 0 0 (leg_col 0 (Suc 0) 0) (leg_diag 0 0)"
    by (simp add: P_leg_def numeral_2_eq_2)
  also have "\<dots> = sqrt (15 / 4) * (- (sqrt (1 / 3) * leg_diag 0 0))"
    by (simp add: leg_recycle_def)
  finally show "P_leg 2 0 0 \<noteq> 0" using leg_diag_nonzero[of 0] by simp
  have "(3::nat) - 1 = Suc (Suc 0)" by simp
  then have "P_leg 3 1 0 = leg_recycle 3 1 0 (leg_col 1 (Suc 0) 0) (leg_diag 1 0)"
    unfolding P_leg_def by (simp add: numeral_3_eq_3)
  also have "\<dots> = sqrt (35 / 8) * (- (sqrt (3 / 15) * leg_diag 1 0))"
    unfolding leg_recycle_def by simp
  finally show "P_leg 3 1 0 \<noteq> 0" using leg_diag_nonzero[of 1] by simp
qed

lemma quarter_turns:
  "cos (2 * (pi / 2)) = - 1" "sin (2 * (pi / 2)) = 0"
  "cos (3 * (pi / 2)) = 0" "sin (3 * (pi / 2)) = - 1"
proof -
  show "cos (2 * (pi / 2)) = - 1" "sin (2 * (pi / 2)) = 0" by simp_all
  have e: "3 * (pi / 2) = 3 / 2 * pi" by simp
  show "cos (3 * (pi / 2)) = 0" unfolding e by (rule cos_3over2_pi)
  show "sin (3 * (pi / 2)) = - 1" unfolding e by (rule sin_3over2_pi)
qed

lemma cs_equator_nth:
  "cs_equator ! 0 = 2 / P_leg 0 0 0" "cs_equator ! 2 = 5" "cs_equator ! 3 = - 1 / (2 * P_leg 1 1 0)"
  "cs_equator ! 4 = 1" "cs_equator ! 6 = - 1 / (2 * P_leg 2 2 0)" "cs_equator ! 7 = 3"
  "cs_equator ! 8 = 1" "cs_equator ! 9 = 1" "cs_equator ! 10 = 1 / P_leg 2 0 0"
  "cs_equator ! 12 = 2" "cs_equator ! 13 = 1 / (2 * P_leg 3 3 0)"
  "cs_equator ! 14 = 1" "cs_equator ! 15 = 1"
  "cs_equator ! 16 = 4" "cs_equator ! 17 = - 1 / (2 * P_leg 3 1 0)" "cs_equator ! 18 = 1"
  by (simp_all add: cs_equator_def)

lemma equator_degrees:
  "spec_partial_radius P_leg cs_equator (pi / 2) (pi / 2) 0 = 2"
  "spec_degree P_leg cs_equator (pi / 2) (pi / 2) 1 = 1"
  "spec_degree P_leg cs_equator (pi / 2) (pi / 2) 2 = 2"
  "spec_degree P_leg cs_equator (pi / 2) (pi / 2) 3 = 2"
  unfolding spec_partial_radius_0 spec_degree_1 spec_degree_2 spec_degree_3 cs_equator_nth
    quarter_turns cos_pi_half sin_pi_half P_leg_equator_zero
  using P_leg_equator_nonzero by simp_all

lemma spec_partial_radius_low:
  "spec_partial_radius P cs theta phi 1
     = spec_partial_radius P cs theta phi 0 + spec_degree P cs theta phi 1"
  "spec_partial_radius P cs theta phi 2
     = spec_partial_radius P cs theta phi 1 + spec_degree P cs theta phi 2"
  "spec_partial_radius P cs theta phi 3
     = spec_partial_radius P cs theta phi 2 + spec_degree P cs theta phi 3"
  using spec_partial_radius_Suc[of P cs theta phi 0] spec_partial_radius_Suc[of P cs theta phi 1]
    spec_partial_radius_Suc[of P cs theta phi 2]
  by (simp_all add: numeral_2_eq_2 numeral_3_eq_3)

lemma equator_radii:
  "spec_partial_radius P_leg cs_equator (pi / 2) (pi / 2) 0 = 2"
  "spec_partial_radius P_leg cs_equator (pi / 2) (pi / 2) 1 = 3"
  "spec_partial_radius P_leg cs_equator (pi / 2) (pi / 2) 2 = 5"
  "spec_partial_radius P_leg cs_equator (pi / 2) (pi / 2) 3 = 7"
proof -
  note d = equator_degrees
  show 0: "spec_partial_radius P_leg cs_equator (pi / 2) (pi / 2) 0 = 2" by (rule d(1))
  show 1: "spec_partial_radius P_leg cs_equator (pi / 2) (pi / 2) 1 = 3"
    unfolding spec_partial_radius_low(1) 0 d(2) by simp
  show 2: "spec_partial_radius P_leg cs_equator (pi / 2) (pi / 2) 2 = 5"
    unfolding spec_partial_radius_low(2) 1 d(3) by simp
  show "spec_partial_radius P_leg cs_equator (pi / 2) (pi / 2) 3 = 7"
    unfolding spec_partial_radius_low(3) 2 d(4) by simp
qed

lemma le_3_cases: "n \<le> 3 \<Longrightarrow> n = 0 \<or> n = 1 \<or> n = 2 \<or> n = (3::nat)"
  by arith

text \<open>
  For the shape \<open>cs_equator\<close> and the kernel of the specification: the distance \<open>15 / 2\<close>
  passes the degrees \<open>0, 1, 2\<close> and is rejected at degree \<open>3\<close>; the distance \<open>7\<close> is
  accepted with the radius \<open>7\<close>.
\<close>

theorem check_contact_progressive_witness:
  "1 \<le> maxshexpan av_equator
   \<and> legendre_contract K_leg P_leg (maxshexpan av_equator) (cos (pi / 2))
   \<and> partial_radius K_leg av_equator 0 (pi / 2) (pi / 2) 3 = 7
   \<and> check_contact K_leg av_equator 0 (pi / 2) (pi / 2) (15 / 2) 0 = (0, 0)
   \<and> check_contact K_leg av_equator 0 (pi / 2) (pi / 2) 7 0 = (1, 7)
   \<and> expfacts_byshape av_equator ! 0 ! maxshexpan av_equator = 1
   \<and> (fst (check_contact K_leg av_equator 0 (pi / 2) (pi / 2) 7 0) = 1
        \<longleftrightarrow> 7 \<le> spec_partial_radius P_leg cs_equator (pi / 2) (pi / 2) 3)"
proof -
  have m: "maxshexpan av_equator = 3" and cs: "shcoeffs_byshape av_equator ! 0 = cs_equator"
    and ef: "expfacts_byshape av_equator ! 0 = [4, 3, 2, 1]"
    by (simp_all add: av_equator_def)
  have h: "1 \<le> maxshexpan av_equator" by (simp add: m)
  have c: "legendre_contract K_leg P_leg (maxshexpan av_equator) (cos (pi / 2))"
    by (rule K_leg_contract)
  have e: "expfacts_byshape av_equator ! 0 ! 0 = 4" "expfacts_byshape av_equator ! 0 ! 1 = 3"
    "expfacts_byshape av_equator ! 0 ! 2 = 2" "expfacts_byshape av_equator ! 0 ! 3 = 1"
    by (simp_all add: ef)
  have out: "\<exists>n\<le>maxshexpan av_equator. 15 / 2 > expfacts_byshape av_equator ! 0 ! n
      * spec_partial_radius P_leg (shcoeffs_byshape av_equator ! 0) (pi / 2) (pi / 2) n"
    unfolding m cs by (rule exI[of _ 3]) (simp add: e equator_radii)
  have inside: "\<not> (\<exists>n\<le>maxshexpan av_equator. 7 > expfacts_byshape av_equator ! 0 ! n
      * spec_partial_radius P_leg (shcoeffs_byshape av_equator ! 0) (pi / 2) (pi / 2) n)"
    unfolding m cs using e equator_radii by (auto dest!: le_3_cases)
  have below: "\<forall>n<maxshexpan av_equator. \<not> 7 > expfacts_byshape av_equator ! 0 ! n
      * spec_partial_radius P_leg (shcoeffs_byshape av_equator ! 0) (pi / 2) (pi / 2) n"
    using inside by auto
  note t1 = check_contact_progressive[OF h c, of 0 "pi / 2" "15 / 2" 0]
  note t2 = check_contact_progressive[OF h c, of 0 "pi / 2" 7 0]
  have a: "partial_radius K_leg av_equator 0 (pi / 2) (pi / 2) 3 = 7"
    using t1 by (simp add: m cs equator_radii)
  have b: "check_contact K_leg av_equator 0 (pi / 2) (pi / 2) (15 / 2) 0 = (0, 0)"
    using t1 out by blast
  have d: "check_contact K_leg av_equator 0 (pi / 2) (pi / 2) 7 0 = (1, 7)"
    using t2 inside by (simp add: m cs equator_radii)
  have f: "fst (check_contact K_leg av_equator 0 (pi / 2) (pi / 2) 7 0) = 1
        \<longleftrightarrow> 7 \<le> spec_partial_radius P_leg cs_equator (pi / 2) (pi / 2) 3"
    using t2 below by (simp add: m cs e)
  show ?thesis using h c a b d f by (simp add: m e)
qed

section \<open>The contact test against the shape oracle\<close>

lemma ge3_m_eq: "cc_ge3_m K cs n x phi = gsr_ge3_m K cs n x phi"
  by (intro ext) (simp add: cc_ge3_m_def gsr_ge3_m_def)

lemma n2_m_eq: "cc_n2_m K cs x phi = gsr_n2_m K cs x phi"
  by (intro ext) (simp add: cc_n2_m_def gsr_n2_m_def)

lemma ge3_eq: "cc_ge3 K cs n x phi b = gsr_ge3 K cs n x phi b"
  by (simp add: cc_ge3_def cc_ge3_tips_def cc_ge3_m0_def gsr_ge3_def ge3_m_eq Let_def)

lemma degree_eq: "cc_degree K cs n x phi b = gsr_degree K cs x phi n b"
  unfolding cc_degree_def gsr_degree_def cc_n1_def gsr_n1_def cc_n2_def gsr_n2_def
    ge3_eq n2_m_eq ..

lemma cc_buf_fold:
  "cc_buf K av sht phi theta n =
     fold (gsr_degree K (shcoeffs_byshape av ! sht) (cos theta) phi) [1 ..< n + 1] (sh_init av sht)"
  by (induction n) (simp_all add: degree_eq)

lemma partial_radius_full:
  "partial_radius K av sht phi theta (maxshexpan av) = get_shape_radius K av sht theta phi"
  by (simp add: partial_radius_def get_shape_radius_def cc_buf_fold)

text \<open>
  Claim C6. For every shape index and direction, the radius that \<^verbatim>\<open>check_contact\<close>
  has accumulated after the pass of degree \<^verbatim>\<open>maxshexpan\<close> is the value of
  \<^verbatim>\<open>get_shape_radius\<close>, and whenever \<^verbatim>\<open>check_contact\<close> returns \<open>1\<close> the value it
  stores in \<^verbatim>\<open>finalrad\<close> is \<^verbatim>\<open>get_shape_radius(sht, theta, phi)\<close>.
\<close>

theorem check_contact_finalrad:
  "partial_radius K av sht phi theta (maxshexpan av) = get_shape_radius K av sht theta phi
   \<and> (fst (check_contact K av sht phi theta d fr) = 1
        \<longrightarrow> snd (check_contact K av sht phi theta d fr) = get_shape_radius K av sht theta phi)"
proof (cases "maxshexpan av = 0")
  case True
  then show ?thesis
    using partial_radius_full[of K av sht phi theta] by (simp add: check_contact_degree0)
next
  case False
  then have "1 \<le> maxshexpan av" by simp
  from check_contact_eq[OF this, of K sht phi theta d fr]
    partial_radius_full[of K av sht phi theta]
  show ?thesis by (simp split: if_splits)
qed

theorem check_contact_finalrad_witness:
  "fst (check_contact K_one av_three 0 0 0 6 0) = 1
   \<and> snd (check_contact K_one av_three 0 0 0 6 0) = 6
   \<and> get_shape_radius K_one av_three 0 0 0 = 6"
proof -
  have m: "maxshexpan av_three = Suc (Suc (Suc 0))" by (simp add: av_three_def)
  have h: "1 \<le> maxshexpan av_three" by (simp add: m)
  have inside: "\<not> early_exit K_one av_three 0 0 0 6 0"
    unfolding early_exit_0 m using av_three_expanded by (auto dest!: le_three_cases)
  have r: "partial_radius K_one av_three 0 0 0 (maxshexpan av_three) = 6"
    unfolding m by (simp add: partial_radius_def av_three_buf del: cc_buf.simps)
  have c: "check_contact K_one av_three 0 0 0 6 0 = (1, 6)"
    using check_contact_eq[OF h, of K_one 0 0 0 6 0] inside r by simp
  show ?thesis
    using c check_contact_finalrad[of K_one av_three 0 0 0 6 0] by simp
qed

section \<open>Properties of the expansion factors\<close>

lemma cef_point_keeps:
  "expfactors (cef_point K av sht n c) = expfactors c"
  "cef_expfacts (cef_point K av sht n c) = cef_expfacts c"
  by (simp_all add: cef_point_def Let_def)

lemma cef_row_keeps:
  "expfactors (fold (\<lambda>j. cef_point K av sht n) js c) = expfactors c
   \<and> cef_expfacts (fold (\<lambda>j. cef_point K av sht n) js c) = cef_expfacts c"
  by (induction js arbitrary: c) (simp_all add: cef_point_keeps)

lemma cef_grid_keeps:
  "expfactors (fold (\<lambda>i. fold (\<lambda>j. cef_point K av sht n) js) is c) = expfactors c
   \<and> cef_expfacts (fold (\<lambda>i. fold (\<lambda>j. cef_point K av sht n) js) is c) = cef_expfacts c"
  by (induction "is" arbitrary: c) (simp_all add: cef_row_keeps)

lemma cef_n_expfacts: "cef_expfacts (cef_n K av sht n c) = cef_expfacts c"
  by (simp add: cef_n_def Let_def cef_grid_keeps)

lemma cef_n_expfactors:
  "\<exists>e\<ge>1. expfactors (cef_n K av sht n c)
      = (if n < maxshexpan av then (expfactors c)[n := e] else expfactors c)"
proof (cases "n < maxshexpan av")
  case True
  then have t: "int n \<le> int (maxshexpan av) - 1" by simp
  define c1 where "c1 = fold (\<lambda>i. fold (\<lambda>j. cef_point K av sht n) [0 ..< num_quadrature av])
                 [0 ..< num_quadrature av] (c\<lparr>cef_k := 0\<rparr>)"
  define mv where "mv = cef_max_ratio (ratios c1) (cef_k c1)"
  have e1: "expfactors c1 = expfactors c" unfolding c1_def by (simp add: cef_grid_keeps)
  have r: "expfactors (cef_n K av sht n c)
     = (if (expfactors c)[n := mv] ! n < 1 then (expfactors c)[n := mv, n := 1] else (expfactors c)[n := mv])"
    using t by (simp add: cef_n_def Let_def c1_def[symmetric] mv_def[symmetric] e1)
  show ?thesis
  proof (cases "n < length (expfactors c)")
    case False
    then have "expfactors (cef_n K av sht n c) = (expfactors c)[n := 1]"
      using r by (simp add: list_update_beyond not_less)
    with True show ?thesis by auto
  next
    case l: True
    show ?thesis
    proof (cases "mv < 1")
      case True
      with l r have "expfactors (cef_n K av sht n c) = (expfactors c)[n := 1]" by simp
      with \<open>n < maxshexpan av\<close> show ?thesis by auto
    next
      case False
      with l r have "expfactors (cef_n K av sht n c) = (expfactors c)[n := mv]" by simp
      with \<open>n < maxshexpan av\<close> False show ?thesis by (intro exI[of _ mv]) simp
    qed
  qed
next
  case False
  then have t: "\<not> int n \<le> int (maxshexpan av) - 1" by simp
  show ?thesis using False t
    by (intro exI[of _ 1]) (simp add: cef_n_def Let_def cef_grid_keeps)
qed

lemma cef_n_loop:
  assumes "ef_ok (maxshexpan av) 0 (expfactors c)"
  shows "ef_ok (maxshexpan av) j (expfactors (fold (cef_n K av sht) [0 ..< j] c))
     \<and> cef_expfacts (fold (cef_n K av sht) [0 ..< j] c) = cef_expfacts c"
proof (induction j)
  case 0
  then show ?case using assms by simp
next
  case (Suc j)
  define c' where "c' = fold (cef_n K av sht) [0 ..< j] c"
  from Suc have ok: "ef_ok (maxshexpan av) j (expfactors c')" and x: "cef_expfacts c' = cef_expfacts c"
    by (simp_all add: c'_def)
  obtain e where e: "1 \<le> e" "expfactors (cef_n K av sht j c')
      = (if j < maxshexpan av then (expfactors c')[j := e] else expfactors c')"
    using cef_n_expfactors[of K av sht j c'] by blast
  have "ef_ok (maxshexpan av) (Suc j) (expfactors (cef_n K av sht j c'))"
    using ok e unfolding ef_ok_def
    by (auto simp: nth_list_update less_Suc_eq)
  then show ?case
    by (simp add: c'_def[symmetric] cef_n_expfacts x)
qed


lemma cef_acc_loop:
  assumes "1 \<le> f0" and "\<forall>n<j. 1 \<le> expfactors c ! n"
    and "sht < length (cef_expfacts c)" and "j \<le> length (cef_expfacts c ! sht)"
    and "j \<le> length (expfactors c)"
  shows "acc_post sht j f0 c (snd (fold (cef_acc sht) (rev [0 ..< j]) (f0, c)))"
  using assms
proof (induction j arbitrary: f0 c)
  case 0
  then show ?case by (simp add: acc_post_def)
next
  case (Suc j)
  define f1 where "f1 = f0 * (expfactors c ! j * safety_factor)"
  define c1 where "c1 = c\<lparr>expfactors := (expfactors c)[j := f1],
       cef_expfacts := (cef_expfacts c)[sht := (cef_expfacts c ! sht)[j := f1]]\<rparr>"
  define c' where "c' = snd (fold (cef_acc sht) (rev [0 ..< j]) (f1, c1))"
  have step: "cef_acc sht j (f0, c) = (f1, c1)"
    by (simp add: cef_acc_def Let_def f1_def c1_def)
  have ej: "1 \<le> expfactors c ! j" using Suc.prems(2) by simp
  have f01: "f0 \<le> f1"
    using Suc.prems(1) ej mult_left_mono[of 1 "expfactors c ! j" f0]
    by (simp add: f1_def safety_factor_def)
  then have f1: "1 \<le> f1" using Suc.prems(1) by simp
  have p2: "\<forall>n<j. 1 \<le> expfactors c1 ! n"
    using Suc.prems(2) by (simp add: c1_def)
  have p3: "sht < length (cef_expfacts c1)" using Suc.prems(3) by (simp add: c1_def)
  have p4: "j \<le> length (cef_expfacts c1 ! sht)" using Suc.prems(3,4) by (simp add: c1_def)
  have p5: "j \<le> length (expfactors c1)" using Suc.prems(5) by (simp add: c1_def)
  have IH: "acc_post sht j f1 c1 c'"
    unfolding c'_def by (rule Suc.IH[OF f1 p2 p3 p4 p5])
  have rowj: "cef_expfacts c1 ! sht ! j = f1"
    using Suc.prems(3,4) by (simp add: c1_def)
  have rowm: "\<And>m. Suc j \<le> m \<Longrightarrow> cef_expfacts c1 ! sht ! m = cef_expfacts c ! sht ! m"
    using Suc.prems(3) by (simp add: c1_def)
  have efm: "\<And>m. Suc j \<le> m \<Longrightarrow> expfactors c1 ! m = expfactors c ! m"
    by (simp add: c1_def)
  have oth: "\<And>s. s \<noteq> sht \<Longrightarrow> cef_expfacts c1 ! s = cef_expfacts c ! s"
    by (simp add: c1_def)
  have len: "length (cef_expfacts c1 ! sht) = length (cef_expfacts c ! sht)"
       "length (cef_expfacts c1) = length (cef_expfacts c)"
       "length (expfactors c1) = length (expfactors c)"
    using Suc.prems(3) by (simp_all add: c1_def)
  have top: "cef_expfacts c' ! sht ! j = f1"
    using IH rowj unfolding acc_post_def by simp
  have mono: "cef_expfacts c' ! sht ! Suc n \<le> cef_expfacts c' ! sht ! n" if "Suc n < Suc j" for n
  proof (cases "Suc n = j")
    case True
    then have "0 < j" by simp
    with IH have "f1 \<le> cef_expfacts c' ! sht ! (j - 1)" unfolding acc_post_def by simp
    with True top show ?thesis by auto
  next
    case False
    with that have "Suc n < j" by simp
    with IH show ?thesis unfolding acc_post_def by simp
  qed
  have "acc_post sht (Suc j) f0 c c'"
    unfolding acc_post_def
    using mono top f01 IH rowm efm oth len
    by (auto simp: acc_post_def)
  then show ?case by (simp add: step c'_def)
qed

lemma cef_shape_inv:
  assumes "cef_inv av sht c" and "sht < nshtypes av"
  shows "cef_inv av (Suc sht) (cef_shape K av sht c)"
proof -
  let ?N = "maxshexpan av"
  define c0 where "c0 = c\<lparr>r_n := replicate (length (r_n c)) 0\<rparr>"
  define c1 where "c1 = fold (cef_n K av sht) [0 ..< ?N + 1] c0"
  define c2 where "c2 = snd (fold (cef_acc sht) (rev [0 ..< ?N]) (expfactors c1 ! ?N, c1))"
  define c3 where "c3 = c2\<lparr>cef_expfacts :=
                    (cef_expfacts c2)[sht := (cef_expfacts c2 ! sht)[?N := 1]]\<rparr>"
  have res: "cef_shape K av sht c
     = c3\<lparr>cef_maxrad := (cef_maxrad c3)[sht := cef_maxrad c3 ! sht * safety_factor]\<rparr>"
    by (simp add: cef_shape_def Let_def c0_def c1_def c2_def c3_def split_beta)
  have ok0: "ef_ok ?N 0 (expfactors c0)" using assms(1) by (simp add: cef_inv_def c0_def)
  from cef_n_loop[OF ok0, of "?N + 1" K sht]
  have ok1: "ef_ok ?N (?N + 1) (expfactors c1)" and x1: "cef_expfacts c1 = cef_expfacts c"
    by (simp_all add: c1_def c0_def)
  have f0: "expfactors c1 ! ?N = 1" and l1: "length (expfactors c1) = ?N + 1"
    and ge1: "\<forall>n<?N. 1 \<le> expfactors c1 ! n"
    using ok1 by (simp_all add: ef_ok_def)
  have lx: "length (cef_expfacts c) = nshtypes av"
    and lrow: "\<And>s. s < nshtypes av \<Longrightarrow> length (cef_expfacts c ! s) = ?N + 1"
    and old: "\<And>s. s < sht \<Longrightarrow> row_ok ?N (cef_expfacts c ! s)"
    using assms by (simp_all add: cef_inv_def)
  have post: "acc_post sht ?N 1 c1 c2"
    unfolding c2_def f0
    by (rule cef_acc_loop) (use ge1 l1 x1 lx lrow assms(2) in simp_all)
  have len2: "length (cef_expfacts c2) = nshtypes av"
    and lrow2: "length (cef_expfacts c2 ! sht) = ?N + 1"
    and oth2: "\<And>s. s \<noteq> sht \<Longrightarrow> cef_expfacts c2 ! s = cef_expfacts c ! s"
    and mono2: "\<And>n. Suc n < ?N \<Longrightarrow> cef_expfacts c2 ! sht ! Suc n \<le> cef_expfacts c2 ! sht ! n"
    and top2: "0 < ?N \<Longrightarrow> 1 \<le> cef_expfacts c2 ! sht ! (?N - 1)"
    and ef2: "length (expfactors c2) = ?N + 1" "expfactors c2 ! ?N = 1"
    using post x1 lx lrow[OF assms(2)] l1 f0 by (simp_all add: acc_post_def)
  have row3: "cef_expfacts c3 ! sht = (cef_expfacts c2 ! sht)[?N := 1]"
    using len2 assms(2) by (simp add: c3_def)
  have ok3: "row_ok ?N (cef_expfacts c3 ! sht)"
    unfolding row_ok_def row3
  proof (intro conjI allI impI)
    fix n assume n: "n < ?N"
    show "(cef_expfacts c2 ! sht)[?N := 1] ! (n + 1) \<le> (cef_expfacts c2 ! sht)[?N := 1] ! n"
    proof (cases "n + 1 = ?N")
      case True
      then have "0 < ?N" "n = ?N - 1" by simp_all
      with top2 True lrow2 show ?thesis by simp
    next
      case False
      with n have "Suc n < ?N" by simp
      with mono2[OF this] n show ?thesis by simp
    qed
  next
    show "(cef_expfacts c2 ! sht)[?N := 1] ! ?N = 1" using lrow2 by simp
  qed
  have oth3: "\<And>s. s \<noteq> sht \<Longrightarrow> cef_expfacts c3 ! s = cef_expfacts c ! s"
    using oth2 by (simp add: c3_def)
  have "cef_inv av (Suc sht) c3"
    unfolding cef_inv_def
  proof (intro conjI allI impI)
    show "ef_ok ?N 0 (expfactors c3)" using ef2 by (simp add: ef_ok_def c3_def)
    show "length (cef_expfacts c3) = nshtypes av" using len2 by (simp add: c3_def)
  next
    fix s assume "s < nshtypes av"
    then show "length (cef_expfacts c3 ! s) = ?N + 1"
      using oth3[of s] lrow[of s] row3 lrow2 by (cases "s = sht") simp_all
  next
    fix s assume "s < Suc sht" "s < nshtypes av"
    then show "row_ok ?N (cef_expfacts c3 ! s)"
      using ok3 oth3[of s] old[of s] by (cases "s = sht") simp_all
  qed
  then show ?thesis by (simp add: res cef_inv_def)
qed

lemma cef_shapes_inv:
  assumes "cef_inv av 0 c" and "j \<le> nshtypes av"
  shows "cef_inv av j (fold (cef_shape K av) [0 ..< j] c)"
  using assms(2)
proof (induction j)
  case 0
  then show ?case using assms(1) by simp
next
  case (Suc j)
  then have "cef_inv av j (fold (cef_shape K av) [0 ..< j] c)" and "j < nshtypes av" by simp_all
  from cef_shape_inv[OF this, of K] show ?case by simp
qed

lemma cef_locals_inv:
  assumes "expfacts_allocated av"
  shows "cef_inv av 0 (cef_locals av)"
  using assms
  by (simp add: cef_inv_def cef_locals_def expfacts_allocated_def ef_ok_def Let_def list_all_length
        del: replicate.simps)

lemma av_unit_degree:
  "cef_degree K_one (shcoeffs_byshape av_unit ! 0) 0 1 0 r = r + 1"
  "cef_degree K_one (shcoeffs_byshape av_unit ! 0) (Suc 0) 1 0 r = r + 3"
  "cef_degree K_one (shcoeffs_byshape av_unit ! 0) (Suc (Suc 0)) 1 0 r = r + 1"
  "cef_degree K_one (shcoeffs_byshape av_unit ! 0) (Suc (Suc (Suc 0))) 1 0 r = r + 1"
  by (simp_all add: cef_degree_def cef_m_def K_one_def av_unit_def Let_def upt_rec)

lemma av_unit_fields:
  "maxshexpan av_unit = Suc (Suc (Suc 0))" "num_quadrature av_unit = Suc 0"
  "angles av_unit ! 0 ! 0 = 0" "angles av_unit ! Suc 0 ! 0 = 0" "nshtypes av_unit = Suc 0"
  by (simp_all add: av_unit_def)

lemma av_unit_n:
  "cef_n K_one av_unit 0 0 \<lparr>r_n = [0], r_npo = [0], ratios = [0], expfactors = [0, 0, 0, 1],
       cef_k = 0, cef_expfacts = [[0, 0, 0, 0]], cef_maxrad = [0]\<rparr>
   = \<lparr>r_n = [1], r_npo = [4], ratios = [4], expfactors = [4, 0, 0, 1],
       cef_k = Suc 0, cef_expfacts = [[0, 0, 0, 0]], cef_maxrad = [0]\<rparr>"
  "cef_n K_one av_unit 0 (Suc 0) \<lparr>r_n = [1], r_npo = [4], ratios = [4], expfactors = [4, 0, 0, 1],
       cef_k = Suc 0, cef_expfacts = [[0, 0, 0, 0]], cef_maxrad = [0]\<rparr>
   = \<lparr>r_n = [4], r_npo = [5], ratios = [5/4], expfactors = [4, 5/4, 0, 1],
       cef_k = Suc 0, cef_expfacts = [[0, 0, 0, 0]], cef_maxrad = [0]\<rparr>"
  "cef_n K_one av_unit 0 (Suc (Suc 0)) \<lparr>r_n = [4], r_npo = [5], ratios = [5/4], expfactors = [4, 5/4, 0, 1],
       cef_k = Suc 0, cef_expfacts = [[0, 0, 0, 0]], cef_maxrad = [0]\<rparr>
   = \<lparr>r_n = [5], r_npo = [6], ratios = [6/5], expfactors = [4, 5/4, 6/5, 1],
       cef_k = Suc 0, cef_expfacts = [[0, 0, 0, 0]], cef_maxrad = [0]\<rparr>"
  "cef_n K_one av_unit 0 (Suc (Suc (Suc 0))) \<lparr>r_n = [5], r_npo = [6], ratios = [6/5], expfactors = [4, 5/4, 6/5, 1],
       cef_k = Suc 0, cef_expfacts = [[0, 0, 0, 0]], cef_maxrad = [0]\<rparr>
   = \<lparr>r_n = [6], r_npo = [6], ratios = [6/5], expfactors = [4, 5/4, 6/5, 1],
       cef_k = Suc 0, cef_expfacts = [[0, 0, 0, 0]], cef_maxrad = [6]\<rparr>"
  by (simp_all add: cef_n_def cef_point_def cef_max_ratio_def Let_def av_unit_degree av_unit_fields)

lemma av_unit_shape:
  "cef_shape K_one av_unit 0 \<lparr>r_n = [0], r_npo = [0], ratios = [0], expfactors = [0, 0, 0, 1],
       cef_k = 0, cef_expfacts = [[0, 0, 0, 0]], cef_maxrad = [0]\<rparr>
   = \<lparr>r_n = [6], r_npo = [6], ratios = [6/5], expfactors = [6, 3/2, 6/5, 1],
       cef_k = Suc 0, cef_expfacts = [[6, 3/2, 6/5, 1]], cef_maxrad = [6]\<rparr>"
  by (simp add: cef_shape_def Let_def av_unit_n av_unit_fields upt_rec cef_acc_def safety_factor_def)

lemma av_unit_locals:
  "cef_locals av_unit = \<lparr>r_n = [0], r_npo = [0], ratios = [0], expfactors = [0, 0, 0, 1],
       cef_k = 0, cef_expfacts = [[0, 0, 0, 0]], cef_maxrad = [0]\<rparr>"
  by (simp add: cef_locals_def av_unit_def Let_def numeral_eq_Suc)

lemma av_unit_factors:
  "expfacts_byshape (calcexpansionfactors_gauss K_one av_unit) = [[6, 3/2, 6/5, 1]]"
  "maxrad_byshape (calcexpansionfactors_gauss K_one av_unit) = [6]"
  by (simp_all add: calcexpansionfactors_gauss_def Let_def av_unit_locals av_unit_fields av_unit_shape)

text \<open>
  Claim C5. After \<^verbatim>\<open>calcexpansionfactors_gauss\<close> has run on allocated arrays, the row
  of every shape satisfies \<open>expfacts[0] \<ge> expfacts[1] \<ge> \<dots> \<ge> expfacts[maxshexpan] = 1\<close>.
\<close>

theorem expfacts_monotone:
  assumes "expfacts_allocated av" and "sht < nshtypes av"
  shows "(\<forall>n<maxshexpan av.
             expfacts_byshape (calcexpansionfactors_gauss K av) ! sht ! (n + 1)
               \<le> expfacts_byshape (calcexpansionfactors_gauss K av) ! sht ! n)
         \<and> expfacts_byshape (calcexpansionfactors_gauss K av) ! sht ! maxshexpan av = 1"
proof -
  have "cef_inv av (nshtypes av) (fold (cef_shape K av) [0 ..< nshtypes av] (cef_locals av))"
    by (rule cef_shapes_inv[OF cef_locals_inv[OF assms(1)]]) simp
  then have "row_ok (maxshexpan av)
      (cef_expfacts (fold (cef_shape K av) [0 ..< nshtypes av] (cef_locals av)) ! sht)"
    using assms(2) by (simp add: cef_inv_def)
  then show ?thesis
    by (simp add: calcexpansionfactors_gauss_def Let_def row_ok_def)
qed


theorem expfacts_monotone_witness:
  "expfacts_allocated av_unit \<and> 0 < nshtypes av_unit
   \<and> expfacts_byshape (calcexpansionfactors_gauss K_one av_unit) ! 0 = [6, 3/2, 6/5, 1]
   \<and> expfacts_byshape (calcexpansionfactors_gauss K_one av_unit) ! 0 ! 1
        \<le> expfacts_byshape (calcexpansionfactors_gauss K_one av_unit) ! 0 ! 0
   \<and> expfacts_byshape (calcexpansionfactors_gauss K_one av_unit) ! 0 ! maxshexpan av_unit = 1"
proof -
  have a: "expfacts_allocated av_unit" by (simp add: expfacts_allocated_def av_unit_def)
  have b: "0 < nshtypes av_unit" by (simp add: av_unit_def)
  have m: "0 < maxshexpan av_unit" by (simp add: av_unit_def)
  show ?thesis
    using a b m expfacts_monotone[OF a b, of K_one] by (simp add: av_unit_factors)
qed

section \<open>Properties of the quadrature grid\<close>

lemma gqv_nodes_prefix:
  "j \<le> Q \<Longrightarrow> length a = Q \<Longrightarrow>
   length (snd (fold (gqv_node GLPair Q) [0 ..< j] (ws, a))) = Q
   \<and> (\<forall>i<j. snd (fold (gqv_node GLPair Q) [0 ..< j] (ws, a)) ! i = qp_x (GLPair Q (i + 1)))"
proof (induction j)
  case 0
  then show ?case by simp
next
  case (Suc j)
  obtain ws' a' where f: "fold (gqv_node GLPair Q) [0 ..< j] (ws, a) = (ws', a')"
    by (cases "fold (gqv_node GLPair Q) [0 ..< j] (ws, a)")
  from Suc f have l: "length a' = Q" and v: "\<forall>i<j. a' ! i = qp_x (GLPair Q (i + 1))" by simp_all
  have "snd (fold (gqv_node GLPair Q) [0 ..< Suc j] (ws, a)) = a'[j := qp_x (GLPair Q (j + 1))]"
    by (simp add: f gqv_node_def Let_def)
  then show ?case using l v Suc.prems by (auto simp: nth_list_update less_Suc_eq)
qed

lemma gqv_nodes_abscissa:
  "i < Q \<Longrightarrow> snd (gqv_nodes GLPair Q ws) ! i = qp_x (GLPair Q (i + 1))"
  using gqv_nodes_prefix[of Q Q "replicate Q 0" GLPair ws] by (simp add: gqv_nodes_def)

lemma gqv_point_ok:
  assumes "ang_ok a Q (i * Q + j) ang" and "i < Q" and "j < Q"
  shows "ang_ok a Q (i * Q + Suc j) (fst (gqv_point a i j (ang, i * Q + j)))"
    and "snd (gqv_point a i j (ang, i * Q + j)) = i * Q + Suc j"
proof -
  have "i * Q + j < Suc i * Q" using assms(3) by simp
  also have "\<dots> \<le> Q * Q" using assms(2) by (simp add: Suc_leI mult_le_mono1 del: mult_Suc)
  finally have lt: "i * Q + j < Q * Q" .
  have d: "(i * Q + j) div Q = i" "(i * Q + j) mod Q = j" using assms(3) by simp_all
  show "ang_ok a Q (i * Q + Suc j) (fst (gqv_point a i j (ang, i * Q + j)))"
    using assms(1) lt d
    by (auto simp: ang_ok_def gqv_point_def Let_def nth_list_update less_Suc_eq)
  show "snd (gqv_point a i j (ang, i * Q + j)) = i * Q + Suc j"
    by (simp add: gqv_point_def Let_def)
qed

lemma gqv_row_ok:
  assumes "ang_ok a Q (i * Q) ang" and "i < Q" and "j \<le> Q"
  shows "ang_ok a Q (i * Q + j) (fst (fold (\<lambda>j. gqv_point a i j) [0 ..< j] (ang, i * Q)))
       \<and> snd (fold (\<lambda>j. gqv_point a i j) [0 ..< j] (ang, i * Q)) = i * Q + j"
  using assms(3)
proof (induction j)
  case 0
  then show ?case using assms(1) by simp
next
  case (Suc j)
  obtain ang' where f: "fold (\<lambda>j. gqv_point a i j) [0 ..< j] (ang, i * Q) = (ang', i * Q + j)"
    and ok: "ang_ok a Q (i * Q + j) ang'"
    using Suc by (cases "fold (\<lambda>j. gqv_point a i j) [0 ..< j] (ang, i * Q)") auto
  from Suc.prems have j: "j < Q" by simp
  show ?case
    using gqv_point_ok[OF ok assms(2) j] by (simp add: f)
qed

lemma gqv_grid_ok:
  assumes "ang_ok a Q 0 ang" and "i \<le> Q"
  shows "ang_ok a Q (i * Q) (fst (fold (\<lambda>i. fold (\<lambda>j. gqv_point a i j) [0 ..< Q]) [0 ..< i] (ang, 0)))
       \<and> snd (fold (\<lambda>i. fold (\<lambda>j. gqv_point a i j) [0 ..< Q]) [0 ..< i] (ang, 0)) = i * Q"
  using assms(2)
proof (induction i)
  case 0
  then show ?case using assms(1) by simp
next
  case (Suc i)
  obtain ang' where f: "fold (\<lambda>i. fold (\<lambda>j. gqv_point a i j) [0 ..< Q]) [0 ..< i] (ang, 0) = (ang', i * Q)"
    and ok: "ang_ok a Q (i * Q) ang'"
    using Suc by (cases "fold (\<lambda>i. fold (\<lambda>j. gqv_point a i j) [0 ..< Q]) [0 ..< i] (ang, 0)") auto
  from Suc.prems have i: "i < Q" by simp
  show ?case
    using gqv_row_ok[OF ok i, of Q] by (simp add: f add.commute)
qed

lemma gqv_angles_ok:
  assumes "length ang = 2" "length (ang ! 0) = Q * Q" "length (ang ! 1) = Q * Q"
  shows "ang_ok a Q (Q * Q) (fst (gqv_angles a Q ang))"
proof -
  have "ang_ok a Q 0 ang" using assms by (simp add: ang_ok_def)
  from gqv_grid_ok[OF this, of Q] show ?thesis by (simp add: gqv_angles_def)
qed

lemma angles_result:
  "angles (get_quadrature_values K GLPair av)
     = fst (gqv_angles (snd (gqv_nodes GLPair (num_quadrature av) (weights av)))
              (num_quadrature av) (angles av))"
  by (simp add: get_quadrature_values_def Let_def split_beta)

text \<open>
  Claim C8. On arrays allocated as in \<^verbatim>\<open>process_args\<close>, for every grid index
  \<open>(i, j)\<close> the grid entry \<open>i * num_quadrature + j\<close> holds \<open>\<theta> = (\<pi>/2) (x\<^sub>i + 1)\<close> and
  \<open>\<phi> = \<pi> (x\<^sub>j + 1)\<close>, where \<open>x\<^sub>i\<close> is the abscissa of the node \<open>i + 1\<close>; so \<open>\<theta>\<close> lies in
  \<open>[0, \<pi>]\<close> and \<open>\<phi>\<close> in \<open>[0, 2\<pi>]\<close>.
\<close>

theorem quadrature_grid_angles:
  assumes "angles_allocated av" and "i < num_quadrature av" and "j < num_quadrature av"
  shows "angles (get_quadrature_values K GLPair av) ! 0 ! (i * num_quadrature av + j)
           = pi / 2 * (qp_x (GLPair (num_quadrature av) (i + 1)) + 1)
       \<and> angles (get_quadrature_values K GLPair av) ! 1 ! (i * num_quadrature av + j)
           = pi * (qp_x (GLPair (num_quadrature av) (j + 1)) + 1)
       \<and> 0 \<le> angles (get_quadrature_values K GLPair av) ! 0 ! (i * num_quadrature av + j)
       \<and> angles (get_quadrature_values K GLPair av) ! 0 ! (i * num_quadrature av + j) \<le> pi
       \<and> 0 \<le> angles (get_quadrature_values K GLPair av) ! 1 ! (i * num_quadrature av + j)
       \<and> angles (get_quadrature_values K GLPair av) ! 1 ! (i * num_quadrature av + j) \<le> 2 * pi"
proof -
  let ?Q = "num_quadrature av"
  let ?a = "snd (gqv_nodes GLPair ?Q (weights av))"
  have ok: "ang_ok ?a ?Q (?Q * ?Q) (angles (get_quadrature_values K GLPair av))"
    unfolding angles_result
    by (rule gqv_angles_ok) (use assms(1) in \<open>simp_all add: angles_allocated_def\<close>)
  have "i * ?Q + j < Suc i * ?Q" using assms(3) by simp
  also have "\<dots> \<le> ?Q * ?Q" using assms(2) by (simp add: Suc_leI mult_le_mono1 del: mult_Suc)
  finally have lt: "i * ?Q + j < ?Q * ?Q" .
  have d: "(i * ?Q + j) div ?Q = i" "(i * ?Q + j) mod ?Q = j" using assms(3) by simp_all
  have t: "angles (get_quadrature_values K GLPair av) ! 0 ! (i * ?Q + j)
           = pi / 2 * (qp_x (GLPair ?Q (i + 1)) + 1)"
    and p: "angles (get_quadrature_values K GLPair av) ! 1 ! (i * ?Q + j)
           = pi * (qp_x (GLPair ?Q (j + 1)) + 1)"
    using ok lt d gqv_nodes_abscissa[OF assms(2), of GLPair "weights av"]
      gqv_nodes_abscissa[OF assms(3), of GLPair "weights av"]
    by (simp_all add: ang_ok_def)
  have c: "\<And>k. - 1 \<le> qp_x (GLPair ?Q k) \<and> qp_x (GLPair ?Q k) \<le> 1"
    by (simp add: qp_x_def)
  have b1: "0 \<le> pi / 2 * (qp_x (GLPair ?Q (i + 1)) + 1)"
    using c[of "i + 1"] by simp
  have "pi / 2 * (qp_x (GLPair ?Q (i + 1)) + 1) \<le> pi / 2 * 2"
    using c[of "i + 1"] by (intro mult_left_mono) simp_all
  then have b2: "pi / 2 * (qp_x (GLPair ?Q (i + 1)) + 1) \<le> pi" by simp
  have b3: "0 \<le> pi * (qp_x (GLPair ?Q (j + 1)) + 1)"
    using c[of "j + 1"] by simp
  have "pi * (qp_x (GLPair ?Q (j + 1)) + 1) \<le> pi * 2"
    using c[of "j + 1"] by (intro mult_left_mono) simp_all
  then have b4: "pi * (qp_x (GLPair ?Q (j + 1)) + 1) \<le> 2 * pi" by simp
  show ?thesis unfolding t p by (intro conjI refl b1 b2 b3 b4)
qed

theorem quadrature_grid_angles_witness:
  "angles_allocated av_unit \<and> 0 < num_quadrature av_unit
   \<and> angles (get_quadrature_values K_one GL_one av_unit) ! 0 ! 0 = pi / 2
   \<and> angles (get_quadrature_values K_one GL_one av_unit) ! 1 ! 0 = pi"
proof -
  have a: "angles_allocated av_unit" by (simp add: angles_allocated_def av_unit_def)
  have q: "0 < num_quadrature av_unit" by (simp add: av_unit_def)
  show ?thesis
    using a q quadrature_grid_angles[OF a q q, of K_one GL_one]
    by (simp add: qp_x_def GL_one_def)
qed

section \<open>Properties of the force computation\<close>

lemma len3_sq: "len3 v * len3 v = lensq3 v"
proof -
  obtain a b c where v: "v = (a, b, c)" by (cases v)
  have "0 \<le> a * a + b * b + c * c" by (simp add: add_nonneg_nonneg)
  then show ?thesis by (simp add: len3_def v)
qed

lemma lensq3_zero_iff: "lensq3 v = 0 \<longleftrightarrow> v = zero3"
proof -
  obtain a b c where v: "v = (a, b, c)" by (cases v)
  have "a * a + b * b + c * c = 0 \<longleftrightarrow> a = 0 \<and> b = 0 \<and> c = 0"
    using sum_squares_eq_zero_iff[of a b] sum_squares_eq_zero_iff[of "a" "b"]
    by (smt (verit) mult_nonneg_nonneg mult_nonpos_nonpos mult_eq_0_iff zero_le_square)
  then show ?thesis by (simp add: v zero3_def)
qed

text \<open>
  Claim C2, amended. In the Newton's-third-law block, whenever the force \<open>F\<^sub>A\<close> on atom \<open>i\<close>
  is not zero, the force of atom \<open>j\<close> is decreased by \<open>F\<^sub>A\<close> and its torque is increased
  by \<open>F\<^sub>A \<times> (x\<^sub>c - x\<^sub>B)\<close> with the contact point \<open>x\<^sub>c = x\<^sub>A - (\<tau>\<^sub>A \<times> F\<^sub>A) / |F\<^sub>A|\<^sup>2\<close>: the
  code scales the cross product by \<^verbatim>\<open>-1.0 / (fn * fn)\<close>.
\<close>

theorem n3l_contact_point:
  assumes "iforce \<noteq> zero3"
  shows "n3l_block iforce torsum xi xj fj (Finite tj) =
           (sub3 fj iforce,
            Finite (add3 tj
              (cross3 iforce
                 (sub3 (sub3 xi (scale3 (1 / lensq3 iforce) (cross3 torsum iforce))) xj))))"
proof -
  have nz: "lensq3 iforce \<noteq> 0" using assms by (simp add: lensq3_zero_iff)
  obtain t0 t1 t2 where t: "cross3 torsum iforce = (t0, t1, t2)" by (cases "cross3 torsum iforce")
  obtain x0 x1 x2 where x: "xi = (x0, x1, x2)" by (cases xi)
  have "add3 (scale3 (- 1.0 / lensq3 iforce) (cross3 torsum iforce)) xi
      = sub3 xi (scale3 (1 / lensq3 iforce) (cross3 torsum iforce))"
    by (simp add: t x)
  moreover have "len3 iforce \<noteq> 0" using nz by (simp add: len3_def)
  ultimately show ?thesis
    by (simp add: n3l_block_def Let_def len3_sq)
qed

theorem n3l_contact_point_witness:
  "(1, 0, 0) \<noteq> zero3
   \<and> n3l_block (1, 0, 0) (0, 1, 0) (0, 0, 0) (2, 0, 0) (0, 0, 0) (Finite (0, 0, 0))
       = ((- 1, 0, 0), Finite (0, - 1, 0))"
  using n3l_contact_point[of "(1, 0, 0)" "(0, 1, 0)" "(0, 0, 0)" "(2, 0, 0)" "(0, 0, 0)" "(0, 0, 0)"]
  by (simp add: zero3_def)

text \<open>
  Claim C2 as stated has the contact point \<open>x\<^sub>c = x\<^sub>A + (\<tau>\<^sub>A \<times> F\<^sub>A) / |F\<^sub>A|\<^sup>2\<close>. For
  \<open>F\<^sub>A = (1, 0, 0)\<close>, \<open>\<tau>\<^sub>A = (0, 1, 0)\<close>, \<open>x\<^sub>A\<close> the origin and \<open>x\<^sub>B = (2, 0, 0)\<close> the torque
  that the code adds to atom \<open>j\<close> is \<open>(0, -1, 0)\<close>, not the \<open>(0, 1, 0)\<close> of that formula.
\<close>

theorem n3l_contact_point_sign_counterexample:
  "(1, 0, 0) \<noteq> zero3
   \<and> snd (n3l_block (1, 0, 0) (0, 1, 0) (0, 0, 0) (2, 0, 0) (0, 0, 0) (Finite (0, 0, 0)))
       \<noteq> Finite (add3 (0, 0, 0)
             (cross3 (1, 0, 0)
                (sub3 (add3 (0, 0, 0) (scale3 (1 / lensq3 (1, 0, 0)) (cross3 (0, 1, 0) (1, 0, 0))))
                   (2, 0, 0))))"
  by (simp add: n3l_block_def Let_def len3_def zero3_def)

text \<open>
  Claim C3 says that a zero force \<open>F\<^sub>A\<close> makes the block skip the torque of atom \<open>j\<close>.
  The block has no such test: with a zero force it still divides by \<open>|F\<^sub>A|\<^sup>2 = 0\<close>, and
  the torque of atom \<open>j\<close> is not left unchanged but ends as a vector of NaN.
\<close>

theorem n3l_zero_force_not_finite:
  "n3l_block zero3 torsum xi xj fj (Finite tj) = (fj, NotFinite)"
proof -
  obtain a b c where f: "fj = (a, b, c)" by (cases fj)
  show ?thesis by (simp add: n3l_block_def Let_def len3_def zero3_def f)
qed


text \<open>
  For the first neighbour of an atom \<^verbatim>\<open>delvec\<close> is \<open>x\<^sub>i - x\<^sub>j\<close>, and the pair is
  left untouched when the centres are at least \<open>r\<^sub>m\<^sub>a\<^sub>x(i) + r\<^sub>m\<^sub>a\<^sub>x(j)\<close> apart, and stops
  with \<open>CenterInsideOther\<close> when they are closer than that and at most \<open>r\<^sub>m\<^sub>a\<^sub>x(j)\<close>
  apart.
\<close>

lemma compute_pair_first_neighbour:
  assumes "ai_index ai = i"
  shows "(ai_radi ai + maxrad_byshape av ! (atom_shtype atm ! j)
            \<le> len3 (sub3 (atom_x atm ! i) (atom_x atm ! j))
          \<longrightarrow> compute_pair MX K av ps rn ai j (atom_x atm ! i, atm)
                = Some (Inr (sub3 (atom_x atm ! i) (atom_x atm ! j), atm)))
       \<and> (len3 (sub3 (atom_x atm ! i) (atom_x atm ! j))
             < ai_radi ai + maxrad_byshape av ! (atom_shtype atm ! j)
          \<and> len3 (sub3 (atom_x atm ! i) (atom_x atm ! j))
             \<le> maxrad_byshape av ! (atom_shtype atm ! j)
          \<longrightarrow> compute_pair MX K av ps rn ai j (atom_x atm ! i, atm) = Some (Inl CenterInsideOther))"
  by (simp add: compute_pair_def Let_def len3_def)

lemma sqrt_16: "sqrt 16 = 4"
proof -
  have "sqrt (4 * 4) = 4" by simp
  then show ?thesis by simp
qed

text \<open>
  Claim C4 speaks of every neighbour pair. From the second neighbour of an atom on,
  \<^verbatim>\<open>delvec\<close> is no longer \<open>x\<^sub>i - x\<^sub>j\<close> but what the earlier passes left in it minus
  \<open>x\<^sub>j\<close>. Atom \<open>0\<close> and its second neighbour \<open>2\<close> are \<open>4\<close> apart, twice the sum of their
  maximum radii, and the evaluation stops with \<open>CenterInsideOther\<close>.
\<close>

theorem second_neighbour_stale_delvec:
  "maxrad_byshape av_balls ! (atom_shtype atoms_line ! 0)
      + maxrad_byshape av_balls ! (atom_shtype atoms_line ! 2)
     \<le> len3 (sub3 (atom_x atoms_line ! 0) (atom_x atoms_line ! 2))
   \<and> compute MX K av_balls ps rn [(0, [1, 2])] atoms_line = Some (Inl CenterInsideOther)"
  by (simp add: compute_atom_def compute_pair_def Let_def atoms_line_def av_balls_def
        len3_def sqrt_16)

section \<open>Properties of the rotation\<close>

lemma dr_store_m_length:
  "length (fst (fold (dr_store_m aa n) ms (out, loc0))) = length out"
  by (induction ms arbitrary: out loc0) (simp_all add: dr_store_m_def)

lemma dr_store_n_length: "length (dr_store_n aa n out) = length out"
  by (simp add: dr_store_n_def dr_store_m_length del: upt_Suc)

lemma dr_store_length: "length (dr_store N aa coeffout) = length coeffout"
proof -
  have "length (fold (dr_store_n aa) ns out0) = length out0" for ns out0
    by (induction ns arbitrary: out0) (simp_all add: dr_store_n_length)
  then show ?thesis unfolding dr_store_def .
qed

subsection \<open>The half angles\<close>

text \<open>
  The two nudges leave a cosine and a sine that are never zero; away from the zeros they
  are \<open>cos (\<beta> / 2)\<close> and \<open>sin (\<beta> / 2)\<close>.
\<close>

lemma tiny_sin_pos: "0 < sin (1 / 10 ^ 10 / 2 :: real)"
proof (rule sin_gt_zero)
  show "0 < (1 / 10 ^ 10 / 2 :: real)" by simp
  have "(1 / 10 ^ 10 / 2 :: real) < 2" by simp
  also have "\<dots> \<le> pi" by (rule pi_ge_two)
  finally show "(1 / 10 ^ 10 / 2 :: real) < pi" .
qed

lemma half_angle_shift: "(b + 1 / 10 ^ 10) / 2 = b / 2 + 1 / 10 ^ 10 / (2 :: real)"
  by (simp add: add_divide_distrib)

lemma cos_sin_not_both: "cos (x :: real) = 0 \<Longrightarrow> sin x \<noteq> 0"
  using sin_cos_squared_add[of x] by auto

lemma dr_half_angles_cases:
  "dr_half_angles b =
     (if cos (b / 2) = 0 then (cos ((b + 1 / 10 ^ 10) / 2), sin (b / 2))
      else if sin (b / 2) = 0 then (cos (b / 2), sin ((b + 1 / 10 ^ 10) / 2))
      else (cos (b / 2), sin (b / 2)))"
  using cos_sin_not_both[of "b / 2"] by (auto simp add: dr_half_angles_def Let_def)

lemma dr_half_angles_nonzero:
  "fst (dr_half_angles b) \<noteq> 0" "snd (dr_half_angles b) \<noteq> 0"
proof -
  note t = tiny_sin_pos
  have c: "cos ((b + 1 / 10 ^ 10) / 2) \<noteq> 0" if "cos (b / 2) = 0"
    unfolding half_angle_shift cos_add using that cos_sin_not_both[OF that] t by simp
  have s: "sin ((b + 1 / 10 ^ 10) / 2) \<noteq> 0" if "sin (b / 2) = 0" "cos (b / 2) \<noteq> 0"
    unfolding half_angle_shift sin_add using that t by simp
  show "fst (dr_half_angles b) \<noteq> 0"
    unfolding dr_half_angles_cases using c by simp
  show "snd (dr_half_angles b) \<noteq> 0"
    unfolding dr_half_angles_cases using s cos_sin_not_both[of "b / 2"] by simp
qed

subsection \<open>The coefficient of degree 0\<close>

text \<open>
  The loops of the degrees \<open>n \<ge> 1\<close> write the rows \<open>n\<close> of \<^verbatim>\<open>dterm\<close> and \<^verbatim>\<open>aa\<close> and
  the entries of \<^verbatim>\<open>coeffout\<close> from \<open>n (n + 1)\<close> on; what the pass of degree \<open>0\<close> leaves
  in row \<open>0\<close> and in the first two entries stays.
\<close>

lemma upd3_other_row: "a \<noteq> r \<Longrightarrow> upd3 t a b c v ! r = t ! r"
  by (simp add: upd3_def)

lemma fold_row_frame:
  assumes "\<And>x d. x \<in> set xs \<Longrightarrow> F x d ! r = d ! (r :: nat)"
  shows "fold F xs d ! r = d ! r"
  using assms by (induction xs arbitrary: d) simp_all

lemma dr_seed_entry_0:
  assumes "factorial 0 = 1"
  shows "dr_seed_entry factorial c s 0 0 0 = 1"
  using assms by (simp add: dr_seed_entry_def Let_def)


lemma dr_seed_row0:
  "dr_seed factorial getIndex c s d ! 0
     = upd3 d 0 (getIndex 0 0) (getIndex 0 0) (dr_seed_entry factorial c s 0 0 0) ! 0"
proof -
  have u: "[0 .. 1] = [0, 1 :: int]" "[- 0 .. 0] = [0 :: int]" by (simp_all add: upto_rec1)
  define F where "F = (\<lambda>n. fold (\<lambda>m. fold (\<lambda>mp d.
             upd3 d (nat n) (getIndex n mp) (getIndex n m)
               (dr_seed_entry factorial c s n m mp))
           [- n .. n]) [- n .. n])"
  have one: "F 1 d' ! 0 = d' ! 0" for d'
    unfolding F_def
    by (intro fold_row_frame) (simp add: upd3_other_row)
  have zero: "F 0 d = upd3 d 0 (getIndex 0 0) (getIndex 0 0) (dr_seed_entry factorial c s 0 0 0)"
    unfolding F_def u by simp
  have "dr_seed factorial getIndex c s d = F 1 (F 0 d)"
    unfolding dr_seed_def F_def[symmetric] u(1) by simp
  then show ?thesis by (simp add: one zero)
qed

lemma dr_steps_row0: "dr_steps getIndex N c s d ! 0 = d ! 0"
  unfolding dr_steps_def Let_def
  by (intro fold_row_frame) (auto simp add: upd3_other_row)

lemma dr_sums_row0:
  "dr_sums getIndex N dterm coeffin alpha gamma aa ! 0
     = (let icmplx = dr_sum_entry getIndex dterm coeffin alpha gamma 0 0 0;
            a1 = upd3 aa 0 0 0 (aa ! 0 ! 0 ! 0 + Re icmplx)
        in upd3 a1 0 0 1 (a1 ! 0 ! 0 ! 1 + Im icmplx)) ! 0"
proof -
  have u: "[0 .. int N] = 0 # [1 .. int N]" "[- 0 .. 0] = [0 :: int]"
    by (simp_all add: upto_rec1)
  define F where "F = (\<lambda>n. fold (\<lambda>m. fold (\<lambda>mp a.
             (let icmplx = dr_sum_entry getIndex dterm coeffin alpha gamma n m mp;
                  a1 = upd3 a (nat n) (nat (m + n)) 0 (a ! nat n ! nat (m + n) ! 0 + Re icmplx)
              in upd3 a1 (nat n) (nat (m + n)) 1 (a1 ! nat n ! nat (m + n) ! 1 + Im icmplx)))
           [- n .. n]) [- n .. n])"
  have rest: "fold F [1 .. int N] a ! 0 = a ! 0" for a
    unfolding F_def
    by (intro fold_row_frame) (auto simp add: upd3_other_row Let_def)
  have zero: "F 0 aa = (let icmplx = dr_sum_entry getIndex dterm coeffin alpha gamma 0 0 0;
            a1 = upd3 aa 0 0 0 (aa ! 0 ! 0 ! 0 + Re icmplx)
        in upd3 a1 0 0 1 (a1 ! 0 ! 0 ! 1 + Im icmplx))"
    unfolding F_def u by simp
  have "dr_sums getIndex N dterm coeffin alpha gamma aa = fold F [1 .. int N] (F 0 aa)"
    unfolding dr_sums_def F_def[symmetric] u(1) by simp
  then show ?thesis by (simp add: rest zero)
qed

lemma dr_store_m_below:
  "i < loc \<Longrightarrow> fst (fold (dr_store_m aa n) ms (out, loc)) ! i = out ! i"
  by (induction ms arbitrary: out loc) (simp_all add: dr_store_m_def)

lemma dr_store_n_below: "i < n * (n + 1) \<Longrightarrow> dr_store_n aa n out ! i = out ! i"
  unfolding dr_store_n_def by (rule dr_store_m_below)

lemma dr_store_head:
  assumes "i < 2"
  shows "dr_store N aa out ! i = out[0 := aa ! 0 ! 0 ! 0, 1 := aa ! 0 ! 0 ! 1] ! i"
proof -
  have u: "[0 ..< N + 1] = 0 # [1 ..< N + 1]" by (simp add: upt_rec)
  have rest: "fold (dr_store_n aa) ns out' ! i = out' ! i" if "\<forall>n\<in>set ns. 1 \<le> n" for ns out'
    using that
  proof (induction ns arbitrary: out')
    case Nil
    then show ?case by simp
  next
    case (Cons n ns)
    then have "1 \<le> n" by simp
    then have "1 * 2 \<le> n * (n + 1)" by (intro mult_le_mono) simp_all
    then have "i < n * (n + 1)" using assms by simp
    then show ?case using Cons by (simp add: dr_store_n_below)
  qed
  have zero: "dr_store_n aa 0 out = out[0 := aa ! 0 ! 0 ! 0, 1 := aa ! 0 ! 0 ! 1]"
    by (simp add: dr_store_n_def dr_store_m_def)
  have e: "dr_store N aa out = fold (dr_store_n aa) [1 ..< N + 1] (dr_store_n aa 0 out)"
    unfolding dr_store_def u by simp
  have "\<forall>n\<in>set [1 ..< N + 1]. 1 \<le> n" by (simp del: upt_Suc)
  from rest[OF this, of "dr_store_n aa 0 out"] show ?thesis
    unfolding e zero .
qed


lemma upd3_same:
  assumes "a < length t" and "b < length (t ! a)" and "c < length (t ! a ! b)"
  shows "upd3 t a b c v ! a ! b ! c = v"
  using assms by (simp add: upd3_def)

lemma doRotate_result:
  "doRotate factorial getIndex av sht coeffin coeffout alpha beta gamma
     = Inr (dr_store (maxshexpan av)
              (dr_sums getIndex (maxshexpan av)
                 (dr_steps getIndex (maxshexpan av) (fst (dr_half_angles beta))
                    (snd (dr_half_angles beta))
                    (dr_seed factorial getIndex (fst (dr_half_angles beta))
                       (snd (dr_half_angles beta))
                       (replicate (maxshexpan av + 1)
                          (replicate (2 * (maxshexpan av + 1))
                             (replicate (2 * (maxshexpan av + 1)) 0)))))
                 coeffin alpha gamma
                 (replicate (maxshexpan av + 1) (replicate (2 * maxshexpan av + 1) (replicate 2 0))))
              coeffout)"
  by (simp add: doRotate_def Let_def split_beta)

lemma doRotate_degree0:
  assumes f: "factorial 0 = 1" and g: "getIndex 0 0 < 2 * (maxshexpan av + 1)"
    and len: "2 \<le> length coeffout"
  shows "\<exists>out. doRotate factorial getIndex av sht coeffin coeffout alpha beta gamma = Inr out
           \<and> length out = length coeffout \<and> out ! 0 = coeffin ! 0 \<and> out ! 1 = coeffin ! 1"
proof -
  define N where "N = maxshexpan av"
  define c where "c = fst (dr_half_angles beta)"
  define s where "s = snd (dr_half_angles beta)"
  define d0 :: "real list list list"
    where "d0 = replicate (N + 1) (replicate (2 * (N + 1)) (replicate (2 * (N + 1)) 0))"
  define d2 where "d2 = dr_steps getIndex N c s (dr_seed factorial getIndex c s d0)"
  define a0 :: "real list list list"
    where "a0 = replicate (N + 1) (replicate (2 * N + 1) (replicate 2 0))"
  define aa where "aa = dr_sums getIndex N d2 coeffin alpha gamma a0"
  define out where "out = dr_store N aa coeffout"
  have R: "doRotate factorial getIndex av sht coeffin coeffout alpha beta gamma = Inr out"
    unfolding doRotate_result out_def aa_def d2_def d0_def a0_def c_def s_def N_def ..
  define M where "M = 2 * (N + 1)"
  define W where "W = 2 * N + 1"
  have g': "getIndex 0 0 < M" using g by (simp add: N_def M_def)
  have W: "0 < W" by (simp add: W_def)
  have d0: "d0 = replicate (Suc N) (replicate M (replicate M 0))"
    by (simp add: d0_def M_def)
  have a0: "a0 = replicate (Suc N) (replicate W [0, 0])"
    by (simp add: a0_def W_def numeral_2_eq_2)
  have "d2 ! 0 = upd3 d0 0 (getIndex 0 0) (getIndex 0 0) 1 ! 0"
    unfolding d2_def dr_steps_row0 dr_seed_row0 dr_seed_entry_0[of factorial, OF f] ..
  moreover have "upd3 d0 0 (getIndex 0 0) (getIndex 0 0) 1 ! 0 ! getIndex 0 0 ! getIndex 0 0 = 1"
    by (rule upd3_same) (use g' in \<open>simp_all add: d0\<close>)
  ultimately have "d2 ! 0 ! getIndex 0 0 ! getIndex 0 0 = 1" by simp
  then have e: "dr_sum_entry getIndex d2 coeffin alpha gamma 0 0 0
       = Complex (coeffin ! 0) (coeffin ! 1)"
    by (simp add: dr_sum_entry_def Let_def zero_complex.code[symmetric]
          one_complex.code[symmetric])
  have r0: "a0 ! 0 ! 0 = [0, 0]" using W by (simp add: a0)
  have "aa ! 0 = upd3 (upd3 a0 0 0 0 (a0 ! 0 ! 0 ! 0 + coeffin ! 0)) 0 0 1
                   (upd3 a0 0 0 0 (a0 ! 0 ! 0 ! 0 + coeffin ! 0) ! 0 ! 0 ! 1 + coeffin ! 1) ! 0"
    unfolding aa_def dr_sums_row0 Let_def e by simp
  also have "\<dots> ! 0 = [coeffin ! 0, coeffin ! 1]"
    using W by (simp add: upd3_def a0)
  finally have A: "aa ! 0 ! 0 ! 0 = coeffin ! 0" "aa ! 0 ! 0 ! 1 = coeffin ! 1"
    by simp_all
  have l: "0 < length coeffout" "Suc 0 < length coeffout" using len by linarith+
  have "out ! 0 = coeffin ! 0"
    unfolding out_def using l by (subst dr_store_head) (simp_all add: A)
  moreover have "out ! 1 = coeffin ! 1"
    unfolding out_def using l by (subst dr_store_head) (simp_all add: A[unfolded One_nat_def])
  moreover have "length out = length coeffout"
    by (simp add: out_def dr_store_length)
  ultimately show ?thesis using R by simp
qed

text \<open>
  Claim C7, amended. \<^verbatim>\<open>doRotate\<close> has no failure for the angle \<^verbatim>\<open>beta\<close>: it makes no
  range test and no normalisation (the loops that normalise the three angles are commented
  out). For every \<^verbatim>\<open>beta\<close>, inside \<open>[0, \<pi>]\<close> or not, it runs through and leaves output
  coefficients: an array of the length of \<^verbatim>\<open>coeffout\<close> whose coefficient of degree \<open>0\<close> is
  that of the input (for the factorial with \<open>0! = 1\<close>, an index of \<open>(0, 0)\<close> inside the rows
  of \<^verbatim>\<open>dterm\<close>, and an output array of at least two entries). \<^verbatim>\<open>beta\<close> enters only through
  the half-angle cosine and sine: two angles with the same pair give the same result. The
  only treatment of the angle is the nudge by \<open>10\<^sup>-\<^sup>1\<^sup>0\<close> where \<open>cos (\<beta> / 2)\<close> or
  \<open>sin (\<beta> / 2)\<close> is exactly \<open>0\<close>, after which neither value is \<open>0\<close>.
\<close>

theorem doRotate_any_beta:
  assumes "factorial 0 = 1" and "getIndex 0 0 < 2 * (maxshexpan av + 1)"
    and "2 \<le> length coeffout"
  shows "(\<exists>out. doRotate factorial getIndex av sht coeffin coeffout alpha beta gamma = Inr out
            \<and> length out = length coeffout \<and> out ! 0 = coeffin ! 0 \<and> out ! 1 = coeffin ! 1)
       \<and> doRotate factorial getIndex av sht coeffin coeffout alpha beta gamma
            \<noteq> Inl RotationDegenerate
       \<and> (\<forall>beta'. dr_half_angles beta' = dr_half_angles beta
            \<longrightarrow> doRotate factorial getIndex av sht coeffin coeffout alpha beta' gamma
                = doRotate factorial getIndex av sht coeffin coeffout alpha beta gamma)
       \<and> fst (dr_half_angles beta) \<noteq> 0 \<and> snd (dr_half_angles beta) \<noteq> 0
       \<and> (cos (beta / 2) \<noteq> 0 \<longrightarrow> sin (beta / 2) \<noteq> 0
            \<longrightarrow> dr_half_angles beta = (cos (beta / 2), sin (beta / 2)))
       \<and> (cos (beta / 2) = 0
            \<longrightarrow> dr_half_angles beta = (cos ((beta + 1 / 10 ^ 10) / 2), sin (beta / 2)))
       \<and> (sin (beta / 2) = 0
            \<longrightarrow> dr_half_angles beta = (cos (beta / 2), sin ((beta + 1 / 10 ^ 10) / 2)))"
proof (intro conjI impI allI)
  show d: "\<exists>out. doRotate factorial getIndex av sht coeffin coeffout alpha beta gamma = Inr out
            \<and> length out = length coeffout \<and> out ! 0 = coeffin ! 0 \<and> out ! 1 = coeffin ! 1"
    by (rule doRotate_degree0[where factorial = factorial and getIndex = getIndex, OF assms])
  show "doRotate factorial getIndex av sht coeffin coeffout alpha beta gamma
            \<noteq> Inl RotationDegenerate"
    unfolding doRotate_result by simp
  show "doRotate factorial getIndex av sht coeffin coeffout alpha beta' gamma
                = doRotate factorial getIndex av sht coeffin coeffout alpha beta gamma"
    if "dr_half_angles beta' = dr_half_angles beta" for beta'
    unfolding doRotate_result that ..
  show "fst (dr_half_angles beta) \<noteq> 0" "snd (dr_half_angles beta) \<noteq> 0"
    by (rule dr_half_angles_nonzero)+
  show "dr_half_angles beta = (cos (beta / 2), sin (beta / 2))"
    if "cos (beta / 2) \<noteq> 0" "sin (beta / 2) \<noteq> 0"
    unfolding dr_half_angles_cases using that by simp
  show "dr_half_angles beta = (cos ((beta + 1 / 10 ^ 10) / 2), sin (beta / 2))"
    if "cos (beta / 2) = 0"
    unfolding dr_half_angles_cases using that by simp
  show "dr_half_angles beta = (cos (beta / 2), sin ((beta + 1 / 10 ^ 10) / 2))"
    if "sin (beta / 2) = 0"
    unfolding dr_half_angles_cases using that cos_sin_not_both[of "beta / 2"] by auto
qed

text \<open>
  At \<open>\<beta> = 3 \<pi>\<close>, outside \<open>[0, \<pi>]\<close>, the cosine of the half angle is \<open>0\<close> and is nudged; the
  routine returns coefficients.
\<close>

lemma doRotate_three_inputs:
  "fact_real 0 = 1" "index_shift 0 0 < 2 * (maxshexpan av_three + 1)"
  "2 \<le> length (replicate 20 (0 :: real))"
  "shcoeffs_byshape av_three ! 0 ! 0 = 2 * sqrt pi" "shcoeffs_byshape av_three ! 0 ! 1 = 0"
  "length (replicate 20 (0 :: real)) = 20"
  by (simp_all add: fact_real_def index_shift_def av_three_def)

theorem doRotate_any_beta_witness:
  "fact_real 0 = 1 \<and> index_shift 0 0 < 2 * (maxshexpan av_three + 1)
   \<and> 2 \<le> length (replicate 20 (0 :: real)) \<and> pi < 3 * pi
   \<and> (\<exists>out. doRotate fact_real index_shift av_three 0 (shcoeffs_byshape av_three ! 0)
                (replicate 20 0) 0 (3 * pi) 0 = Inr out
            \<and> length out = 20 \<and> out ! 0 = 2 * sqrt pi \<and> out ! 1 = 0)
   \<and> cos (3 * pi / 2) = 0
   \<and> dr_half_angles (3 * pi) = (cos ((3 * pi + 1 / 10 ^ 10) / 2), sin (3 * pi / 2))
   \<and> fst (dr_half_angles (3 * pi)) \<noteq> 0"
proof -
  note i = doRotate_three_inputs
  note t = doRotate_any_beta[where factorial = fact_real and getIndex = index_shift
      and av = av_three and coeffout = "replicate 20 0" and sht = 0
      and coeffin = "shcoeffs_byshape av_three ! 0" and alpha = 0 and beta = "3 * pi"
      and gamma = 0, OF i(1,2,3)]
  have c: "cos (3 * pi / 2) = 0" using cos_3over2_pi by simp
  from t have o: "\<exists>out. doRotate fact_real index_shift av_three 0 (shcoeffs_byshape av_three ! 0)
                (replicate 20 0) 0 (3 * pi) 0 = Inr out
            \<and> length out = 20 \<and> out ! 0 = 2 * sqrt pi \<and> out ! 1 = 0"
    unfolding i(4,5,6) by (elim conjE)
  from t have g: "cos (3 * pi / 2) = 0
            \<longrightarrow> dr_half_angles (3 * pi) = (cos ((3 * pi + 1 / 10 ^ 10) / 2), sin (3 * pi / 2))"
    by (elim conjE)
  from t have n: "fst (dr_half_angles (3 * pi)) \<noteq> 0"
    by (elim conjE)
  have p: "pi < 3 * pi" by simp
  from g c have h: "dr_half_angles (3 * pi)
      = (cos ((3 * pi + 1 / 10 ^ 10) / 2), sin (3 * pi / 2))" ..
  show ?thesis
    by (intro conjI i(1) i(2) i(3) p o c h n)
qed

text \<open>
  Claim C7 as stated: for \<^verbatim>\<open>beta\<close> outside \<open>[0, \<pi>]\<close> the routine reports
  \<open>RotationDegenerate\<close>. At \<^verbatim>\<open>beta = -1\<close> it does not: it returns \<open>20\<close> coefficients, the
  first one the \<open>a\<^sub>0\<^sub>0 = 2 \<surd>\<pi>\<close> of the input.
\<close>

theorem doRotate_negative_beta_counterexample:
  "(- 1 :: real) < 0
   \<and> doRotate fact_real index_shift av_three 0 (shcoeffs_byshape av_three ! 0) (replicate 20 0)
        0 (- 1) 0 \<noteq> Inl RotationDegenerate
   \<and> \<not> isl (doRotate fact_real index_shift av_three 0 (shcoeffs_byshape av_three ! 0)
              (replicate 20 0) 0 (- 1) 0)
   \<and> projr (doRotate fact_real index_shift av_three 0 (shcoeffs_byshape av_three ! 0)
              (replicate 20 0) 0 (- 1) 0) ! 0 = 2 * sqrt pi
   \<and> length (projr (doRotate fact_real index_shift av_three 0 (shcoeffs_byshape av_three ! 0)
              (replicate 20 0) 0 (- 1) 0)) = 20"
proof -
  note i = doRotate_three_inputs
  from doRotate_degree0[where factorial = fact_real and getIndex = index_shift
      and av = av_three and coeffout = "replicate 20 0" and sht = 0
      and coeffin = "shcoeffs_byshape av_three ! 0" and alpha = 0 and beta = "- 1"
      and gamma = 0, OF i(1,2,3)]
  obtain out where o: "doRotate fact_real index_shift av_three 0 (shcoeffs_byshape av_three ! 0)
        (replicate 20 0) 0 (- 1) 0 = Inr out"
    and l: "length out = 20" and z: "out ! 0 = 2 * sqrt pi"
    unfolding i(4,5,6) by (elim exE conjE)
  have n: "(- 1 :: real) < 0" by simp
  show ?thesis
    unfolding o by (simp add: l z)
qed

section \<open>Shapes that are spheres\<close>

text \<open>
  With a sphere row the passes of all degrees leave the radius at its degree-0 value, for
  any Legendre kernel.
\<close>

lemma sphere_row_zero:
  "sphere_row N cs \<Longrightarrow> 1 \<le> i \<Longrightarrow> i < (N + 1) * (N + 2) \<Longrightarrow> cs ! i = 0"
  by (simp add: sphere_row_def)

lemma row_size_mono: "(n::nat) \<le> N \<Longrightarrow> (n + 1) * (n + 2) \<le> (N + 1) * (N + 2)"
  by (intro mult_le_mono) simp_all

lemma sphere_ge3_m:
  assumes "sphere_row N cs" and "loc + 1 < (N + 1) * (N + 2)" and "1 + 2 * length ms \<le> loc"
  shows "rad_val (fst (fold (cc_ge3_m K cs n x phi) ms (b, loc))) = rad_val b
       \<and> snd (fold (cc_ge3_m K cs n x phi) ms (b, loc)) = loc - 2 * length ms"
  using assms(2,3)
proof (induction ms arbitrary: b loc)
  case Nil
  then show ?case by simp
next
  case (Cons m ms)
  have "cs ! loc = 0"
    by (rule sphere_row_zero[OF assms(1)]) (use Cons.prems in simp_all)
  moreover have "cs ! (loc + 1) = 0"
    by (rule sphere_row_zero[OF assms(1)]) (use Cons.prems in simp_all)
  ultimately have z: "cs ! loc = 0" "cs ! Suc loc = 0" by simp_all
  define b' where "b' = fst (cc_ge3_m K cs n x phi m (b, loc))"
  have s: "cc_ge3_m K cs n x phi m (b, loc) = (b', loc - 2)"
    by (simp add: b'_def cc_ge3_m_def Let_def)
  have r: "rad_val b' = rad_val b"
    by (simp add: b'_def cc_ge3_m_def Let_def z)
  have p: "loc - 2 + 1 < (N + 1) * (N + 2)" "1 + 2 * length ms \<le> loc - 2"
    using Cons.prems by simp_all
  from Cons.IH[OF p, of b'] show ?case
    using Cons.prems by (simp add: s r)
qed

lemma sphere_degree:
  assumes "sphere_row N cs" and "1 \<le> n" and "n \<le> N"
  shows "rad_val (cc_degree K cs n x phi b) = rad_val b"
proof -
  note sz = row_size_mono[OF assms(3)]
  consider "n = 1" | "n = 2" | "3 \<le> n" using assms(2) by linarith
  then show ?thesis
  proof cases
    case 1
    then have six: "6 \<le> (N + 1) * (N + 2)" using sz by simp
    have "cs ! 4 = 0" "cs ! 2 = 0" "cs ! 3 = 0"
      by (rule sphere_row_zero[OF assms(1)]; use six in linarith)+
    with 1 show ?thesis by (simp add: cc_degree_def cc_n1_def Let_def)
  next
    case 2
    then have twelve: "12 \<le> (N + 1) * (N + 2)" using sz by simp
    have "cs ! 10 = 0" "cs ! 6 = 0" "cs ! 7 = 0" "cs ! 8 = 0" "cs ! 9 = 0"
      by (rule sphere_row_zero[OF assms(1)]; use twelve in linarith)+
    with 2 show ?thesis
      by (simp add: cc_degree_def cc_n2_def cc_n2_m_def Let_def numeral_eq_Suc)
  next
    case 3
    define loc0 where "loc0 = (n + 1) * (n + 2) - 2"
    have l0: "loc0 = n * n + 3 * n" by (simp add: loc0_def algebra_simps)
    have hi: "loc0 + 1 < (N + 1) * (N + 2)"
      using sz by (simp add: l0 algebra_simps)
    obtain b0 where m0: "cc_ge3_m0 K cs n x phi b = (b0, loc0 - 2)"
      by (simp add: cc_ge3_m0_def Let_def loc0_def)
    have z0: "cs ! loc0 = 0"
      using hi 3 by (intro sphere_row_zero[OF assms(1)]) (simp_all add: l0)
    have "fst (cc_ge3_m0 K cs n x phi b)
        = b\<lparr>rad_val := rad_val b + cs ! loc0
                               * plegendre_recycle K n 0 x (Pnm_m1 b ! 0) (Pnm_m2 b ! 0),
             Pnm_m2 := (Pnm_m2 b)[0 := Pnm_m1 b ! 0],
             Pnm_m1 := (Pnm_m1 b)[0 := plegendre_recycle K n 0 x (Pnm_m1 b ! 0) (Pnm_m2 b ! 0)]\<rparr>"
      by (simp add: cc_ge3_m0_def Let_def loc0_def)
    then have r0: "rad_val b0 = rad_val b" using m0 z0 by simp
    obtain b1 loc1 where F: "fold (cc_ge3_m K cs n x phi) [1 ..< n - 1] (b0, loc0 - 2) = (b1, loc1)"
      by (cases "fold (cc_ge3_m K cs n x phi) [1 ..< n - 1] (b0, loc0 - 2)")
    have p: "loc0 - 2 + 1 < (N + 1) * (N + 2)" "1 + 2 * length [1 ..< n - 1] \<le> loc0 - 2"
      using hi 3 by (simp_all add: l0)
    from sphere_ge3_m[OF assms(1) p, of K n x phi b0, unfolded F]
    have r1: "rad_val b1 = rad_val b" and l1: "loc1 = loc0 - 2 - 2 * (n - 2)"
      using 3 by (simp_all add: r0)
    have l1': "loc1 = n * n + n + 2" using 3 by (simp add: l1 l0 algebra_simps)
    have b: "n * n + n + 3 < (N + 1) * (N + 2)"
      using hi 3 by (simp add: l0)
    have "cs ! loc1 = 0"
      by (rule sphere_row_zero[OF assms(1)]) (use b in \<open>simp_all add: l1'\<close>)
    moreover have "cs ! (loc1 + 1) = 0"
      by (rule sphere_row_zero[OF assms(1)]) (use b in \<open>simp_all add: l1'\<close>)
    moreover have "cs ! (loc1 - 2) = 0"
      by (rule sphere_row_zero[OF assms(1)]) (use b 3 in \<open>simp_all add: l1'\<close>)
    moreover have "cs ! (loc1 - 2 + 1) = 0"
      by (rule sphere_row_zero[OF assms(1)]) (use b 3 in \<open>simp_all add: l1'\<close>)
    ultimately have "rad_val (cc_ge3_tips K cs n x phi (b1, loc1)) = rad_val b1"
      by (simp add: cc_ge3_tips_def Let_def)
    moreover have "cc_ge3 K cs n x phi b = cc_ge3_tips K cs n x phi (b1, loc1)"
      unfolding cc_ge3_def m0 F ..
    ultimately show ?thesis
      using 3 by (simp add: cc_degree_def r1)
  qed
qed

lemma sphere_partial_radius:
  assumes "sphere_row (maxshexpan av) (shcoeffs_byshape av ! sht)" and "n \<le> maxshexpan av"
  shows "partial_radius K av sht phi theta n = shcoeffs_byshape av ! sht ! 0 * sqrt (1 / (4 * pi))"
  using assms(2)
proof (induction n)
  case 0
  then show ?case by (simp add: partial_radius_def sh_init_def)
next
  case (Suc n)
  then have "partial_radius K av sht phi theta n
      = shcoeffs_byshape av ! sht ! 0 * sqrt (1 / (4 * pi))" by simp
  moreover have "rad_val (cc_degree K (shcoeffs_byshape av ! sht) (Suc n) (cos theta) phi
                   (cc_buf K av sht phi theta n)) = rad_val (cc_buf K av sht phi theta n)"
    by (rule sphere_degree[OF assms(1)]) (use Suc.prems in simp_all)
  ultimately show ?case by (simp add: partial_radius_def)
qed

section \<open>The cap index\<close>

lemma rev_upt_last: "0 < n \<Longrightarrow> rev [0 ..< n] = (n - 1) # rev [0 ..< n - 1]"
  by (cases n) simp_all

lemma refine_cap_angle_outer:
  assumes "0 < num_pole_quad ps"
    and "outer_ring_contact MX K av ps ishtype jshtype iang radj iquat_cont iquat_sf_bf xi xj jrot"
  shows "refine_cap_angle MX K av ps kk_count ishtype jshtype iang radj iquat_cont iquat_sf_bf
           xi xj jrot = (int (num_pole_quad ps), 1)"
proof -
  have i: "int (num_pole_quad ps - 1) + 1 = int (num_pole_quad ps)" using assms(1) by simp
  show ?thesis
    using assms(2) unfolding refine_cap_angle_def outer_ring_contact_def Let_def
      rev_upt_last[OF assms(1)]
    by (simp only: find.simps if_True option.case i)
qed

lemma calc_force_torque_overrun:
  "calc_force_torque MX K av ps rn (int (num_pole_quad ps)) ishtype jshtype iang radi radj
      iquat_cont iquat_sf_bf xi xj irot jrot acc
   = Some (Inl (AbscissaOverrun (int (num_pole_quad ps))))"
  by (simp add: calc_force_torque_def Let_def)

lemma abscissa_allocated:
  "length (abscissa (pair_get_quadrature_values GLPair ps)) = num_pole_quad ps"
proof -
  have "length (snd (fold (gqv_node GLPair Q) ks (ws, xs))) = length xs" for Q ks ws xs
    by (induction ks arbitrary: ws xs) (simp_all add: gqv_node_def Let_def)
  from this[of "num_pole_quad ps" "[0 ..< num_pole_quad ps]" "replicate (num_pole_quad ps) 0"
      "replicate (num_pole_quad ps) 0"]
  show ?thesis by (simp add: pair_get_quadrature_values_def Let_def split_beta)
qed

text \<open>
  Claim C10. Let the bounding spheres of atom \<open>i\<close> and its neighbour \<open>j\<close> overlap, with the
  centre of \<open>i\<close> outside the bounding sphere of \<open>j\<close>. Whenever \<^verbatim>\<open>refine_cap_angle\<close>
  finds contact on the ring it scans first, \<^verbatim>\<open>kk = num_pole_quad-1\<close>, it returns with
  \<^verbatim>\<open>kk_count = num_pole_quad\<close>; the guard \<^verbatim>\<open>if (kk_count > num_pole_quad)\<close> of
  \<^verbatim>\<open>compute\<close> leaves that value, and \<^verbatim>\<open>calc_force_torque\<close> reads
  \<^verbatim>\<open>abscissa[num_pole_quad]\<close>, one entry past the \<^verbatim>\<open>num_pole_quad\<close> entries of the
  array.
\<close>

theorem cap_index_overrun:
  assumes "0 < num_pole_quad ps"
    and "pair_r dvec atm j < ai_radi ai + pair_radj av atm j"
    and "pair_radj av atm j < pair_r dvec atm j"
    and "outer_ring_contact MX K av ps (ai_shtype ai) (atom_shtype atm ! j)
           (arcsin (pair_radj av atm j / pair_r dvec atm j)) (pair_radj av atm j)
           (get_contact_quat MX (negate3 (pair_delvec dvec atm j))) (ai_iquat_sf_bf ai)
           (atom_x atm ! ai_index ai) (atom_x atm ! j) (quat_to_mat MX (atom_quat atm ! j))"
  shows "refine_cap_angle MX K av ps (- 1) (ai_shtype ai) (atom_shtype atm ! j)
           (arcsin (pair_radj av atm j / pair_r dvec atm j)) (pair_radj av atm j)
           (get_contact_quat MX (negate3 (pair_delvec dvec atm j))) (ai_iquat_sf_bf ai)
           (atom_x atm ! ai_index ai) (atom_x atm ! j) (quat_to_mat MX (atom_quat atm ! j))
         = (int (num_pole_quad ps), 1)
       \<and> compute_pair MX K av ps rn ai j (dvec, atm)
         = Some (Inl (AbscissaOverrun (int (num_pole_quad ps))))
       \<and> length (abscissa (pair_get_quadrature_values GLPair ps)) = num_pole_quad ps"
proof -
  note r = refine_cap_angle_outer[OF assms(1,4), of "- 1"]
  have "compute_pair MX K av ps rn ai j (dvec, atm)
         = Some (Inl (AbscissaOverrun (int (num_pole_quad ps))))"
    using assms(2,3) r
    by (simp add: compute_pair_def Let_def pair_r_def pair_radj_def pair_delvec_def
          calc_force_torque_overrun)
  with r show ?thesis by (simp add: abscissa_allocated)
qed

subsection \<open>Two spheres whose first scanned ring touches\<close>

text \<open>
  A sphere of radius \<open>4\<close> at the origin and one of radius \<open>3\<close> at \<open>(0, 0, 5)\<close>: the cap has
  half-angle \<open>arcsin (3 / 5)\<close>, its outermost ring lies at the polar angle \<open>arccos u\<close> with
  \<open>u = 0.9 - 0.1 \<cdot> 0.9968934840746495\<close>, and the points of that ring are at the distance
  \<open>\<surd>(41 - 40 u) \<le> 3\<close> from the centre of the neighbour.
\<close>

lemma sqrt_25: "sqrt 25 = 5"
proof -
  have "sqrt (5 * 5) = 5" by simp
  then show ?thesis by simp
qed

lemma sqrt_100: "sqrt 100 = 10"
proof -
  have "sqrt (10 * 10) = 10" by simp
  then show ?thesis by simp
qed

lemma av_spheres_rows:
  "sphere_row (maxshexpan av_spheres) (shcoeffs_byshape av_spheres ! 0)"
  "sphere_row (maxshexpan av_spheres) (shcoeffs_byshape av_spheres ! 1)"
  by (simp_all add: sphere_row_def av_spheres_def nth_Cons')

lemma av_spheres_radius:
  "get_shape_radius K av_spheres 0 theta phi = 4"
  "partial_radius K av_spheres 1 phi theta n = (if n \<le> 20 then 3 else partial_radius K av_spheres 1 phi theta n)"
proof -
  have "shcoeffs_byshape av_spheres ! 0 ! 0 * sqrt (1 / (4 * pi)) = 4"
    by (simp add: av_spheres_def real_sqrt_divide real_sqrt_mult)
  then show "get_shape_radius K av_spheres 0 theta phi = 4"
    using sphere_partial_radius[OF av_spheres_rows(1) order_refl, of K phi theta]
      partial_radius_full[of K av_spheres 0 phi theta] by simp
  have b: "shcoeffs_byshape av_spheres ! 1 ! 0 * sqrt (1 / (4 * pi)) = 3"
    by (simp add: av_spheres_def real_sqrt_divide real_sqrt_mult)
  have m: "maxshexpan av_spheres = 20" by (simp add: av_spheres_def)
  show "partial_radius K av_spheres 1 phi theta n
      = (if n \<le> 20 then 3 else partial_radius K av_spheres 1 phi theta n)"
    using sphere_partial_radius[OF av_spheres_rows(2), of n K phi theta] b m by simp
qed

lemma av_spheres_contact:
  assumes "d \<le> 3"
  shows "check_contact K av_spheres 1 phi theta d fr = (1, 3)"
proof -
  have m: "maxshexpan av_spheres = 20" by (simp add: av_spheres_def)
  have h: "1 \<le> maxshexpan av_spheres" by (simp add: m)
  have e: "expanded_radius K av_spheres 1 phi theta n = 3" if "n \<le> 20" for n
  proof -
    have "n < 21" using that by simp
    then have "expfacts_byshape av_spheres ! 1 ! n = 1" by (simp add: av_spheres_def)
    then show ?thesis
      using av_spheres_radius(2)[of K phi theta n] that by (simp add: expanded_radius_def)
  qed
  have "\<not> early_exit K av_spheres 1 phi theta d 0"
    using assms e by (auto simp: early_exit_def m)
  then show ?thesis
    using check_contact_eq[OF h, of K 1 phi theta d fr] av_spheres_radius(2)[of K phi theta 20]
    by (simp add: m)
qed


lemma azimuth_on_axis: "0 < x \<Longrightarrow> azimuth 0 x = 2 * pi"
  by (simp add: azimuth_def atan2_def Let_def)

lemma outer_node_contact:
  assumes "4 / 5 \<le> u" and "u < 1"
  shows "rca_point K av_spheres 58 0 1 3 ((1, 0, 0), (0, 1, 0), (0, 0, 1))
           ((1, 0, 0), (0, 1, 0), (0, 0, 1)) (0, 0, 0) (0, 0, 5)
           ((1, 0, 0), (0, 1, 0), (0, 0, 1)) (arccos u) 1"
proof -
  define s where "s = sqrt (1 - u\<^sup>2)"
  have u2: "u\<^sup>2 < 1" using assms by (simp add: abs_square_less_1)
  have s0: "0 < s" using u2 by (simp add: s_def)
  have ss: "s * s = 1 - u * u"
    using u2 by (simp add: s_def power2_eq_square)
  have sn: "sin (arccos u) = s" using assms by (simp add: s_def sin_arccos)
  have cs: "cos (arccos u) = u" using assms by simp
  have az: "azimuth 0 s = 2 * pi" "azimuth 0 (4 * s) = 2 * pi"
    using s0 by (simp_all add: azimuth_on_axis)
  define D where "D = len3 (sub3 (4 * s, 0, 4 * u) (0, 0, 5))"
  have "lensq3 (sub3 (4 * s, 0, 4 * u) (0, 0, 5)) = 16 * (s * s) + (4 * u - 5) * (4 * u - 5)"
    by simp
  also have "\<dots> = 41 - 40 * u" by (simp add: ss algebra_simps)
  finally have D2: "D = sqrt (41 - 40 * u)" by (simp add: D_def len3_def)
  have "41 - 40 * u \<le> 9" using assms by simp
  then have "sqrt (41 - 40 * u) \<le> sqrt 9" by (rule real_sqrt_le_mono)
  moreover have "sqrt 9 = 3"
  proof -
    have "sqrt (3 * 3) = 3" by simp
    then show ?thesis by simp
  qed
  ultimately have D3: "D \<le> 3" by (simp add: D2)
  have gp: "(sin (arccos u) * cos 0, sin (arccos u) * sin 0, cos (arccos u)) = (s, 0, u)"
    by (simp add: sn cs)
  have ix: "(4 * sin (arccos u) * cos (2 * pi) + v_0 (0, 0, 0),
             4 * sin (arccos u) * sin (2 * pi) + v_1 (0, 0, 0),
             4 * cos (arccos u) + v_2 (0, 0, 0)) = (4 * s, 0, 4 * u)"
    by (simp add: sn cs)
  have c: "fst (check_contact K av_spheres (Suc 0) phi theta D 0) \<noteq> 0" for phi theta
    using av_spheres_contact[OF D3, of K phi theta 0] by simp
  have D4: "\<not> 3 < D" using D3 by simp
  show ?thesis
    unfolding rca_point_def Let_def
    by (simp add: sn az cs av_spheres_radius(1) D_def[symmetric] D4 c
          del: sub3.simps)
qed


lemma contact_quat_two:
  "get_contact_quat MX_std (negate3 (pair_delvec (0, 0, 0) atoms_two 1)) = (1, 0, 0, 0)"
proof -
  have "sqrt (25 :: real) + 5 = 10" by (simp add: sqrt_25)
  then show ?thesis
    by (simp add: get_contact_quat_def MX_std_def pair_delvec_def atoms_two_def Let_def
          sqrt_100)
qed

lemma pair_r_two: "pair_r (0, 0, 0) atoms_two 1 = 5"
  by (simp add: pair_r_def pair_delvec_def atoms_two_def sqrt_25)

lemma pair_radj_two: "pair_radj av_spheres atoms_two 1 = 3"
  by (simp add: pair_radj_def av_spheres_def atoms_two_def)

lemma cos_cap_two: "cos (arcsin (3 / 5 :: real)) = 4 / 5"
proof -
  have "sqrt (1 - (3 / 5 :: real)\<^sup>2) = sqrt ((4 / 5) * (4 / 5))"
    by (simp add: power2_eq_square)
  also have "\<dots> = 4 / 5" by (rule real_sqrt_unique) (simp_all add: power2_eq_square)
  finally show ?thesis by (simp add: cos_arcsin)
qed

lemma outer_ring_two:
  "outer_ring_contact MX_std K av_spheres ps_thirty 0 (atom_shtype atoms_two ! 1)
     (arcsin (pair_radj av_spheres atoms_two 1 / pair_r (0, 0, 0) atoms_two 1))
     (pair_radj av_spheres atoms_two 1)
     (get_contact_quat MX_std (negate3 (pair_delvec (0, 0, 0) atoms_two 1))) (1, 0, 0, 0)
     (atom_x atoms_two ! 0) (atom_x atoms_two ! 1)
     (quat_to_mat MX_std (atom_quat atoms_two ! 1))"
proof -
  have m: "quat_to_mat MX_std (1, 0, 0, 0) = ((1, 0, 0), (0, 1, 0), (0, 0, 1))"
    by (simp add: MX_std_def)
  have q: "qnormalize MX_std (quatquat MX_std (1, 0, 0, 0) (1, 0, 0, 0)) = (1, 0, 0, 0)"
    by (simp add: MX_std_def)
  have n: "2 * (num_pole_quad ps_thirty - 1) = 58" by (simp add: ps_thirty_def)
  have a: "abscissa ps_thirty ! (num_pole_quad ps_thirty - 1) = - 0.9968934840746495"
    by (simp add: ps_thirty_def)
  have r: "ring_angle ps_thirty (4 / 5) (num_pole_quad ps_thirty - 1)
             = arccos (0.80031065159253505)"
    unfolding ring_angle_def a by simp
  have x: "atom_x atoms_two ! 0 = (0, 0, 0)" "atom_x atoms_two ! 1 = (0, 0, 5)"
    "atom_quat atoms_two ! 1 = (1, 0, 0, 0)" "atom_shtype atoms_two ! 1 = 1"
    by (simp_all add: atoms_two_def)
  have p: "rca_point K av_spheres 58 0 1 3 ((1, 0, 0), (0, 1, 0), (0, 0, 1))
             ((1, 0, 0), (0, 1, 0), (0, 0, 1)) (0, 0, 0) (0, 0, 5)
             ((1, 0, 0), (0, 1, 0), (0, 0, 1)) (arccos (0.80031065159253505)) 1"
    by (rule outer_node_contact) simp_all
  have "(1 :: nat) \<in> set [1 ..< 58 + 2]" by simp
  with p have "list_ex (rca_point K av_spheres 58 0 1 3 ((1, 0, 0), (0, 1, 0), (0, 0, 1))
             ((1, 0, 0), (0, 1, 0), (0, 0, 1)) (0, 0, 0) (0, 0, 5)
             ((1, 0, 0), (0, 1, 0), (0, 0, 1)) (arccos (0.80031065159253505))) [1 ..< 58 + 2]"
    unfolding list_ex_iff by (rule bexI)
  then show ?thesis
    unfolding outer_ring_contact_def Let_def contact_quat_two pair_r_two pair_radj_two
      cos_cap_two x m q n r .
qed

text \<open>
  For these two spheres and the \<open>30\<close> nodes of the constructor the evaluation of the pair
  ends in the read of \<^verbatim>\<open>abscissa[30]\<close>.
\<close>

theorem cap_index_overrun_witness:
  "compute_pair MX_std K_one av_spheres ps_thirty no_normal
     \<lparr>ai_index = 0, ai_type = 1, ai_shtype = 0, ai_radi = 4,
      ai_irot = ((1, 0, 0), (0, 1, 0), (0, 0, 1)), ai_iquat_sf_bf = (1, 0, 0, 0)\<rparr>
     1 ((0, 0, 0), atoms_two)
   = Some (Inl (AbscissaOverrun 30))
   \<and> length (abscissa (pair_get_quadrature_values GL_one ps_thirty)) = 30"
proof -
  define ai where "ai = \<lparr>ai_index = 0, ai_type = 1, ai_shtype = 0, ai_radi = 4,
      ai_irot = ((1, 0, 0), (0, 1, 0), (0, 0, 1)), ai_iquat_sf_bf = (1, 0, 0, 0)\<rparr>"
  have sel: "ai_index ai = 0" "ai_shtype ai = 0" "ai_radi ai = 4"
    "ai_iquat_sf_bf ai = (1, 0, 0, 0)"
    by (simp_all add: ai_def)
  have n: "num_pole_quad ps_thirty = 30" by (simp add: ps_thirty_def)
  have h1: "0 < num_pole_quad ps_thirty" by (simp add: n)
  have h2: "pair_r (0, 0, 0) atoms_two 1 < ai_radi ai + pair_radj av_spheres atoms_two 1"
    unfolding sel pair_r_two pair_radj_two by simp
  have h3: "pair_radj av_spheres atoms_two 1 < pair_r (0, 0, 0) atoms_two 1"
    unfolding pair_r_two pair_radj_two by simp
  have h4: "outer_ring_contact MX_std K_one av_spheres ps_thirty (ai_shtype ai)
     (atom_shtype atoms_two ! 1)
     (arcsin (pair_radj av_spheres atoms_two 1 / pair_r (0, 0, 0) atoms_two 1))
     (pair_radj av_spheres atoms_two 1)
     (get_contact_quat MX_std (negate3 (pair_delvec (0, 0, 0) atoms_two 1)))
     (ai_iquat_sf_bf ai) (atom_x atoms_two ! ai_index ai) (atom_x atoms_two ! 1)
     (quat_to_mat MX_std (atom_quat atoms_two ! 1))"
    unfolding sel by (rule outer_ring_two)
  from cap_index_overrun[OF h1 h2 h3 h4, of no_normal GL_one]
  show ?thesis unfolding ai_def n by simp
qed

end
